(* ===== verification/Prelude.thy ===== *)
theory Prelude
  imports Main "HOL-Library.Word"
begin

text \<open>
  The shared base of the development: the machine types of \<open>types.h\<close>, the outcome of
  a kernel routine, spin locks as the rest of the kernel sees them, and little-endian
  access to byte arrays (what a C cast of a block or a page to a struct does).

  A kernel routine is a function from the kernel state to a \<open>kres\<close>:
  \<^item> \<open>Ret a s\<close>: it returned \<open>a\<close> in state \<open>s\<close>;
  \<^item> \<open>Panic m\<close>: it called \<open>panic(m)\<close>, which never returns;
  \<^item> \<open>Sleep c s\<close>: it went to sleep on channel \<open>c\<close>; \<open>s\<close> is the state it left to the
    other processes. The code after the \<open>sleep\<close> always tests its condition again, so a
    run after the wake-up is again a run of the same loop.

  The kernel state is a chain of record extensions, one per component. A component's
  routines are polymorphic in the extensions above them, so the file system's routines run
  on the state of the whole kernel unchanged.
\<close>

unbundle bit_operations_syntax

section \<open>Machine types\<close>

type_synonym u8 = "8 word"
type_synonym u16 = "16 word"
type_synonym u32 = "32 word"
type_synonym bytes = "nat \<Rightarrow> u8"

named_theorems kdefs \<open>constants of the headers, unfolded by simp on demand\<close>
named_theorems klock \<open>how the routines act on the locks held\<close>

section \<open>Word arithmetic\<close>

lemma unat_of_nat32: "n < 4294967296 \<Longrightarrow> unat (of_nat n :: u32) = n"
  by (simp add: unat_of_nat)

lemma unat_lt_2p32 [simp]: "unat (x :: u32) < 4294967296"
  using unsigned_less [of x] by simp

lemma unat_add32: "unat x + unat y < 4294967296 \<Longrightarrow> unat (x + y :: u32) = unat x + unat y"
  by (simp add: unat_word_ariths)

lemma unat_diff_case:
  "unat (a - b :: u32) = (if b \<le> a then unat a - unat b else 4294967296 + unat a - unat b)"
  by (auto simp: unat_sub word_le_nat_alt unat_sub_if_size word_size not_le)

lemma unat_minus_one32 [simp]: "unat (- 1 :: u32) = 4294967295"
  using unat_diff_case [of 0 1] by simp

lemma uint_ucast8 [simp]: "uint (ucast (x :: u8) :: u32) = uint x"
  by transfer (simp add: take_bit_eq_mod)

lemma unat_ucast8 [simp]: "unat (ucast (x :: u8) :: u32) = unat x"
  by transfer (simp add: take_bit_eq_mod)

lemma ucast_back8 [simp]: "ucast (ucast (x :: u8) :: u32) = x"
  by transfer (simp add: take_bit_eq_mod)

lemma unat_lt_256 [simp]: "unat (x :: u8) < 256"
  using unsigned_less [of x] by simp

lemma sint32: "sint (x :: u32) = (if unat x < 2147483648 then int (unat x) else int (unat x) - 4294967296)"
proof -
  define n where "n = int (unat x)"
  have u: "uint x = n" by (simp add: n_def)
  have b: "0 \<le> n" "n < 4294967296"
    using unsigned_less [of x, where 'a = int] by (simp_all add: n_def)
  have eq: "sint x = (n + 2147483648) mod 4294967296 - 2147483648"
    by (simp add: sint_uint signed_take_bit_eq_take_bit_shift take_bit_eq_mod u)
  have "sint x = (if n < 2147483648 then n else n - 4294967296)"
  proof (cases "n < 2147483648")
    case True
    then show ?thesis using b eq by (simp add: mod_pos_pos_trivial)
  next
    case False
    have "(n + 2147483648) mod 4294967296 = (n - 2147483648 + 4294967296) mod 4294967296"
      by (rule arg_cong [where f = "\<lambda>z. z mod 4294967296"]) simp
    also have "\<dots> = (n - 2147483648) mod 4294967296" by (simp only: mod_add_self2)
    also have "\<dots> = n - 2147483648" using False b by (intro mod_pos_pos_trivial) simp_all
    finally show ?thesis using False eq by simp
  qed
  then show ?thesis by (simp add: n_def del: of_nat_unat)
qed

lemma unat_uminus32: "x \<noteq> 0 \<Longrightarrow> unat (- x :: u32) = 4294967296 - unat x"
  using unat_diff_case [of 0 x] by (simp add: word_le_nat_alt unat_eq_0)

section \<open>Ring buffers\<close>

text \<open>Offsets less than \<open>n\<close> apart never meet in a ring of \<open>n\<close> entries indexed by a wrapping 32-bit
  counter, if \<open>n\<close> divides \<open>2^32\<close>.\<close>

lemma ring_index:
  assumes "n dvd 4294967296" and "i < n"
  shows "unat (x + of_nat i :: u32) mod n = (unat x + i) mod n"
proof -
  have "unat (x + of_nat i) = (unat x + i) mod 4294967296"
    by (simp add: unat_word_ariths unat_of_nat mod_simps)
  then show ?thesis using assms(1) by (simp add: mod_mod_cancel)
qed

lemma ring_distinct:
  assumes "n dvd 4294967296" and "j < k" and "k < n"
  shows "unat (x + of_nat j :: u32) mod n \<noteq> unat (x + of_nat k) mod n"
proof
  assume "unat (x + of_nat j) mod n = unat (x + of_nat k) mod n"
  with assms have "(unat x + j) mod n = (unat x + k) mod n" by (simp add: ring_index)
  then have "n dvd k - j"
    using assms(2) mod_eq_dvd_iff_nat [of "unat x + j" "unat x + k" n] by simp
  then have "n \<le> k - j" using assms(2) by (intro dvd_imp_le) simp_all
  with assms show False by simp
qed

section \<open>Scanning a table\<close>

text \<open>The kernel's tables are searched by a loop from the first entry: \<open>scan P n i\<close> is the first
  index in \<open>i, ..., i + n - 1\<close> whose entry satisfies \<open>P\<close>.\<close>

fun scan :: "(nat \<Rightarrow> bool) \<Rightarrow> nat \<Rightarrow> nat \<Rightarrow> nat option" where
  "scan P 0 i = None"
| "scan P (Suc n) i = (if P i then Some i else scan P n (Suc i))"

lemma scan_SomeD:
  "scan P n i = Some j \<Longrightarrow> i \<le> j \<and> j < i + n \<and> P j \<and> (\<forall>k. i \<le> k \<longrightarrow> k < j \<longrightarrow> \<not> P k)"
proof (induction n arbitrary: i)
  case (Suc n)
  show ?case
  proof (cases "P i")
    case True
    with Suc.prems show ?thesis by auto
  next
    case False
    with Suc.prems have IH: "Suc i \<le> j \<and> j < Suc i + n \<and> P j \<and> (\<forall>k. Suc i \<le> k \<longrightarrow> k < j \<longrightarrow> \<not> P k)"
      by (intro Suc.IH) simp
    have "\<not> P k" if "i \<le> k" "k < j" for k
      using that IH False by (cases "k = i") auto
    with IH show ?thesis by auto
  qed
qed simp

lemma scan_None_iff: "scan P n i = None \<longleftrightarrow> (\<forall>k\<in>{i..<i + n}. \<not> P k)"
proof (induction n arbitrary: i)
  case (Suc n)
  have "{i..<i + Suc n} = insert i {Suc i..<Suc i + n}" by auto
  with Suc [of "Suc i"] show ?case by simp
qed simp

lemma scan_eqI:
  assumes "i \<le> j" and "j < i + n" and "P j" and "\<And>k. i \<le> k \<Longrightarrow> k < j \<Longrightarrow> \<not> P k"
  shows "scan P n i = Some j"
proof (cases "scan P n i")
  case None
  with assms show ?thesis unfolding scan_None_iff by auto
next
  case (Some j')
  from scan_SomeD [OF this] assms have "\<not> j < j'" "\<not> j' < j" by blast+
  with Some show ?thesis by simp
qed

lemma scan_cong: "(\<And>k. i \<le> k \<Longrightarrow> k < i + n \<Longrightarrow> P k = Q k) \<Longrightarrow> scan P n i = scan Q n i"
  by (induction n arbitrary: i) auto

section \<open>Outcomes of kernel routines\<close>

datatype slock = BufLk nat | InodeLk nat

datatype lock =
    KmemLock | PtableLock | ConsLock | BcacheLock | IdeLock | LogLock | IcacheLock
  | FtableLock | TicksLock | PipeLock u32 | SleepLk slock

datatype chan =
    ChSleeplock slock | ChLog | ChInput | ChTicks | ChPipeRead u32 | ChPipeWrite u32
  | ChProc nat | ChBuf nat

datatype ('s, 'a) kres = Ret 'a 's | Panic string | Sleep chan 's

definition kbind :: "('s, 'a) kres \<Rightarrow> ('a \<Rightarrow> 's \<Rightarrow> ('s, 'b) kres) \<Rightarrow> ('s, 'b) kres" where
  "kbind m f = (case m of Ret a s \<Rightarrow> f a s | Panic e \<Rightarrow> Panic e | Sleep c s \<Rightarrow> Sleep c s)"

lemma kbind_simps [simp]:
  "kbind (Ret a s) f = f a s"
  "kbind (Panic e) f = Panic e"
  "kbind (Sleep c s) f = Sleep c s"
  by (simp_all add: kbind_def)

lemma kbind_cong [fundef_cong]:
  assumes "m = m'" and "\<And>a s. m' = Ret a s \<Longrightarrow> f a s = g a s"
  shows "kbind m f = kbind m' g"
  using assms by (cases m') auto

lemma kbind_Ret_iff:
  "kbind m f = Ret b t \<longleftrightarrow> (\<exists>a s. m = Ret a s \<and> f a s = Ret b t)"
  by (cases m) auto

lemma kbind_Panic_iff:
  "kbind m f = Panic e \<longleftrightarrow> m = Panic e \<or> (\<exists>a s. m = Ret a s \<and> f a s = Panic e)"
  by (cases m) auto

lemma kbind_Ret_unit [simp]: "kbind m (\<lambda>_. Ret ()) = m" "kbind m Ret = m"
  by (cases m; simp)+

lemma kbind_assoc: "kbind (kbind m f) g = kbind m (\<lambda>a s. kbind (f a s) g)"
  by (cases m) auto

text \<open>\<open>returns Q m\<close>: the routine returns, and \<open>Q\<close> holds of its value and state. This is
  total correctness: a panic or a sleep is not a return.\<close>

definition returns :: "('a \<Rightarrow> 's \<Rightarrow> bool) \<Rightarrow> ('s, 'a) kres \<Rightarrow> bool" where
  "returns Q m \<longleftrightarrow> (case m of Ret a s \<Rightarrow> Q a s | _ \<Rightarrow> False)"

lemma returns_simps [simp]:
  "returns Q (Ret a s) \<longleftrightarrow> Q a s"
  "\<not> returns Q (Panic e)"
  "\<not> returns Q (Sleep c s)"
  by (simp_all add: returns_def)

lemma returns_kbind [intro]:
  assumes "returns (\<lambda>a s. returns Q (f a s)) m"
  shows "returns Q (kbind m f)"
  using assms by (cases m) auto

lemma returns_kbindI:
  assumes "returns P m" and "\<And>a s. P a s \<Longrightarrow> returns Q (f a s)"
  shows "returns Q (kbind m f)"
  using assms by (cases m) auto

lemma returns_mono:
  assumes "returns P m" and "\<And>a s. P a s \<Longrightarrow> Q a s"
  shows "returns Q m"
  using assms by (cases m) auto

lemma returns_conj:
  assumes "returns P m" and "returns Q m"
  shows "returns (\<lambda>a s. P a s \<and> Q a s) m"
  using assms by (cases m) auto

lemma returnsE:
  assumes "returns Q m"
  obtains a s where "m = Ret a s" and "Q a s"
  using assms by (cases m) auto

section \<open>Spin locks, as their clients see them\<close>

text \<open>
  \<open>held\<close> is the set of spin locks the running CPU holds. \<open>acquire\<close> of a lock this CPU
  already holds panics, and so does \<open>release\<close> of a lock it does not hold
  (\<open>spinlock.c\<close>). The theory \<open>Spinlock\<close> models the lock itself (interrupt nesting, the
  atomic exchange, several CPUs) and shows that it implements these two operations.
\<close>

record klocks =
  held :: "lock set"

definition lk_acquire :: "lock \<Rightarrow> 'a klocks_scheme \<Rightarrow> ('a klocks_scheme, unit) kres" where
  "lk_acquire l s =
     (if l \<in> held s then Panic ''acquire'' else Ret () (s\<lparr>held := insert l (held s)\<rparr>))"

definition lk_release :: "lock \<Rightarrow> 'a klocks_scheme \<Rightarrow> ('a klocks_scheme, unit) kres" where
  "lk_release l s =
     (if l \<in> held s then Ret () (s\<lparr>held := held s - {l}\<rparr>) else Panic ''release'')"

definition lk_init :: "lock \<Rightarrow> 'a klocks_scheme \<Rightarrow> 'a klocks_scheme" where
  "lk_init l s = s\<lparr>held := held s - {l}\<rparr>"

lemma lk_acquire_free [simp, klock]:
  "l \<notin> held s \<Longrightarrow> lk_acquire l s = Ret () (s\<lparr>held := insert l (held s)\<rparr>)"
  by (simp add: lk_acquire_def)

lemma lk_acquire_held [simp, klock]: "l \<in> held s \<Longrightarrow> lk_acquire l s = Panic ''acquire''"
  by (simp add: lk_acquire_def)

lemma lk_release_held [simp, klock]:
  "l \<in> held s \<Longrightarrow> lk_release l s = Ret () (s\<lparr>held := held s - {l}\<rparr>)"
  by (simp add: lk_release_def)

lemma lk_release_free [simp, klock]: "l \<notin> held s \<Longrightarrow> lk_release l s = Panic ''release''"
  by (simp add: lk_release_def)

section \<open>Little-endian access to byte arrays\<close>

definition ld16 :: "bytes \<Rightarrow> nat \<Rightarrow> u16" where
  "ld16 f a = ucast (f a) OR push_bit 8 (ucast (f (a + 1)))"

definition st16 :: "bytes \<Rightarrow> nat \<Rightarrow> u16 \<Rightarrow> bytes" where
  "st16 f a v = f(a := ucast v, a + 1 := ucast (drop_bit 8 v))"

definition ld32 :: "bytes \<Rightarrow> nat \<Rightarrow> u32" where
  "ld32 f a = ucast (f a) OR push_bit 8 (ucast (f (a + 1)))
     OR push_bit 16 (ucast (f (a + 2))) OR push_bit 24 (ucast (f (a + 3)))"

definition st32 :: "bytes \<Rightarrow> nat \<Rightarrow> u32 \<Rightarrow> bytes" where
  "st32 f a v = f(a := ucast v, a + 1 := ucast (drop_bit 8 v),
     a + 2 := ucast (drop_bit 16 v), a + 3 := ucast (drop_bit 24 v))"

lemma ld16_st16 [simp]: "ld16 (st16 f a v) a = v"
  by (rule bit_word_eqI) (auto simp: ld16_def st16_def bit_simps)

lemma ld32_st32 [simp]: "ld32 (st32 f a v) a = v"
proof (rule bit_word_eqI)
  fix n
  assume "n < LENGTH(32)"
  then show "bit (ld32 (st32 f a v) a) n = bit v n"
    by (cases "n < 16"; cases "n < 24") (auto simp: ld32_def st32_def bit_simps)
qed

lemma st16_other: "b < a \<or> a + 2 \<le> b \<Longrightarrow> st16 f a v b = f b"
  by (auto simp: st16_def)

lemma st32_other: "b < a \<or> a + 4 \<le> b \<Longrightarrow> st32 f a v b = f b"
  by (auto simp: st32_def)

lemma ld32_st32_other: "b + 4 \<le> a \<or> a + 4 \<le> b \<Longrightarrow> ld32 (st32 f a v) b = ld32 f b"
  by (auto simp: ld32_def st32_other)

lemma ld32_cong:
  assumes "\<And>i. i < 4 \<Longrightarrow> f (a + i) = g (b + i)"
  shows "ld32 f a = ld32 g b"
  using assms [of 0] assms [of 1] assms [of 2] assms [of 3] by (simp add: ld32_def)

end
