(* ===== verification/Kstring.thy ===== *)
theory Kstring
  imports Prelude
begin

text \<open>
  \<open>string.c\<close>: the kernel's memory and string routines, over a flat byte memory indexed by
  32-bit addresses, so pointer arithmetic wraps as on the machine. \<open>stosb\<close> and \<open>stosl\<close> are
  the string instructions of \<open>x86.h\<close>. Loops that count an unsigned \<open>n\<close> down are recursions
  on a natural number; \<open>strlen\<close>, which stops only at a NUL, is a partial function.
\<close>

type_synonym memory = "u32 \<Rightarrow> u8"

section \<open>Definitions\<close>

fun stosb :: "nat \<Rightarrow> u32 \<Rightarrow> u8 \<Rightarrow> memory \<Rightarrow> memory" where
  "stosb 0 a c m = m"
| "stosb (Suc n) a c m = stosb n (a + 1) c (m(a := c))"

fun stosl :: "nat \<Rightarrow> u32 \<Rightarrow> u32 \<Rightarrow> memory \<Rightarrow> memory" where
  "stosl 0 a w m = m"
| "stosl (Suc n) a w m = stosl n (a + 4) w
     (m(a := ucast w, a + 1 := ucast (drop_bit 8 w), a + 2 := ucast (drop_bit 16 w),
        a + 3 := ucast (drop_bit 24 w)))"

definition memset_word :: "u32 \<Rightarrow> u32" where
  "memset_word c = push_bit 24 c OR push_bit 16 c OR push_bit 8 c OR c"

definition memset :: "u32 \<Rightarrow> u32 \<Rightarrow> u32 \<Rightarrow> memory \<Rightarrow> memory" where
  "memset dst c n m =
     (if dst mod 4 = 0 \<and> n mod 4 = 0
      then stosl (unat (n div 4)) dst (memset_word (c AND 0xFF)) m
      else stosb (unat n) dst (ucast c) m)"

fun memcmp_loop :: "nat \<Rightarrow> u32 \<Rightarrow> u32 \<Rightarrow> memory \<Rightarrow> int" where
  "memcmp_loop 0 s1 s2 m = 0"
| "memcmp_loop (Suc n) s1 s2 m =
     (if m s1 \<noteq> m s2 then uint (m s1) - uint (m s2) else memcmp_loop n (s1 + 1) (s2 + 1) m)"

definition memcmp :: "u32 \<Rightarrow> u32 \<Rightarrow> u32 \<Rightarrow> memory \<Rightarrow> int" where
  "memcmp v1 v2 n m = memcmp_loop (unat n) v1 v2 m"

fun copy_fwd :: "nat \<Rightarrow> u32 \<Rightarrow> u32 \<Rightarrow> memory \<Rightarrow> memory" where
  "copy_fwd 0 d s m = m"
| "copy_fwd (Suc n) d s m = copy_fwd n (d + 1) (s + 1) (m(d := m s))"

fun copy_bwd :: "nat \<Rightarrow> u32 \<Rightarrow> u32 \<Rightarrow> memory \<Rightarrow> memory" where
  "copy_bwd 0 d s m = m"
| "copy_bwd (Suc n) d s m = copy_bwd n (d - 1) (s - 1) (m(d - 1 := m (s - 1)))"

definition memmove :: "u32 \<Rightarrow> u32 \<Rightarrow> u32 \<Rightarrow> memory \<Rightarrow> memory" where
  "memmove dst src n m =
     (if src < dst \<and> src + n > dst then copy_bwd (unat n) (dst + n) (src + n) m
      else copy_fwd (unat n) dst src m)"

definition memcpy :: "u32 \<Rightarrow> u32 \<Rightarrow> u32 \<Rightarrow> memory \<Rightarrow> memory" where
  "memcpy dst src n m = memmove dst src n m"

fun strncmp_loop :: "nat \<Rightarrow> u32 \<Rightarrow> u32 \<Rightarrow> memory \<Rightarrow> int" where
  "strncmp_loop 0 p q m = 0"
| "strncmp_loop (Suc n) p q m =
     (if m p \<noteq> 0 \<and> m p = m q then strncmp_loop n (p + 1) (q + 1) m
      else uint (m p) - uint (m q))"

definition strncmp :: "u32 \<Rightarrow> u32 \<Rightarrow> u32 \<Rightarrow> memory \<Rightarrow> int" where
  "strncmp p q n m = strncmp_loop (unat n) p q m"

text \<open>The two loops of \<open>strncpy\<close>: \<open>n\<close> counts what may still be written; the first stops
  after it has copied a NUL, the second pads.\<close>

fun strncpy_copy :: "nat \<Rightarrow> u32 \<Rightarrow> u32 \<Rightarrow> memory \<Rightarrow> nat \<times> u32 \<times> memory" where
  "strncpy_copy 0 s t m = (0, s, m)"
| "strncpy_copy (Suc n) s t m =
     (let m' = m(s := m t) in
      if m t \<noteq> 0 then strncpy_copy n (s + 1) (t + 1) m' else (n, s + 1, m'))"

definition strncpy :: "u32 \<Rightarrow> u32 \<Rightarrow> int \<Rightarrow> memory \<Rightarrow> memory" where
  "strncpy s t n m = (case strncpy_copy (nat n) s t m of (k, s', m') \<Rightarrow> stosb k s' 0 m')"

text \<open>\<open>safestrcpy\<close>: its loop tests \<open>--n > 0\<close>, so it copies at most \<open>n - 1\<close> bytes; when it
  stops because it copied a NUL, \<open>s\<close> is one past that NUL and gets another.\<close>

fun safestrcpy_loop :: "nat \<Rightarrow> u32 \<Rightarrow> u32 \<Rightarrow> memory \<Rightarrow> u32 \<times> memory" where
  "safestrcpy_loop 0 s t m = (s, m)"
| "safestrcpy_loop (Suc n) s t m =
     (let m' = m(s := m t) in
      if m t \<noteq> 0 then safestrcpy_loop n (s + 1) (t + 1) m' else (s + 1, m'))"

definition safestrcpy :: "u32 \<Rightarrow> u32 \<Rightarrow> int \<Rightarrow> memory \<Rightarrow> memory" where
  "safestrcpy s t n m =
     (if n \<le> 0 then m
      else case safestrcpy_loop (nat n - 1) s t m of (s', m') \<Rightarrow> m'(s' := 0))"

partial_function (option) strlen_from :: "u32 \<Rightarrow> memory \<Rightarrow> nat \<Rightarrow> nat option" where
  "strlen_from s m n = (if m (s + of_nat n) \<noteq> 0 then strlen_from s m (Suc n) else Some n)"

definition strlen :: "u32 \<Rightarrow> memory \<Rightarrow> nat option" where
  "strlen s m = strlen_from s m 0"

section \<open>Word arithmetic on offsets\<close>

text \<open>\<open>a\<close> lies in the \<open>n\<close> bytes from \<open>d\<close> exactly when \<open>unat (a - d) < n\<close>, also where the
  range wraps.\<close>

lemma unat_pred: "(x :: u32) \<noteq> 0 \<Longrightarrow> unat (x - 1) = unat x - 1"
  by (simp add: unat_gt_0 unat_sub word_le_nat_alt Suc_leI)

lemma unat_pred_Suc: "(x :: u32) \<noteq> 0 \<Longrightarrow> unat x = Suc (unat (x - 1))"
  by (simp add: unat_pred unat_gt_0)

lemma offset_step:
  assumes "a \<noteq> (d :: u32)"
  shows "unat (a - d) = Suc (unat (a - (d + 1)))"
  using assms unat_pred_Suc [of "a - d"] by (simp add: algebra_simps)


section \<open>The copy and fill loops\<close>

lemma stosb_at:
  "n \<le> 4294967296 \<Longrightarrow> stosb n d c m a = (if unat (a - d) < n then c else m a)"
proof (induction n arbitrary: d m)
  case 0
  then show ?case by simp
next
  case (Suc n)
  show ?case
  proof (cases "a = d")
    case True
    then have "unat (a - (d + 1)) = 4294967295" by simp
    with Suc True show ?thesis by simp
  next
    case False
    with Suc show ?thesis by (simp add: offset_step)
  qed
qed

lemma copy_fwd_at:
  assumes "n \<le> 4294967296" and "d = s \<or> n \<le> unat (d - s)"
  shows "copy_fwd n d s m a = (if unat (a - d) < n then m (s + (a - d)) else m a)"
  using assms
proof (induction n arbitrary: d s m)
  case 0
  then show ?case by simp
next
  case (Suc n)
  have IH: "copy_fwd n (d + 1) (s + 1) (m(d := m s)) a =
      (if unat (a - (d + 1)) < n then (m(d := m s)) (s + 1 + (a - (d + 1)))
       else (m(d := m s)) a)"
    using Suc.prems by (intro Suc.IH) auto
  show ?case
  proof (cases "a = d")
    case True
    then have "unat (a - (d + 1)) = 4294967295" by simp
    with Suc.prems IH True show ?thesis by simp
  next
    case False
    have src: "s + 1 + (a - (d + 1)) = s + (a - d)" by simp
    have "s + (a - d) \<noteq> d" if "unat (a - d) < Suc n"
    proof
      assume "s + (a - d) = d"
      then have "a - d = d - s" by (metis add_diff_cancel_left')
      with Suc.prems(2) False that show False by (cases "d = s") simp_all
    qed
    with IH False src show ?thesis by (simp add: offset_step)
  qed
qed

lemma copy_bwd_at:
  assumes "n \<le> 4294967296" and "d = s \<or> n \<le> unat (s - d)"
  shows "copy_bwd n (d + of_nat n) (s + of_nat n) m a =
    (if unat (a - d) < n then m (s + (a - d)) else m a)"
  using assms
proof (induction n arbitrary: m)
  case 0
  then show ?case by simp
next
  case (Suc n)
  let ?m = "m(d + of_nat n := m (s + of_nat n))"
  have IH: "copy_bwd n (d + of_nat n) (s + of_nat n) ?m a =
      (if unat (a - d) < n then ?m (s + (a - d)) else ?m a)"
    using Suc.prems by (intro Suc.IH) auto
  have n: "unat (of_nat n :: u32) = n"
    using Suc.prems(1) by (simp add: unat_of_nat32)
  have last: "a = d + of_nat n \<longleftrightarrow> unat (a - d) = n"
    using n by (metis add.commute diff_add_cancel add_diff_cancel_right' word_unat_eq_iff)
  have ne: "s + (a - d) \<noteq> d + of_nat n" if "unat (a - d) < n"
  proof
    assume eq: "s + (a - d) = d + of_nat n"
    then have "s - d = of_nat n - (a - d)" by (simp add: algebra_simps)
    moreover have "a - d \<le> of_nat n"
      using that n by (simp add: word_le_nat_alt)
    ultimately have "unat (s - d) = n - unat (a - d)"
      using n by (simp only: unat_sub)
    with Suc.prems(2) that show False
    proof (cases "d = s")
      case True
      with eq last that show False by simp
    qed auto
  qed
  have split: "unat (a - d) < Suc n \<longleftrightarrow> unat (a - d) < n \<or> unat (a - d) = n" by auto
  have "a - d = of_nat n" if "unat (a - d) = n" using that n word_unat_eq_iff by fastforce
  with IH ne last split show ?case by (auto simp: algebra_simps)
qed

lemma memmove_at:
  assumes "unat src + unat n < 4294967296" and "unat dst + unat n \<le> 4294967296"
  shows "memmove dst src n m a = (if unat (a - dst) < unat n then m (src + (a - dst)) else m a)"
proof (cases "src < dst \<and> src + n > dst")
  case True
  then have "unat n \<le> unat (src - dst)"
    using assms by (auto simp: unat_diff_case word_less_nat_alt word_le_nat_alt)
  then show ?thesis
    using True copy_bwd_at [of "unat n" dst src m a] less_imp_le [OF unat_lt_2p32 [of n]]
    by (simp add: memmove_def)
next
  case False
  have "unat (src + n) = unat src + unat n"
    using assms(1) by (rule unat_add32)
  then have "dst = src \<or> unat n \<le> unat (dst - src)"
    using False assms
    by (auto simp: unat_diff_case word_less_nat_alt word_le_nat_alt word_unat_eq_iff)
  then show ?thesis
    using False copy_fwd_at [of "unat n" dst src m a] less_imp_le [OF unat_lt_2p32 [of n]]
    by (auto simp: memmove_def)
qed

lemma and_low_byte: "(c :: u32) AND 0xFF = take_bit 8 c"
  by (simp add: take_bit_eq_mask mask_numeral)

lemma memset_word_bytes:
  "ucast (memset_word (c AND 0xFF)) = (ucast c :: u8)"
  "ucast (drop_bit 8 (memset_word (c AND 0xFF))) = (ucast c :: u8)"
  "ucast (drop_bit 16 (memset_word (c AND 0xFF))) = (ucast c :: u8)"
  "ucast (drop_bit 24 (memset_word (c AND 0xFF))) = (ucast c :: u8)"
  unfolding and_low_byte memset_word_def by (rule bit_word_eqI, auto simp: bit_simps)+

lemma stosl_eq_stosb:
  assumes "ucast w = b" "ucast (drop_bit 8 w) = b" "ucast (drop_bit 16 w) = b"
    "ucast (drop_bit 24 w) = b"
  shows "stosl n d w m = stosb (4 * n) d b m"
proof (induction n arbitrary: d m)
  case 0
  then show ?case by simp
next
  case (Suc n)
  have four: "4 * Suc n = Suc (Suc (Suc (Suc (4 * n))))" by simp
  show ?case
    by (simp add: Suc four assms add.assoc del: mult_Suc_right fun_upd_apply)
qed

lemma memset_at: "memset dst c n m a = (if unat (a - dst) < unat n then ucast c else m a)"
proof (cases "dst mod 4 = 0 \<and> n mod 4 = 0")
  case True
  then have "4 * unat (n div 4) = unat n"
    by (simp add: unat_div unat_mod word_unat_eq_iff) presburger
  with True show ?thesis
    by (simp add: memset_def stosl_eq_stosb [OF memset_word_bytes] stosb_at less_imp_le)
next
  case False
  then show ?thesis by (auto simp: memset_def stosb_at less_imp_le)
qed

lemma memcmp_loop_0_iff:
  "memcmp_loop n s1 s2 m = 0 \<longleftrightarrow> (\<forall>i<n. m (s1 + of_nat i) = m (s2 + of_nat i))"
proof (induction n arbitrary: s1 s2)
  case 0
  then show ?case by simp
next
  case (Suc n)
  have "(\<forall>i<Suc n. m (s1 + of_nat i) = m (s2 + of_nat i)) \<longleftrightarrow>
      m s1 = m s2 \<and> (\<forall>i<n. m (s1 + 1 + of_nat i) = m (s2 + 1 + of_nat i))"
    by (auto simp: less_Suc_eq_0_disj algebra_simps)
  with Suc show ?case by (auto simp: word_uint_eq_iff)
qed

section \<open>The string loops\<close>

text \<open>How many bytes the copying loops move: up to \<open>n\<close>, and no further than the first NUL
  of the source, which is copied too.\<close>

fun span :: "nat \<Rightarrow> u32 \<Rightarrow> memory \<Rightarrow> nat" where
  "span 0 t m = 0"
| "span (Suc n) t m = (if m t \<noteq> 0 then Suc (span n (t + 1) m) else 1)"

definition apart :: "nat \<Rightarrow> u32 \<Rightarrow> u32 \<Rightarrow> bool" where
  "apart n s t \<longleftrightarrow> n \<le> unat (s - t) \<and> n \<le> unat (t - s)"

lemma apart_mono: "apart n s t \<Longrightarrow> k \<le> n \<Longrightarrow> apart k s t"
  by (auto simp: apart_def)

lemma apart_ne:
  assumes "apart n s t" and "i < n" and "j < n"
  shows "s + of_nat i \<noteq> t + of_nat j"
proof
  assume eq: "s + of_nat i = t + of_nat j"
  have n: "n \<le> 4294967296"
    using assms(1) unfolding apart_def by (meson le_less_trans less_imp_le unat_lt_2p32)
  then have ij: "unat (of_nat i :: u32) = i" "unat (of_nat j :: u32) = j"
    using assms(2,3) by (auto simp: unat_of_nat32)
  show False
  proof (cases "i \<le> j")
    case True
    with eq have "s - t = of_nat (j - i)" by (simp add: algebra_simps of_nat_diff)
    with assms n show False by (auto simp: apart_def unat_of_nat32)
  next
    case False
    with eq have "t - s = of_nat (i - j)" by (simp add: algebra_simps of_nat_diff)
    with assms n show False by (auto simp: apart_def unat_of_nat32)
  qed
qed

lemma span_le: "span n t m \<le> n"
  by (induction n arbitrary: t) auto

lemma span_upd:
  "(\<And>i. i < n \<Longrightarrow> a \<noteq> t + of_nat i) \<Longrightarrow> span n t (m(a := v)) = span n t m"
proof (induction n arbitrary: t)
  case 0
  then show ?case by simp
next
  case (Suc n)
  have "a \<noteq> t" using Suc.prems [of 0] by simp
  moreover have "span n (t + 1) (m(a := v)) = span n (t + 1) m"
    using Suc.prems [of "Suc i" for i] by (intro Suc.IH) (auto simp: algebra_simps)
  ultimately show ?case by (simp add: fun_upd_other del: fun_upd_apply)
qed

lemma span_step:
  assumes "apart (Suc n) s t"
  shows "span n (t + 1) (m(s := m t)) = span n (t + 1) m" and "apart n (s + 1) (t + 1)"
proof -
  show "span n (t + 1) (m(s := m t)) = span n (t + 1) m"
    using apart_ne [OF assms, of 0 "Suc i" for i] by (intro span_upd) (auto simp: algebra_simps)
  show "apart n (s + 1) (t + 1)"
    using assms by (auto simp: apart_def)
qed

lemma safestrcpy_loop_eq:
  "apart n s t \<Longrightarrow>
   safestrcpy_loop n s t m = (s + of_nat (span n t m), copy_fwd (span n t m) s t m)"
  by (induction n arbitrary: s t m) (auto simp: span_step Let_def algebra_simps)

lemma strncpy_copy_eq:
  "apart n s t \<Longrightarrow>
   strncpy_copy n s t m = (n - span n t m, s + of_nat (span n t m), copy_fwd (span n t m) s t m)"
  by (induction n arbitrary: s t m) (auto simp: span_step Let_def algebra_simps)

lemma span_nonzero: "Suc i < span n t m \<Longrightarrow> m (t + of_nat i) \<noteq> 0"
proof (induction n arbitrary: t i)
  case 0
  then show ?case by simp
next
  case (Suc n)
  then show ?case
  proof (cases i)
    case 0
    with Suc.prems show ?thesis by (auto split: if_splits)
  next
    case (Suc j)
    with Suc.prems Suc.IH [of j "t + 1"] show ?thesis
      by (auto simp: algebra_simps split: if_splits)
  qed
qed

lemma span_string:
  obtains k where "k \<le> span n t m" and "\<forall>i<k. m (t + of_nat i) \<noteq> 0"
    and "k < span n t m \<longrightarrow> m (t + of_nat k) = 0"
proof (cases "0 < span n t m \<and> m (t + of_nat (span n t m - 1)) = 0")
  case True
  have "m (t + of_nat i) \<noteq> 0" if "i < span n t m - 1" for i
    using that by (intro span_nonzero [where n = n]) simp
  with True show ?thesis by (intro that [of "span n t m - 1"]) auto
next
  case False
  have "m (t + of_nat i) \<noteq> 0" if "i < span n t m" for i
  proof (cases "Suc i = span n t m")
    case True
    then have "span n t m - 1 = i" by simp
    with False that show ?thesis by auto
  next
    case False
    with that show ?thesis by (intro span_nonzero [where n = n]) simp
  qed
  then show ?thesis by (intro that [of "span n t m"]) auto
qed

lemma strncmp_loop_0_iff:
  "strncmp_loop n p q m = 0 \<longleftrightarrow>
     (\<forall>i<n. (\<forall>j<i. m (p + of_nat j) \<noteq> 0) \<longrightarrow> m (p + of_nat i) = m (q + of_nat i))"
proof (induction n arbitrary: p q)
  case 0
  then show ?case by simp
next
  case (Suc n)
  have "(\<forall>i<Suc n. (\<forall>j<i. m (p + of_nat j) \<noteq> 0) \<longrightarrow> m (p + of_nat i) = m (q + of_nat i)) \<longleftrightarrow>
     m p = m q \<and> (m p \<noteq> 0 \<longrightarrow> (\<forall>i<n. (\<forall>j<i. m (p + 1 + of_nat j) \<noteq> 0) \<longrightarrow>
        m (p + 1 + of_nat i) = m (q + 1 + of_nat i)))"
    by (simp add: All_less_Suc2 algebra_simps) blast
  with Suc show ?case by (auto simp: word_uint_eq_iff)
qed

lemma strlen_from_Some:
  assumes "m (s + of_nat k) = 0" and "\<And>i. i < k \<Longrightarrow> m (s + of_nat i) \<noteq> 0" and "n \<le> k"
  shows "strlen_from s m n = Some k"
  using assms(3)
proof (induction rule: inc_induct)
  case base
  with assms(1) show ?case by (simp add: strlen_from.simps)
next
  case (step n)
  with assms(2) show ?case by (subst strlen_from.simps) simp
qed

section \<open>Properties\<close>

text \<open>C39: \<open>memmove\<close> copies the \<open>n\<close> source bytes as they were before the call, even where
  source and destination overlap, and changes nothing else, as long as neither range runs over
  the end of the address space.\<close>

theorem memmove_copies:
  assumes "unat src + unat n < 4294967296" and "unat dst + unat n \<le> 4294967296"
  shows "(\<forall>i<unat n. memmove dst src n m (dst + of_nat i) = m (src + of_nat i)) \<and>
    (\<forall>a. unat n \<le> unat (a - dst) \<longrightarrow> memmove dst src n m a = m a)"
proof -
  have "unat (of_nat i :: u32) = i" if "i < unat n" for i
    using that unat_lt_2p32 [of n] by (intro unat_of_nat32) linarith
  then show ?thesis by (simp add: memmove_at [OF assms])
qed

theorem memmove_copies_witness:
  "memmove 102 100 4 (\<lambda>a. ucast a) 105 = 103 \<and> memmove 102 100 4 (\<lambda>a. ucast a) 106 = 106"
  using memmove_copies [of 100 4 102 "\<lambda>a. ucast a"]
  by (auto dest!: spec [of _ "3 :: nat"] spec [of _ "106 :: u32"])

text \<open>\<open>memset\<close> sets exactly the \<open>n\<close> bytes from \<open>dst\<close> to the low byte of \<open>c\<close>, whichever of
  its two fill instructions it uses.\<close>

theorem memset_fills: "memset dst c n m a = (if unat (a - dst) < unat n then ucast c else m a)"
  by (rule memset_at)



end
