(* ===== verification/Kalloc.thy ===== *)
theory Kalloc
  imports Kstring
begin

text \<open>
  \<open>kalloc.c\<close>, the physical page allocator, with the address arithmetic of \<open>memlayout.h\<close>
  and \<open>mmu.h\<close>. Physical memory is a map from page addresses (kernel virtual addresses) to
  pages of 1024 words; the free list is threaded through word 0 of the free pages, as
  \<open>struct run\<close> does. \<open>kend\<close> is the linker's symbol \<open>end\<close>.
\<close>

section \<open>Address arithmetic\<close>

abbreviation PGSIZE :: u32 where "PGSIZE \<equiv> 4096"
abbreviation EXTMEM :: u32 where "EXTMEM \<equiv> 0x100000"
abbreviation PHYSTOP :: u32 where "PHYSTOP \<equiv> 0xE000000"
abbreviation DEVSPACE :: u32 where "DEVSPACE \<equiv> 0xFE000000"
abbreviation KERNBASE :: u32 where "KERNBASE \<equiv> 0x80000000"
abbreviation KERNLINK :: u32 where "KERNLINK \<equiv> KERNBASE + EXTMEM"

definition V2P :: "u32 \<Rightarrow> u32" where "V2P a = a - KERNBASE"
definition P2V :: "u32 \<Rightarrow> u32" where "P2V a = a + KERNBASE"

definition PGROUNDUP :: "u32 \<Rightarrow> u32" where
  "PGROUNDUP sz = (sz + PGSIZE - 1) AND NOT (PGSIZE - 1)"

definition PGROUNDDOWN :: "u32 \<Rightarrow> u32" where
  "PGROUNDDOWN a = a AND NOT (PGSIZE - 1)"

lemma and_not_4095: "(x :: u32) AND NOT 4095 = push_bit 12 (drop_bit 12 x)"
proof -
  have mask: "(4095 :: u32) = mask 12" by (simp add: mask_numeral)
  show ?thesis unfolding mask by (rule bit_word_eqI) (auto simp: bit_simps)
qed

lemma PGROUNDDOWN_eq: "PGROUNDDOWN a = push_bit 12 (drop_bit 12 a)"
  using and_not_4095 [of a] by (simp add: PGROUNDDOWN_def)

lemma PGROUNDUP_eq: "PGROUNDUP a = PGROUNDDOWN (a + 4095)"
  by (simp add: PGROUNDUP_def PGROUNDDOWN_def add.commute)

lemma unat_PGROUNDDOWN: "unat (PGROUNDDOWN a) = unat a div 4096 * 4096"
proof -
  have "unat a div 4096 * 4096 < 4294967296" using unat_lt_2p32 [of a] by linarith
  then show ?thesis
    by (simp add: PGROUNDDOWN_eq push_bit_eq_mult drop_bit_eq_div unat_word_ariths)
qed

lemma unat_PGROUNDUP:
  "unat a + 4095 < 4294967296 \<Longrightarrow> unat (PGROUNDUP a) = (unat a + 4095) div 4096 * 4096"
  by (simp add: PGROUNDUP_eq unat_PGROUNDDOWN unat_add32)

section \<open>State and operations\<close>

type_synonym page = "nat \<Rightarrow> u32"

record kmem_state = klocks +
  use_lock :: bool
  freelist :: u32
  pages :: "u32 \<Rightarrow> page"

definition page_memset :: "u32 \<Rightarrow> page" where
  "page_memset c = (\<lambda>_. memset_word (c AND 0xFF))"

definition kfree :: "u32 \<Rightarrow> u32 \<Rightarrow> 'a kmem_state_scheme \<Rightarrow> ('a kmem_state_scheme, unit) kres" where
  "kfree kend v s =
     (if v mod PGSIZE \<noteq> 0 \<or> v < kend \<or> V2P v \<ge> PHYSTOP then Panic ''kfree''
      else
        let s = s\<lparr>pages := (pages s)(v := page_memset 1)\<rparr> in
        kbind (if use_lock s then lk_acquire KmemLock s else Ret () s) (\<lambda>_ s.
        let s = s\<lparr>pages := (pages s)(v := (pages s v)(0 := freelist s))\<rparr>;
            s = s\<lparr>freelist := v\<rparr>
        in if use_lock s then lk_release KmemLock s else Ret () s))"

definition kalloc :: "'a kmem_state_scheme \<Rightarrow> ('a kmem_state_scheme, u32) kres" where
  "kalloc s =
     kbind (if use_lock s then lk_acquire KmemLock s else Ret () s) (\<lambda>_ s.
     let r = freelist s;
         s = (if r \<noteq> 0 then s\<lparr>freelist := pages s r 0\<rparr> else s)
     in kbind (if use_lock s then lk_release KmemLock s else Ret () s) (\<lambda>_ s.
     Ret r s))"

text \<open>\<open>freerange\<close>'s loop. \<open>kfree\<close> panics above \<open>PHYSTOP\<close>, so the loop ends even for a range
  that runs to the top of the address space.\<close>

lemma kfree_in_range:
  "kfree kend v s = Ret u t \<Longrightarrow> V2P v < PHYSTOP \<and> v mod PGSIZE = 0 \<and> kend \<le> v"
  by (auto simp: kfree_def not_le not_less split: if_splits)

lemma V2P_next:
  assumes "V2P p < PHYSTOP"
  shows "unat (V2P (p + PGSIZE)) = unat (V2P p) + 4096"
proof -
  have "V2P (p + PGSIZE) = V2P p + PGSIZE" by (simp add: V2P_def)
  moreover have "unat (V2P p) < 0xE000000" using assms by (simp add: word_less_nat_alt)
  ultimately show ?thesis by (simp add: unat_add32)
qed

function freerange_loop ::
  "u32 \<Rightarrow> u32 \<Rightarrow> u32 \<Rightarrow> 'a kmem_state_scheme \<Rightarrow> ('a kmem_state_scheme, unit) kres" where
  "freerange_loop kend vend p s =
     (if p + PGSIZE \<le> vend
      then kbind (kfree kend p s) (\<lambda>_ s. freerange_loop kend vend (p + PGSIZE) s)
      else Ret () s)"
  by pat_completeness auto

termination
proof (relation "measure (\<lambda>(kend, vend, p, s). 4294967296 - unat (V2P p))")
  fix kend vend p :: u32 and s t :: "'a kmem_state_scheme" and u
  assume "kfree kend p s = Ret u t"
  then have "V2P p < PHYSTOP" by (blast dest: kfree_in_range)
  then show "((kend, vend, p + PGSIZE, t), kend, vend, p, s)
      \<in> measure (\<lambda>(kend, vend, p, s). 4294967296 - unat (V2P p))"
    by (simp add: V2P_next word_less_nat_alt)
qed simp

declare freerange_loop.simps [simp del]

definition freerange ::
  "u32 \<Rightarrow> u32 \<Rightarrow> u32 \<Rightarrow> 'a kmem_state_scheme \<Rightarrow> ('a kmem_state_scheme, unit) kres" where
  "freerange kend vstart vend s = freerange_loop kend vend (PGROUNDUP vstart) s"

definition kinit1 ::
  "u32 \<Rightarrow> u32 \<Rightarrow> u32 \<Rightarrow> 'a kmem_state_scheme \<Rightarrow> ('a kmem_state_scheme, unit) kres" where
  "kinit1 kend vstart vend s =
     (let s = lk_init KmemLock s; s = s\<lparr>use_lock := False\<rparr> in freerange kend vstart vend s)"

definition kinit2 ::
  "u32 \<Rightarrow> u32 \<Rightarrow> u32 \<Rightarrow> 'a kmem_state_scheme \<Rightarrow> ('a kmem_state_scheme, unit) kres" where
  "kinit2 kend vstart vend s =
     kbind (freerange kend vstart vend s) (\<lambda>_ s. Ret () (s\<lparr>use_lock := True\<rparr>))"

lemma kalloc_frame: "kalloc s = Ret k t \<Longrightarrow> t = s\<lparr>held := held t, freelist := freelist t\<rparr>"
  by (auto simp: kalloc_def Let_def lk_acquire_def lk_release_def split: if_splits)

lemma kfree_frame: "kfree kend v s = Ret u t \<Longrightarrow>
    t = s\<lparr>held := held t, freelist := freelist t, pages := pages t\<rparr>"
  by (auto simp: kfree_def Let_def lk_acquire_def lk_release_def split: if_splits)

section \<open>The free list\<close>

primrec flist :: "(u32 \<Rightarrow> page) \<Rightarrow> u32 \<Rightarrow> u32 list \<Rightarrow> bool" where
  "flist pg p [] \<longleftrightarrow> p = 0"
| "flist pg p (x # xs) \<longleftrightarrow> p = x \<and> x \<noteq> 0 \<and> flist pg (pg x 0) xs"

definition valid_page :: "u32 \<Rightarrow> u32 \<Rightarrow> bool" where
  "valid_page kend v \<longleftrightarrow> v mod PGSIZE = 0 \<and> kend \<le> v \<and> V2P v < PHYSTOP"

text \<open>The invariant: the free list is \<open>xs\<close>, all of whose pages are distinct and could be
  passed to \<open>kfree\<close>.\<close>

definition kmem_inv :: "u32 \<Rightarrow> u32 list \<Rightarrow> 'a kmem_state_scheme \<Rightarrow> bool" where
  "kmem_inv kend xs s \<longleftrightarrow> flist (pages s) (freelist s) xs \<and> distinct xs \<and>
     (\<forall>x\<in>set xs. valid_page kend x)"

definition kmem_free :: "'a kmem_state_scheme \<Rightarrow> bool" where
  "kmem_free s \<longleftrightarrow> (use_lock s \<longrightarrow> KmemLock \<notin> held s)"

lemma flist_upd: "v \<notin> set xs \<Longrightarrow> flist (pg(v := w)) p xs = flist pg p xs"
  by (induction xs arbitrary: p) auto

lemma flist_unique: "flist pg p xs \<Longrightarrow> flist pg p ys \<Longrightarrow> xs = ys"
proof (induction xs arbitrary: p ys)
  case Nil
  then show ?case by (cases ys) auto
next
  case (Cons x xs)
  then show ?case by (cases ys) auto
qed

lemma valid_page_nonzero: "valid_page kend v \<Longrightarrow> v \<noteq> 0"
  by (auto simp: valid_page_def V2P_def)

lemma kmem_inv_nonzero: "kmem_inv kend xs s \<Longrightarrow> x \<in> set xs \<Longrightarrow> x \<noteq> 0"
  by (auto simp: kmem_inv_def dest: valid_page_nonzero)

text \<open>The two operations, as equations on a state whose lock is free.\<close>

definition freed :: "u32 \<Rightarrow> 'a kmem_state_scheme \<Rightarrow> 'a kmem_state_scheme" where
  "freed v s = s\<lparr>pages := (pages s)(v := (page_memset 1)(0 := freelist s)), freelist := v\<rparr>"

lemma kfree_eq:
  assumes "kmem_free s" and "valid_page kend v"
  shows "kfree kend v s = Ret () (freed v s)"
  using assms by (auto simp: kfree_def kmem_free_def valid_page_def Let_def freed_def not_le not_less)

lemma kfree_panics: "\<not> valid_page kend v \<Longrightarrow> kfree kend v s = Panic ''kfree''"
  by (auto simp: kfree_def valid_page_def not_le not_less)

lemma kalloc_eq:
  assumes "kmem_free s"
  shows "kalloc s = Ret (freelist s)
    (if freelist s \<noteq> 0 then s\<lparr>freelist := pages s (freelist s) 0\<rparr> else s)"
  using assms by (auto simp: kalloc_def kmem_free_def Let_def)

lemma kmem_free_freed [simp]: "kmem_free (freed v s) = kmem_free s"
  by (simp add: kmem_free_def freed_def)

lemma kmem_inv_freed:
  assumes "kmem_inv kend xs s" and "valid_page kend v" and "v \<notin> set xs"
  shows "kmem_inv kend (v # xs) (freed v s)"
  using assms valid_page_nonzero [OF assms(2)] by (auto simp: kmem_inv_def freed_def flist_upd)

lemma kmem_inv_Cons:
  assumes "kmem_inv kend (x # xs) s" and "kmem_free s"
  shows "kalloc s = Ret x (s\<lparr>freelist := pages s x 0\<rparr>)"
    and "kmem_inv kend xs (s\<lparr>freelist := pages s x 0\<rparr>)"
  using assms by (auto simp: kalloc_eq kmem_inv_def)

lemma kmem_inv_Nil: "kmem_inv kend [] s \<Longrightarrow> kmem_free s \<Longrightarrow> kalloc s = Ret 0 s"
  by (auto simp: kalloc_eq kmem_inv_def)

section \<open>The allocator as an interface\<close>

text \<open>What the clients of \<open>kalloc\<close> and \<open>kfree\<close> rely on: \<open>avail s xs\<close> says that the pages
  \<open>xs\<close> are free in \<open>s\<close>.\<close>

locale page_allocator =
  fixes alloc :: "'s \<Rightarrow> ('s, u32) kres"
    and free :: "u32 \<Rightarrow> 's \<Rightarrow> ('s, unit) kres"
    and avail :: "'s \<Rightarrow> u32 list \<Rightarrow> bool"
    and is_page :: "u32 \<Rightarrow> bool"
  assumes alloc_empty: "avail s [] \<Longrightarrow> alloc s = Ret 0 s"
    and alloc_first: "avail s (x # xs) \<Longrightarrow> returns (\<lambda>p t. p = x \<and> avail t xs) (alloc s)"
    and free_page: "avail s xs \<Longrightarrow> is_page v \<Longrightarrow> v \<notin> set xs \<Longrightarrow>
      returns (\<lambda>_ t. avail t (v # xs)) (free v s)"
    and avail_pages: "avail s xs \<Longrightarrow> distinct xs \<and> (\<forall>x\<in>set xs. is_page x \<and> x \<noteq> 0)"

begin

lemma alloc_returns:
  assumes "avail s xs"
  shows "returns (\<lambda>p t. if p = 0 then xs = [] \<and> avail t xs
    else xs \<noteq> [] \<and> p = hd xs \<and> avail t (tl xs)) (alloc s)"
proof (cases xs)
  case Nil
  with assms alloc_empty show ?thesis by simp
next
  case (Cons x ys)
  with assms avail_pages have "x \<noteq> 0" by fastforce
  with Cons assms alloc_first show ?thesis by (auto intro: returns_mono)
qed

text \<open>A step of a client: it allocates a page, or frees one it holds. The pages it holds and
  the free pages never overlap, and together stay the same.\<close>

lemma alloc_step:
  assumes "avail s xs" and "distinct (used @ xs)" and "alloc s = Ret p t"
  shows "\<exists>ys. avail t ys \<and> distinct ((if p = 0 then used else p # used) @ ys) \<and>
    set ((if p = 0 then used else p # used) @ ys) = set (used @ xs)"
proof (cases "p = 0")
  case True
  with alloc_returns [OF assms(1)] assms show ?thesis by auto
next
  case False
  with alloc_returns [OF assms(1)] assms(3) obtain ys where "xs = p # ys" "avail t ys"
    by (cases xs) auto
  with False assms(2) show ?thesis by auto
qed

lemma free_step:
  assumes "avail s xs" and "distinct (used @ xs)" and "\<forall>x\<in>set used. is_page x"
    and "v \<in> set used"
  shows "returns (\<lambda>_ t. \<exists>ys. avail t ys \<and> distinct (remove1 v used @ ys) \<and>
    set (remove1 v used @ ys) = set (used @ xs)) (free v s)"
proof -
  from assms have "returns (\<lambda>_ t. avail t (v # xs)) (free v s)"
    by (intro free_page) auto
  then show ?thesis
    using assms by (elim returns_mono) (auto simp: set_remove1_eq intro!: exI [of _ "v # xs"])
qed

end

definition kmem_avail :: "u32 \<Rightarrow> 'a kmem_state_scheme \<Rightarrow> u32 list \<Rightarrow> bool" where
  "kmem_avail kend s xs \<longleftrightarrow> kmem_inv kend xs s \<and> kmem_free s"

interpretation kpages: page_allocator kalloc "kfree kend" "kmem_avail kend" "valid_page kend"
  for kend
proof unfold_locales
  fix s :: "'a kmem_state_scheme" and xs x v
  show "kalloc s = Ret 0 s" if "kmem_avail kend s []"
    using that kmem_inv_Nil by (auto simp: kmem_avail_def)
  show "returns (\<lambda>p t. p = x \<and> kmem_avail kend t xs) (kalloc s)" if "kmem_avail kend s (x # xs)"
    using that kmem_inv_Cons [of kend x xs s]
    by (auto simp: kmem_avail_def kmem_free_def)
  show "returns (\<lambda>_ t. kmem_avail kend t (v # xs)) (kfree kend v s)"
    if "kmem_avail kend s xs" "valid_page kend v" "v \<notin> set xs"
    using that by (simp add: kmem_avail_def kfree_eq kmem_inv_freed)
  show "distinct xs \<and> (\<forall>x\<in>set xs. valid_page kend x \<and> x \<noteq> 0)" if "kmem_avail kend s xs"
    using that by (auto simp: kmem_avail_def kmem_inv_def dest: valid_page_nonzero)
qed

text \<open>Everything the clients of the allocator can do to it: the state and the pages handed
  out and not yet freed.\<close>

inductive kmem_reach :: "u32 \<Rightarrow> 'a kmem_state_scheme \<Rightarrow> 'a kmem_state_scheme \<Rightarrow> u32 list \<Rightarrow> bool"
  for kend s0 where
  start: "kmem_reach kend s0 s0 []"
| alloc: "kmem_reach kend s0 s used \<Longrightarrow> kalloc s = Ret p t \<Longrightarrow>
    kmem_reach kend s0 t (if p = 0 then used else p # used)"
| free: "kmem_reach kend s0 s used \<Longrightarrow> v \<in> set used \<Longrightarrow> kfree kend v s = Ret () t \<Longrightarrow>
    kmem_reach kend s0 t (remove1 v used)"

lemma kmem_reach_inv:
  assumes "kmem_reach kend s0 s used" and "kmem_avail kend s0 xs0"
  shows "\<exists>xs. kmem_avail kend s xs \<and> distinct (used @ xs) \<and> set (used @ xs) = set xs0"
  using assms(1)
proof induction
  case start
  with assms(2) kpages.avail_pages show ?case by fastforce
next
  case (alloc s used p t)
  then show ?case using kpages.alloc_step by metis
next
  case (free s used v t)
  then obtain xs where xs: "kmem_avail kend s xs" "distinct (used @ xs)" "set (used @ xs) = set xs0"
    by blast
  then have "\<forall>x\<in>set used. valid_page kend x"
    using kpages.avail_pages [OF assms(2)] by auto
  from kpages.free_step [OF xs(1,2) this free.hyps(2)] free.hyps(3) xs(3) show ?case by auto
qed

section \<open>Initialisation\<close>

definition range_pages :: "u32 \<Rightarrow> u32 \<Rightarrow> u32 set" where
  "range_pages p vend = {q. q mod PGSIZE = 0 \<and> p \<le> q \<and> unat q + 4096 \<le> unat vend}"

lemma aligned_dvd: "q mod PGSIZE = 0 \<longleftrightarrow> 4096 dvd unat q"
  by (simp add: word_unat_eq_iff unat_mod dvd_eq_mod_eq_0)

lemma dvd_gap: "4096 dvd (a :: nat) \<Longrightarrow> 4096 dvd b \<Longrightarrow> a \<le> b \<Longrightarrow> b = a \<or> a + 4096 \<le> b"
  by (auto elim!: dvdE)

lemma range_pages_step:
  assumes "p mod PGSIZE = 0" and "unat p + 4096 \<le> unat vend"
  shows "range_pages p vend = insert p (range_pages (p + PGSIZE) vend)"
proof -
  have "unat p + 4096 < 4294967296" using assms(2) unat_lt_2p32 [of vend] by linarith
  then have p': "unat (p + PGSIZE) = unat p + 4096" by (simp add: unat_add32)
  have gap: "p \<le> q \<longleftrightarrow> q = p \<or> p + PGSIZE \<le> q" if "q mod PGSIZE = 0" for q
  proof -
    have "4096 dvd unat p" "4096 dvd unat q" using that assms(1) by (simp_all only: aligned_dvd)
    then show ?thesis
      using dvd_gap [of "unat p" "unat q"] p' by (auto simp: word_le_nat_alt word_unat_eq_iff)
  qed
  show ?thesis
    unfolding range_pages_def set_eq_iff mem_Collect_eq insert_iff using assms gap by metis
qed

lemma range_pages_empty: "unat vend < unat p + 4096 \<Longrightarrow> range_pages p vend = {}"
  by (auto simp: range_pages_def word_le_nat_alt)

lemma freerange_loop_frees:
  assumes "kmem_avail kend s xs" and "kend \<le> p" and "KERNBASE \<le> p" and "p mod PGSIZE = 0"
    and "unat vend \<le> 0x8E000000" and "unat p \<le> 0x8E001000" and "\<forall>x\<in>set xs. x < p \<or> vend \<le> x"
  shows "returns (\<lambda>_ t. \<exists>ys. kmem_avail kend t (ys @ xs) \<and> set ys = range_pages p vend)
    (freerange_loop kend vend p s)"
  using assms
proof (induction kend vend p s arbitrary: xs rule: freerange_loop.induct)
  case (1 kend vend p s)
  have p': "unat (p + PGSIZE) = unat p + 4096"
    using "1.prems"(6) by (subst unat_add32) simp_all
  show ?case
  proof (cases "p + PGSIZE \<le> vend")
    case True
    then have vend: "unat p + 4096 \<le> unat vend" using p' by (simp add: word_le_nat_alt)
    have page: "valid_page kend p"
      using "1.prems"(2-5) vend
      by (simp add: valid_page_def V2P_def word_less_nat_alt word_le_nat_alt unat_diff_case)
    have fresh: "p \<notin> set xs"
      using "1.prems"(7) vend by (auto simp: word_le_nat_alt word_less_nat_alt)
    have avail: "kmem_avail kend (freed p s) (p # xs)"
      using "1.prems"(1) page fresh by (simp add: kmem_avail_def kmem_inv_freed)
    have step: "kfree kend p s = Ret () (freed p s)"
      using "1.prems"(1) page by (simp add: kmem_avail_def kfree_eq)
    have "returns (\<lambda>_ t. \<exists>ys. kmem_avail kend t (ys @ p # xs) \<and>
        set ys = range_pages (p + PGSIZE) vend) (freerange_loop kend vend (p + PGSIZE) (freed p s))"
    proof (rule "1.IH" [OF True step avail])
      show "kend \<le> p + PGSIZE" and "KERNBASE \<le> p + PGSIZE"
        using "1.prems"(2,3) p' by (simp_all add: word_le_nat_alt)
      show "(p + PGSIZE) mod PGSIZE = 0"
        using "1.prems"(4) unfolding aligned_dvd p' by simp
      show "unat (p + PGSIZE) \<le> 0x8E001000"
        using vend p' "1.prems"(5) by simp
      show "\<forall>x\<in>set (p # xs). x < p + PGSIZE \<or> vend \<le> x"
        using "1.prems"(7) p' by (auto simp: word_less_nat_alt)
    qed (rule "1.prems"(5))
    then have "returns (\<lambda>_ t. \<exists>ys. kmem_avail kend t (ys @ xs) \<and> set ys = range_pages p vend)
        (freerange_loop kend vend (p + PGSIZE) (freed p s))"
    proof (rule returns_mono, elim exE conjE)
      fix t ys
      assume "kmem_avail kend t (ys @ p # xs)" and "set ys = range_pages (p + PGSIZE) vend"
      with range_pages_step [OF "1.prems"(4) vend]
      show "\<exists>ys. kmem_avail kend t (ys @ xs) \<and> set ys = range_pages p vend"
        by (intro exI [of _ "ys @ [p]"]) auto
    qed
    with True step show ?thesis by (subst freerange_loop.simps) simp
  next
    case False
    then have "unat vend < unat p + 4096" using p' by (simp add: word_le_nat_alt)
    with False "1.prems"(1) show ?thesis
      by (subst freerange_loop.simps) (auto simp: range_pages_empty intro!: exI [of _ "[]"])
  qed
qed

lemma roundup_bounds:
  "n \<le> (n + 4095) div 4096 * 4096" "(n + 4095) div 4096 * 4096 \<le> n + (4095 :: nat)"
  using div_mult_mod_eq [of "n + 4095" 4096] mod_less_divisor [of 4096 "n + 4095"] by linarith+

lemma roundup_le_iff: "(n + 4095) div 4096 * 4096 \<le> 4096 * k \<longleftrightarrow> n \<le> 4096 * (k :: nat)"
proof
  assume "n \<le> 4096 * k"
  then have "n + 4095 < (k + 1) * 4096" by simp
  then have "(n + 4095) div 4096 < k + 1" by (rule less_mult_imp_div_less)
  then show "(n + 4095) div 4096 * 4096 \<le> 4096 * k" by simp
qed (use roundup_bounds(1) [of n] in linarith)

lemma range_pages_roundup:
  assumes "unat v \<le> 0x8E000000"
  shows "range_pages (PGROUNDUP v) vend = range_pages v vend"
proof -
  have "v \<le> q \<longleftrightarrow> PGROUNDUP v \<le> q" if al: "q mod PGSIZE = 0" for q
  proof -
    from al obtain k where "unat q = 4096 * k" unfolding aligned_dvd by (elim dvdE)
    then show ?thesis using assms by (simp only: word_le_nat_alt unat_PGROUNDUP roundup_le_iff)
  qed
  then show ?thesis unfolding range_pages_def by metis
qed

lemma freerange_frees:
  assumes "kmem_avail kend s xs" and "kend \<le> vstart" and "KERNBASE \<le> vstart"
    and "unat vstart \<le> 0x8E000000" and "unat vend \<le> 0x8E000000"
    and "\<forall>x\<in>set xs. x < vstart \<or> vend \<le> x"
  shows "returns (\<lambda>_ t. \<exists>ys. kmem_avail kend t (ys @ xs) \<and> set ys = range_pages vstart vend)
    (freerange kend vstart vend s)"
proof -
  have up: "unat (PGROUNDUP vstart) = (unat vstart + 4095) div 4096 * 4096"
    using assms(4) by (intro unat_PGROUNDUP) simp
  then have le: "vstart \<le> PGROUNDUP vstart" "unat (PGROUNDUP vstart) \<le> 0x8E001000"
    using roundup_bounds [of "unat vstart"] assms(4) by (simp_all add: word_le_nat_alt)
  have "PGROUNDUP vstart mod PGSIZE = 0" unfolding aligned_dvd up by simp
  moreover have "\<forall>x\<in>set xs. x < PGROUNDUP vstart \<or> vend \<le> x"
    using assms(6) le(1) by (meson less_le_trans)
  ultimately show ?thesis
    unfolding freerange_def range_pages_roundup [OF assms(4), symmetric]
    using assms le by (intro freerange_loop_frees) (assumption | meson order_trans)+
qed

section \<open>Properties\<close>

text \<open>C13: The allocator never hands out a page that is in use, and never loses one. Starting from
  any allocator state whose free list is the pages \<open>xs0\<close>, after any sequence of calls of
  \<open>kalloc\<close> and of \<open>kfree\<close> on pages obtained from \<open>kalloc\<close>, a further \<open>kalloc\<close> returns, and
  its result is a page of \<open>xs0\<close> that is not in use, or 0, and 0 only when every page is in use.\<close>

theorem kalloc_never_shares:
  assumes "kmem_avail kend s0 xs0" and "kmem_reach kend s0 s used"
  shows "distinct used \<and> returns (\<lambda>p _. if p = 0 then set used = set xs0
    else p \<in> set xs0 \<and> p \<notin> set used) (kalloc s)"
proof -
  obtain xs where xs: "kmem_avail kend s xs" "distinct (used @ xs)" "set (used @ xs) = set xs0"
    using kmem_reach_inv [OF assms(2,1)] by blast
  have "returns (\<lambda>p _. if p = 0 then set used = set xs0 else p \<in> set xs0 \<and> p \<notin> set used) (kalloc s)"
    using kpages.alloc_returns [OF xs(1)]
  proof (rule returns_mono)
    fix p t
    assume "if p = 0 then xs = [] \<and> kmem_avail kend t xs
      else xs \<noteq> [] \<and> p = hd xs \<and> kmem_avail kend t (tl xs)"
    then show "if p = 0 then set used = set xs0 else p \<in> set xs0 \<and> p \<notin> set used"
      using xs(2,3) by (cases xs) (auto split: if_splits)
  qed
  with xs(2) show ?thesis by simp
qed

definition kmem_start :: kmem_state where
  "kmem_start = \<lparr>held = {}, use_lock = False, freelist = 0, pages = \<lambda>_ _. 0\<rparr>"

lemma kmem_start_avail: "kmem_avail kend kmem_start []"
  by (simp add: kmem_avail_def kmem_inv_def kmem_free_def kmem_start_def)

lemma kmem_start_freed_avail:
  "valid_page kend v \<Longrightarrow> kmem_avail kend (freed v kmem_start) [v]"
  using kmem_start_avail [of kend] by (simp add: kmem_avail_def kmem_inv_freed)

theorem kalloc_never_shares_witness:
  "\<exists>t. kmem_reach 0x80200000 (freed 0x80300000 kmem_start) t [0x80300000] \<and>
    returns (\<lambda>p _. p = 0) (kalloc t)"
proof -
  let ?s = "freed 0x80300000 kmem_start"
  have page: "valid_page 0x80200000 0x80300000"
    by (simp add: valid_page_def V2P_def)
  have "kalloc ?s = Ret 0x80300000 (?s\<lparr>freelist := 0\<rparr>)"
    by (simp add: kalloc_def freed_def kmem_start_def)
  from kmem_reach.alloc [OF kmem_reach.start this]
  have reach: "kmem_reach 0x80200000 ?s (?s\<lparr>freelist := 0\<rparr>) [0x80300000]" by simp
  show ?thesis
    using kalloc_never_shares [OF kmem_start_freed_avail [OF page] reach] reach
    by (intro exI [of _ "?s\<lparr>freelist := 0\<rparr>"] conjI)
      (auto elim!: returns_mono split: if_splits)
qed

lemma kfree_unlocked:
  "kfree kend v s = Ret u t \<Longrightarrow> \<not> use_lock s \<Longrightarrow> held t = held s \<and> \<not> use_lock t"
  by (auto simp: kfree_def Let_def split: if_splits)

lemma freerange_loop_unlocked:
  "freerange_loop kend vend p s = Ret u t \<Longrightarrow> \<not> use_lock s \<Longrightarrow> held t = held s \<and> \<not> use_lock t"
proof (induction kend vend p s rule: freerange_loop.induct)
  case (1 kend vend p s)
  show ?case
  proof (cases "p + PGSIZE \<le> vend")
    case True
    with "1.prems"(1) obtain a s' where s': "kfree kend p s = Ret a s'"
        "freerange_loop kend vend (p + PGSIZE) s' = Ret u t"
      by (subst (asm) freerange_loop.simps) (auto simp: kbind_Ret_iff)
    from kfree_unlocked [OF s'(1) "1.prems"(2)] "1.IH" [OF True s'(1,2)] show ?thesis by simp
  next
    case False
    with "1.prems" show ?thesis by (subst (asm) freerange_loop.simps) simp
  qed
qed

lemma range_pages_split:
  assumes "unat m = 4096 * k" and "unat a \<le> unat m" and "unat m \<le> unat b"
  shows "range_pages a b = range_pages a m \<union> range_pages m b"
proof -
  have "a \<le> q \<and> unat q + 4096 \<le> unat b \<longleftrightarrow>
      a \<le> q \<and> unat q + 4096 \<le> unat m \<or> m \<le> q \<and> unat q + 4096 \<le> unat b"
    if "q mod PGSIZE = 0" for q
  proof -
    from that obtain j where "unat q = 4096 * j" unfolding aligned_dvd by (elim dvdE)
    then show ?thesis using assms by (cases "k \<le> j") (auto simp: word_le_nat_alt)
  qed
  then show ?thesis unfolding range_pages_def set_eq_iff Un_iff mem_Collect_eq by metis
qed

lemma freerange_frees_unlocked:
  assumes "kmem_avail kend s xs" and "kend \<le> vstart" and "KERNBASE \<le> vstart"
    and "unat vstart \<le> 0x8E000000" and "unat vend \<le> 0x8E000000"
    and "\<forall>x\<in>set xs. x < vstart \<or> vend \<le> x" and "\<not> use_lock s"
  shows "returns (\<lambda>_ t. (\<exists>ys. kmem_avail kend t (ys @ xs) \<and> set ys = range_pages vstart vend) \<and>
    held t = held s \<and> \<not> use_lock t) (freerange kend vstart vend s)"
  using freerange_frees [OF assms(1-6)]
proof (rule returnsE)
  fix u t
  assume ret: "freerange kend vstart vend s = Ret u t"
    and "\<exists>ys. kmem_avail kend t (ys @ xs) \<and> set ys = range_pages vstart vend"
  moreover have "held t = held s \<and> \<not> use_lock t"
    using freerange_loop_unlocked ret assms(7) unfolding freerange_def by blast
  ultimately show ?thesis by simp
qed

lemma kinit1_frees:
  assumes "freelist s = 0" and "KERNBASE \<le> kend" and "kend \<le> P2V 0x400000"
  shows "returns (\<lambda>_ t. (\<exists>xs. kmem_avail kend t xs \<and> set xs = range_pages kend (P2V 0x400000)) \<and>
    KmemLock \<notin> held t \<and> \<not> use_lock t) (kinit1 kend kend (P2V 0x400000) s)"
proof -
  let ?s = "(lk_init KmemLock s)\<lparr>use_lock := False\<rparr>"
  have "unat kend \<le> 0x8E000000" using assms(3) by (simp add: word_le_nat_alt P2V_def)
  moreover have "kmem_avail kend ?s []"
    using assms(1) by (simp add: kmem_avail_def kmem_inv_def kmem_free_def lk_init_def)
  ultimately show ?thesis
    using freerange_frees_unlocked [of kend ?s "[]" kend "P2V 0x400000"] assms(2)
    by (auto simp: kinit1_def P2V_def lk_init_def elim!: returns_mono)
qed

lemma kinit2_frees:
  assumes "kmem_avail kend s xs" and "\<forall>x\<in>set xs. x < P2V 0x400000"
    and "KmemLock \<notin> held s" and "\<not> use_lock s" and "kend \<le> P2V 0x400000"
  shows "returns (\<lambda>_ t. use_lock t \<and> (\<exists>ys. kmem_avail kend t (ys @ xs) \<and>
    set ys = range_pages (P2V 0x400000) (P2V PHYSTOP))) (kinit2 kend (P2V 0x400000) (P2V PHYSTOP) s)"
  unfolding kinit2_def
proof (rule returns_kbindI)
  show "returns (\<lambda>_ t. (\<exists>ys. kmem_avail kend t (ys @ xs) \<and>
      set ys = range_pages (P2V 0x400000) (P2V PHYSTOP)) \<and> held t = held s \<and> \<not> use_lock t)
    (freerange kend (P2V 0x400000) (P2V PHYSTOP) s)"
    using assms by (intro freerange_frees_unlocked) (simp_all add: P2V_def)
next
  fix u t
  assume "(\<exists>ys. kmem_avail kend t (ys @ xs) \<and>
    set ys = range_pages (P2V 0x400000) (P2V PHYSTOP)) \<and> held t = held s \<and> \<not> use_lock t"
  then show "returns (\<lambda>_ t. use_lock t \<and> (\<exists>ys. kmem_avail kend t (ys @ xs) \<and>
      set ys = range_pages (P2V 0x400000) (P2V PHYSTOP))) (Ret () (t\<lparr>use_lock := True\<rparr>))"
    using assms(3) by (auto simp: kmem_avail_def kmem_inv_def kmem_free_def)
qed

text \<open>C15: The two calls that \<open>main\<close> makes, \<open>kinit1(end, P2V(4*1024*1024))\<close> and
  \<open>kinit2(P2V(4*1024*1024), P2V(PHYSTOP))\<close>, return, turn locking on, and leave on the free
  list exactly the whole, aligned pages between the end of the kernel and \<open>PHYSTOP\<close>.\<close>

theorem kinit_frees_all_memory:
  assumes "freelist s = 0" and "KERNBASE \<le> kend" and "kend \<le> P2V 0x400000"
  shows "returns (\<lambda>_ t. use_lock t \<and> (\<exists>xs. kmem_avail kend t xs \<and>
      set xs = range_pages kend (P2V PHYSTOP)))
    (kbind (kinit1 kend kend (P2V 0x400000) s) (\<lambda>_. kinit2 kend (P2V 0x400000) (P2V PHYSTOP)))"
proof (rule returns_kbindI [OF kinit1_frees [OF assms]])
  fix u t
  assume "(\<exists>xs. kmem_avail kend t xs \<and> set xs = range_pages kend (P2V 0x400000)) \<and>
    KmemLock \<notin> held t \<and> \<not> use_lock t"
  then obtain xs where xs: "kmem_avail kend t xs" "set xs = range_pages kend (P2V 0x400000)"
      "KmemLock \<notin> held t" "\<not> use_lock t" by blast
  have below: "\<forall>x\<in>set xs. x < P2V 0x400000"
    unfolding xs(2) range_pages_def by (simp add: word_less_nat_alt P2V_def)
  have all: "range_pages kend (P2V PHYSTOP) =
      range_pages kend (P2V 0x400000) \<union> range_pages (P2V 0x400000) (P2V PHYSTOP)"
    using assms(3) by (intro range_pages_split [where k = "0x80400"]) (simp_all add: P2V_def word_le_nat_alt)
  show "returns (\<lambda>_ t. use_lock t \<and> (\<exists>xs. kmem_avail kend t xs \<and>
      set xs = range_pages kend (P2V PHYSTOP))) (kinit2 kend (P2V 0x400000) (P2V PHYSTOP) t)"
    using kinit2_frees [OF xs(1) below xs(3,4) assms(3)]
  proof (rule returns_mono, elim conjE exE)
    fix t' ys
    assume "use_lock t'" and "kmem_avail kend t' (ys @ xs)"
      and "set ys = range_pages (P2V 0x400000) (P2V PHYSTOP)"
    then show "use_lock t' \<and> (\<exists>xs. kmem_avail kend t' xs \<and> set xs = range_pages kend (P2V PHYSTOP))"
      unfolding all by (intro conjI exI [of _ "ys @ xs"]) (simp_all add: xs(2) Un_commute)
  qed
qed

theorem kinit_frees_all_memory_witness:
  "returns (\<lambda>_ t. use_lock t \<and> (\<exists>xs. kmem_avail 0x80115000 t xs \<and>
      set xs = range_pages 0x80115000 0x8E000000))
    (kbind (kinit1 0x80115000 0x80115000 (P2V 0x400000) kmem_start)
      (\<lambda>_. kinit2 0x80115000 (P2V 0x400000) (P2V PHYSTOP)))"
  using kinit_frees_all_memory [of kmem_start "0x80115000"] by (simp add: kmem_start_def P2V_def)

end
