(* ===== verification/Sched.thy ===== *)
theory Sched
  imports Kalloc
begin

text \<open>
  The process table and what blocks and unblocks processes (\<open>proc.c\<close>, \<open>proc.h\<close>):
  \<open>allocproc\<close>, \<open>sched\<close>, \<open>yield\<close>, \<open>sleep\<close>, \<open>wakeup\<close>, \<open>kill\<close>, the choice the scheduler makes, and
  sleep locks (\<open>sleeplock.c\<close>). The state is that of one CPU; \<open>curproc\<close> is its \<open>proc\<close> field. A
  process is its index in \<open>ptable.proc\<close>. \<open>fork\<close>, \<open>exit\<close> and \<open>wait\<close> also need memory and files
  and are in later theories.

  A pid is an unbounded \<open>int\<close>: \<open>nextpid\<close> would need \<open>2^31\<close> forks to overflow.
\<close>

section \<open>State\<close>

abbreviation NPROC :: nat where "NPROC \<equiv> 64"
abbreviation NOFILE :: nat where "NOFILE \<equiv> 16"
abbreviation KSTACKSIZE :: u32 where "KSTACKSIZE \<equiv> 4096"

datatype procstate = UNUSED | EMBRYO | SLEEPING | RUNNABLE | RUNNING | ZOMBIE

record trapframe =
  tf_edi :: u32  tf_esi :: u32  tf_ebp :: u32  tf_oesp :: u32
  tf_ebx :: u32  tf_edx :: u32  tf_ecx :: u32  tf_eax :: u32
  tf_gs :: u16  tf_fs :: u16  tf_es :: u16  tf_ds :: u16
  tf_trapno :: u32  tf_err :: u32  tf_eip :: u32  tf_cs :: u16
  tf_eflags :: u32  tf_esp :: u32  tf_ss :: u16

record kcontext =
  ctx_edi :: u32  ctx_esi :: u32  ctx_ebx :: u32  ctx_ebp :: u32  ctx_eip :: u32

text \<open>\<open>p_ofile\<close> maps a descriptor to an index of \<open>ftable\<close>, \<open>p_cwd\<close> is an index of the inode
  cache and \<open>p_parent\<close> one of the process table; \<open>None\<close> is the null pointer.\<close>

record proc =
  p_sz :: u32
  p_pgdir :: u32
  p_kstack :: u32
  p_state :: procstate
  p_pid :: int
  p_parent :: "nat option"
  p_tf :: trapframe
  p_context :: kcontext
  p_chan :: "chan option"
  p_killed :: bool
  p_ofile :: "nat \<Rightarrow> nat option"
  p_cwd :: "nat option"
  p_name :: string

record sleeplock =
  sl_locked :: bool
  sl_pid :: int

record sched_state = kmem_state +
  procs :: "nat \<Rightarrow> proc"
  initproc :: "nat option"
  nextpid :: int
  curproc :: "nat option"
  ticks :: u32
  slk :: "slock \<Rightarrow> sleeplock"

definition upd_proc :: "nat \<Rightarrow> (proc \<Rightarrow> proc) \<Rightarrow> 'a sched_state_scheme \<Rightarrow> 'a sched_state_scheme" where
  "upd_proc i f s = s\<lparr>procs := (procs s)(i := f (procs s i))\<rparr>"

text \<open>A null pointer dereference in the kernel traps, and \<open>trap\<close> panics.\<close>

abbreviation null_deref :: "('s, 'b) kres" where "null_deref \<equiv> Panic ''trap''"

definition with_proc :: "'a sched_state_scheme \<Rightarrow> (nat \<Rightarrow> ('a sched_state_scheme, 'b) kres) \<Rightarrow>
    ('a sched_state_scheme, 'b) kres" where
  "with_proc s k = (case curproc s of None \<Rightarrow> null_deref | Some i \<Rightarrow> k i)"

section \<open>Allocation of a process\<close>

definition pinit :: "'a sched_state_scheme \<Rightarrow> 'a sched_state_scheme" where
  "pinit s = lk_init PtableLock s"

definition ctx_zero :: kcontext where
  "ctx_zero = \<lparr>ctx_edi = 0, ctx_esi = 0, ctx_ebx = 0, ctx_ebp = 0, ctx_eip = 0\<rparr>"

text \<open>The trap frame (76 bytes) is at the top of the kernel stack, below it the return address
  \<open>trapret\<close> (word 1004 of the page) and the context (words 999 to 1003). \<open>forkret\<close> and
  \<open>trapret\<close> are the addresses of those two routines. The trap frame and the context are kept in
  the process itself.\<close>

definition allocproc ::
  "u32 \<Rightarrow> u32 \<Rightarrow> 'a sched_state_scheme \<Rightarrow> ('a sched_state_scheme, nat option) kres" where
  "allocproc forkret trapret s =
     kbind (lk_acquire PtableLock s) (\<lambda>_ s.
     case scan (\<lambda>i. p_state (procs s i) = UNUSED) NPROC 0 of
       None \<Rightarrow> kbind (lk_release PtableLock s) (\<lambda>_ s. Ret None s)
     | Some i \<Rightarrow>
         let s = upd_proc i (\<lambda>p. p\<lparr>p_state := EMBRYO, p_pid := nextpid s\<rparr>) s;
             s = s\<lparr>nextpid := nextpid s + 1\<rparr>
         in kbind (lk_release PtableLock s) (\<lambda>_ s.
            kbind (kalloc s) (\<lambda>k s.
            let s = upd_proc i (\<lambda>p. p\<lparr>p_kstack := k\<rparr>) s
            in if k = 0 then Ret None (upd_proc i (\<lambda>p. p\<lparr>p_state := UNUSED\<rparr>) s)
               else
                 let s = s\<lparr>pages := (pages s)(k := (pages s k)(1004 := trapret))\<rparr>;
                     s = upd_proc i (\<lambda>p. p\<lparr>p_context := ctx_zero\<lparr>ctx_eip := forkret\<rparr>\<rparr>) s
                 in Ret (Some i) s)))"

section \<open>Entering and leaving the scheduler\<close>

text \<open>\<open>sched\<close> up to its \<open>swtch\<close>. The number of \<open>pushcli\<close> levels is the number of locks held
  (theory \<open>Spinlock\<close>), so \<open>ncli != 1\<close> with \<open>ptable.lock\<close> held means that another lock is held;
  interrupts are off while a lock is held. After the \<open>swtch\<close> the CPU is back in \<open>scheduler\<close>,
  which clears \<open>proc\<close> and, when it has no process to run, releases \<open>ptable.lock\<close>.\<close>

definition sched :: "'a sched_state_scheme \<Rightarrow> ('a sched_state_scheme, unit) kres" where
  "sched s =
     with_proc s (\<lambda>p.
       if PtableLock \<notin> held s then Panic ''sched ptable.lock''
       else if held s \<noteq> {PtableLock} then Panic ''sched locks''
       else if p_state (procs s p) = RUNNING then Panic ''sched running''
       else Ret () (s\<lparr>curproc := None, held := {}\<rparr>))"

definition yield :: "'a sched_state_scheme \<Rightarrow> ('a sched_state_scheme, unit) kres" where
  "yield s =
     kbind (lk_acquire PtableLock s) (\<lambda>_ s.
     with_proc s (\<lambda>p. sched (upd_proc p (\<lambda>p. p\<lparr>p_state := RUNNABLE\<rparr>) s)))"

text \<open>\<open>sleep\<close> up to its \<open>sched\<close>: the outcome is \<open>Sleep\<close> with the state the other processes
  see.\<close>

definition sleep :: "chan \<Rightarrow> lock \<Rightarrow> 'a sched_state_scheme \<Rightarrow> ('a sched_state_scheme, 'b) kres" where
  "sleep ch lk s =
     (case curproc s of
        None \<Rightarrow> Panic ''sleep''
      | Some p \<Rightarrow>
          kbind (if lk \<noteq> PtableLock
                 then kbind (lk_acquire PtableLock s) (\<lambda>_ s. lk_release lk s)
                 else Ret () s) (\<lambda>_ s.
          let s = upd_proc p (\<lambda>p. p\<lparr>p_chan := Some ch, p_state := SLEEPING\<rparr>) s
          in kbind (sched s) (\<lambda>_ s. Sleep ch s)))"

text \<open>The rest of \<open>sleep\<close>, when the scheduler has switched back to the process.\<close>

definition sleep_return :: "lock \<Rightarrow> 'a sched_state_scheme \<Rightarrow> ('a sched_state_scheme, unit) kres" where
  "sleep_return lk s =
     with_proc s (\<lambda>p.
       let s = upd_proc p (\<lambda>p. p\<lparr>p_chan := None\<rparr>) s
       in if lk \<noteq> PtableLock
          then kbind (lk_release PtableLock s) (\<lambda>_ s. lk_acquire lk s)
          else Ret () s)"

text \<open>The scheduler: with \<open>ptable.lock\<close> held it looks for the next \<open>RUNNABLE\<close> process from slot
  \<open>i\<close> on and switches to it.\<close>

definition scheduler :: "nat \<Rightarrow> 'a sched_state_scheme \<Rightarrow> ('a sched_state_scheme, nat option) kres" where
  "scheduler i s =
     kbind (lk_acquire PtableLock s) (\<lambda>_ s.
     case scan (\<lambda>i. p_state (procs s i) = RUNNABLE) (NPROC - i) i of
       None \<Rightarrow> kbind (lk_release PtableLock s) (\<lambda>_ s. Ret None s)
     | Some p \<Rightarrow>
         let s = s\<lparr>curproc := Some p\<rparr>
         in Ret (Some p) (upd_proc p (\<lambda>p. p\<lparr>p_state := RUNNING\<rparr>) s))"

section \<open>Waking and killing\<close>

definition wake_if :: "chan \<Rightarrow> nat \<Rightarrow> (nat \<Rightarrow> proc) \<Rightarrow> nat \<Rightarrow> proc" where
  "wake_if ch i ps =
     (if p_state (ps i) = SLEEPING \<and> p_chan (ps i) = Some ch
      then ps(i := (ps i)\<lparr>p_state := RUNNABLE\<rparr>) else ps)"

definition wake_all :: "chan \<Rightarrow> nat \<Rightarrow> (nat \<Rightarrow> proc) \<Rightarrow> nat \<Rightarrow> proc" where
  "wake_all ch n ps = fold (wake_if ch) [0..<n] ps"

definition wakeup1 :: "chan \<Rightarrow> 'a sched_state_scheme \<Rightarrow> 'a sched_state_scheme" where
  "wakeup1 ch s = s\<lparr>procs := wake_all ch NPROC (procs s)\<rparr>"

definition wakeup :: "chan \<Rightarrow> 'a sched_state_scheme \<Rightarrow> ('a sched_state_scheme, unit) kres" where
  "wakeup ch s =
     kbind (lk_acquire PtableLock s) (\<lambda>_ s. lk_release PtableLock (wakeup1 ch s))"

definition kill :: "int \<Rightarrow> 'a sched_state_scheme \<Rightarrow> ('a sched_state_scheme, int) kres" where
  "kill pid s =
     kbind (lk_acquire PtableLock s) (\<lambda>_ s.
     case scan (\<lambda>i. p_pid (procs s i) = pid) NPROC 0 of
       None \<Rightarrow> kbind (lk_release PtableLock s) (\<lambda>_ s. Ret (- 1) s)
     | Some i \<Rightarrow>
         let s = upd_proc i (\<lambda>p. p\<lparr>p_killed := True\<rparr>) s;
             s = (if p_state (procs s i) = SLEEPING
                  then upd_proc i (\<lambda>p. p\<lparr>p_state := RUNNABLE\<rparr>) s else s)
         in kbind (lk_release PtableLock s) (\<lambda>_ s. Ret 0 s))"

section \<open>Sleep locks\<close>

definition initsleeplock :: "slock \<Rightarrow> 'a sched_state_scheme \<Rightarrow> 'a sched_state_scheme" where
  "initsleeplock l s =
     (lk_init (SleepLk l) s)\<lparr>slk := (slk s)(l := \<lparr>sl_locked = False, sl_pid = 0\<rparr>)\<rparr>"

text \<open>The loop of \<open>acquiresleep\<close>: while the lock is taken it sleeps; when it wakes it runs
  \<open>sleep_return\<close> and then the loop again.\<close>

definition acquiresleep_loop :: "slock \<Rightarrow> 'a sched_state_scheme \<Rightarrow> ('a sched_state_scheme, unit) kres" where
  "acquiresleep_loop l s =
     (if sl_locked (slk s l) then sleep (ChSleeplock l) (SleepLk l) s
      else with_proc s (\<lambda>p.
        lk_release (SleepLk l)
          (s\<lparr>slk := (slk s)(l := \<lparr>sl_locked = True, sl_pid = p_pid (procs s p)\<rparr>)\<rparr>)))"

definition acquiresleep :: "slock \<Rightarrow> 'a sched_state_scheme \<Rightarrow> ('a sched_state_scheme, unit) kres" where
  "acquiresleep l s = kbind (lk_acquire (SleepLk l) s) (\<lambda>_. acquiresleep_loop l)"

definition acquiresleep_resume :: "slock \<Rightarrow> 'a sched_state_scheme \<Rightarrow> ('a sched_state_scheme, unit) kres" where
  "acquiresleep_resume l s = kbind (sleep_return (SleepLk l) s) (\<lambda>_. acquiresleep_loop l)"

definition releasesleep :: "slock \<Rightarrow> 'a sched_state_scheme \<Rightarrow> ('a sched_state_scheme, unit) kres" where
  "releasesleep l s =
     kbind (lk_acquire (SleepLk l) s) (\<lambda>_ s.
     let s = s\<lparr>slk := (slk s)(l := \<lparr>sl_locked = False, sl_pid = 0\<rparr>)\<rparr>
     in kbind (wakeup (ChSleeplock l) s) (\<lambda>_ s. lk_release (SleepLk l) s))"

definition holdingsleep :: "slock \<Rightarrow> 'a sched_state_scheme \<Rightarrow> ('a sched_state_scheme, bool) kres" where
  "holdingsleep l s =
     kbind (lk_acquire (SleepLk l) s) (\<lambda>_ s.
     kbind (if sl_locked (slk s l)
            then with_proc s (\<lambda>p. Ret (sl_pid (slk s l) = p_pid (procs s p)) s)
            else Ret False s) (\<lambda>r s.
     kbind (lk_release (SleepLk l) s) (\<lambda>_ s. Ret r s)))"

section \<open>What the operations do\<close>

lemma upd_proc_simps [simp]:
  "procs (upd_proc i f s) = (procs s)(i := f (procs s i))"
  "curproc (upd_proc i f s) = curproc s" "nextpid (upd_proc i f s) = nextpid s"
  "initproc (upd_proc i f s) = initproc s" "slk (upd_proc i f s) = slk s"
  "held (upd_proc i f s) = held s" "pages (upd_proc i f s) = pages s"
  "freelist (upd_proc i f s) = freelist s" "use_lock (upd_proc i f s) = use_lock s"
  "ticks (upd_proc i f s) = ticks s"
  by (simp_all add: upd_proc_def)

lemma with_proc_simps [simp]:
  "curproc s = Some p \<Longrightarrow> with_proc s k = k p"
  "curproc s = None \<Longrightarrow> with_proc s k = null_deref"
  by (simp_all add: with_proc_def)

definition woken :: "chan \<Rightarrow> proc \<Rightarrow> proc" where
  "woken ch p = (if p_state p = SLEEPING \<and> p_chan p = Some ch then p\<lparr>p_state := RUNNABLE\<rparr> else p)"

lemma fold_wake_if:
  "distinct is \<Longrightarrow> fold (wake_if ch) is ps i = (if i \<in> set is then woken ch (ps i) else ps i)"
  by (induction "is" arbitrary: ps) (auto simp: wake_if_def woken_def)

lemma wake_all_eq: "wake_all ch n ps i = (if i < n then woken ch (ps i) else ps i)"
  by (simp add: wake_all_def fold_wake_if)

lemma procs_wakeup1 [simp]:
  "procs (wakeup1 ch s) = (\<lambda>i. if i < NPROC then woken ch (procs s i) else procs s i)"
  by (simp add: wakeup1_def wake_all_eq fun_eq_iff)

lemma wakeup1_simps [simp]:
  "curproc (wakeup1 ch s) = curproc s" "nextpid (wakeup1 ch s) = nextpid s"
  "initproc (wakeup1 ch s) = initproc s" "slk (wakeup1 ch s) = slk s"
  "held (wakeup1 ch s) = held s" "pages (wakeup1 ch s) = pages s"
  "freelist (wakeup1 ch s) = freelist s" "use_lock (wakeup1 ch s) = use_lock s"
  "ticks (wakeup1 ch s) = ticks s"
  by (simp_all add: wakeup1_def)

lemma woken_simps [simp]:
  "p_pid (woken ch p) = p_pid p" "p_chan (woken ch p) = p_chan p"
  "p_state (woken ch p) = RUNNING \<longleftrightarrow> p_state p = RUNNING"
  "p_state (woken ch p) = UNUSED \<longleftrightarrow> p_state p = UNUSED"
  "p_killed (woken ch p) = p_killed p" "p_parent (woken ch p) = p_parent p"
  by (simp_all add: woken_def)

lemma held_insert_remove: "l \<notin> held s \<Longrightarrow> s\<lparr>held := insert l (held s) - {l}\<rparr> = s"
  by simp

lemma wakeup_eq: "PtableLock \<notin> held s \<Longrightarrow> wakeup ch s = Ret () (wakeup1 ch s)"
  by (simp add: wakeup_def wakeup1_def)

lemma sleep_eq:
  assumes "curproc s = Some p" and "held s = {lk}"
  shows "sleep ch lk s = Sleep ch
    ((upd_proc p (\<lambda>p. p\<lparr>p_chan := Some ch, p_state := SLEEPING\<rparr>) s)\<lparr>curproc := None, held := {}\<rparr>)"
proof (cases "lk = PtableLock")
  case True
  with assms show ?thesis by (simp add: sleep_def sched_def)
next
  case False
  then have "{PtableLock, lk} - {lk} = {PtableLock}" by blast
  with assms False show ?thesis by (simp add: sleep_def sched_def upd_proc_def)
qed

section \<open>The invariant of the process table\<close>

definition ptable_inv :: "'a sched_state_scheme \<Rightarrow> bool" where
  "ptable_inv s \<longleftrightarrow> 0 < nextpid s \<and>
     (\<forall>i<NPROC. p_state (procs s i) = RUNNING \<longleftrightarrow> curproc s = Some i) \<and>
     (\<forall>i. curproc s = Some i \<longrightarrow> i < NPROC) \<and>
     (\<forall>i<NPROC. p_state (procs s i) \<noteq> UNUSED \<longrightarrow> 0 < p_pid (procs s i) \<and> p_pid (procs s i) < nextpid s) \<and>
     (\<forall>i<NPROC. \<forall>j<NPROC. p_state (procs s i) \<noteq> UNUSED \<longrightarrow> p_state (procs s j) \<noteq> UNUSED \<longrightarrow>
        p_pid (procs s i) = p_pid (procs s j) \<longrightarrow> i = j) \<and>
     (\<forall>i<NPROC. p_state (procs s i) = SLEEPING \<longrightarrow> p_chan (procs s i) \<noteq> None)"

lemma ptable_inv_wakeup1: "ptable_inv s \<Longrightarrow> ptable_inv (wakeup1 ch s)"
  by (auto simp: ptable_inv_def woken_def)

text \<open>A change of one process that keeps its pid and does not make it \<open>RUNNING\<close> or free.\<close>

lemma ptable_inv_upd:
  assumes "ptable_inv s" and "p_pid q = p_pid (procs s i)"
    and "p_state q = RUNNING \<longleftrightarrow> p_state (procs s i) = RUNNING"
    and "p_state q \<noteq> UNUSED \<longrightarrow> p_state (procs s i) \<noteq> UNUSED"
    and "p_state q = SLEEPING \<longrightarrow> p_chan q \<noteq> None"
  shows "ptable_inv (s\<lparr>procs := (procs s)(i := q)\<rparr>)"
  using assms unfolding ptable_inv_def by simp metis

text \<open>The running process leaves the CPU.\<close>

lemma ptable_inv_leave:
  assumes "ptable_inv s" and "curproc s = Some i" and "p_pid q = p_pid (procs s i)"
    and "p_state q \<noteq> RUNNING" and "p_state q = SLEEPING \<longrightarrow> p_chan q \<noteq> None"
  shows "ptable_inv (s\<lparr>procs := (procs s)(i := q), curproc := None, held := {}\<rparr>)"
proof -
  have "p_state (procs s i) = RUNNING" using assms(1,2) unfolding ptable_inv_def by simp
  then show ?thesis using assms unfolding ptable_inv_def by simp (metis option.inject procstate.simps)
qed

lemma ptable_inv_cong:
  "procs s = procs t \<Longrightarrow> nextpid s = nextpid t \<Longrightarrow> curproc s = curproc t \<Longrightarrow> ptable_inv s = ptable_inv t"
  by (simp add: ptable_inv_def)

lemma ptable_inv_held [simp]: "ptable_inv (s\<lparr>held := h\<rparr>) = ptable_inv s"
  by (simp add: ptable_inv_def)

lemma ptable_inv_dispatch:
  assumes "ptable_inv s" and "curproc s = None" and "i < NPROC" and "p_state (procs s i) = RUNNABLE"
  shows "ptable_inv (s\<lparr>procs := (procs s)(i := (procs s i)\<lparr>p_state := RUNNING\<rparr>), curproc := Some i\<rparr>)"
  using assms unfolding ptable_inv_def by auto

lemma ptable_inv_alloc:
  assumes "ptable_inv s" and "p_state (procs s i) = UNUSED"
  shows "ptable_inv (s\<lparr>procs := (procs s)(i := (procs s i)\<lparr>p_state := EMBRYO, p_pid := nextpid s\<rparr>),
    nextpid := nextpid s + 1\<rparr>)"
proof -
  have "p_pid (procs s j) \<noteq> nextpid s" if "j < NPROC" "p_state (procs s j) \<noteq> UNUSED" for j
    using assms(1) that unfolding ptable_inv_def by (metis less_irrefl)
  moreover have "p_pid (procs s j) < nextpid s + 1" if "j < NPROC" "p_state (procs s j) \<noteq> UNUSED" for j
    using assms(1) that unfolding ptable_inv_def by (metis less_irrefl add_strict_increasing2 zless_add1_eq)
  moreover have "curproc s \<noteq> Some i" if "i < NPROC"
    using assms that unfolding ptable_inv_def by (metis procstate.distinct(7))
  ultimately show ?thesis using assms unfolding ptable_inv_def by simp metis
qed

text \<open>Every operation of this theory keeps the invariant.\<close>

lemma allocproc_inv:
  assumes "ptable_inv s" and "allocproc forkret trapret s = Ret r t"
  shows "ptable_inv t \<and> (\<forall>i. r = Some i \<longrightarrow> i < NPROC \<and> p_state (procs s i) = UNUSED \<and>
    p_state (procs t i) = EMBRYO \<and> p_pid (procs t i) = nextpid s)"
proof (cases "scan (\<lambda>i. p_state (procs s i) = UNUSED) NPROC 0")
  case None
  with assms show ?thesis by (auto simp: allocproc_def kbind_Ret_iff lk_acquire_def lk_release_def split: if_splits)
next
  case (Some i)
  let ?s = "s\<lparr>procs := (procs s)(i := (procs s i)\<lparr>p_state := EMBRYO, p_pid := nextpid s\<rparr>),
    nextpid := nextpid s + 1\<rparr>"
  from scan_SomeD [OF Some] have i: "i < NPROC" "p_state (procs s i) = UNUSED" by auto
  have inv: "ptable_inv ?s" using ptable_inv_alloc [OF assms(1) i(2)] .
  from assms(2) Some obtain k u where k: "kalloc ?s = Ret k u"
    and t: "if k = 0 then r = None \<and> t = upd_proc i (\<lambda>p. p\<lparr>p_kstack := k, p_state := UNUSED\<rparr>) u
      else r = Some i \<and> t = upd_proc i (\<lambda>p. p\<lparr>p_kstack := k, p_context := ctx_zero\<lparr>ctx_eip := forkret\<rparr>\<rparr>)
        (u\<lparr>pages := (pages u)(k := (pages u k)(1004 := trapret))\<rparr>)"
    by (cases "PtableLock \<in> held s")
      (auto simp: allocproc_def kbind_Ret_iff Let_def upd_proc_def split: if_splits)
  have u: "procs u = procs ?s" "nextpid u = nextpid ?s" "curproc u = curproc ?s"
    using arg_cong [OF kalloc_frame [OF k], of procs] arg_cong [OF kalloc_frame [OF k], of nextpid]
      arg_cong [OF kalloc_frame [OF k], of curproc] by simp_all
  then have inv_u: "ptable_inv u" using inv ptable_inv_cong [of u ?s] by blast
  show ?thesis
  proof (cases "k = 0")
    case True
    with t have "r = None" "t = u\<lparr>procs := (procs u)(i := (procs u i)\<lparr>p_kstack := k, p_state := UNUSED\<rparr>)\<rparr>"
      by (simp_all add: upd_proc_def)
    with u i ptable_inv_upd [OF inv_u, of "(procs u i)\<lparr>p_kstack := k, p_state := UNUSED\<rparr>" i]
    show ?thesis by simp
  next
    case False
    let ?u = "u\<lparr>pages := (pages u)(k := (pages u k)(1004 := trapret))\<rparr>"
    have "ptable_inv ?u" using inv_u ptable_inv_cong [of ?u u] by simp
    moreover from False t have "r = Some i" "t = ?u\<lparr>procs := (procs ?u)(i := (procs ?u i)\<lparr>p_kstack := k,
        p_context := ctx_zero\<lparr>ctx_eip := forkret\<rparr>\<rparr>)\<rparr>"
      by (simp_all add: upd_proc_def)
    ultimately show ?thesis
      using u i ptable_inv_upd [of ?u "(procs ?u i)\<lparr>p_kstack := k,
        p_context := ctx_zero\<lparr>ctx_eip := forkret\<rparr>\<rparr>" i] by simp
  qed
qed

lemma yield_eq:
  assumes "curproc s = Some p" and "held s = {}"
  shows "yield s = Ret () (s\<lparr>procs := (procs s)(p := (procs s p)\<lparr>p_state := RUNNABLE\<rparr>),
    curproc := None, held := {}\<rparr>)"
  using assms by (simp add: yield_def sched_def upd_proc_def)

lemma yield_Ret:
  assumes "yield s = Ret u t"
  obtains p where "curproc s = Some p" and "held s = {}"
proof -
  from assms obtain p where "curproc s = Some p"
    by (cases "curproc s"; cases "PtableLock \<in> held s") (auto simp: yield_def)
  moreover have "held s = {}"
    using assms calculation by (cases "PtableLock \<in> held s") (auto simp: yield_def sched_def split: if_splits)
  ultimately show thesis by (rule that)
qed

lemma yield_inv:
  assumes inv: "ptable_inv s" and yield: "yield s = Ret u t"
  shows "ptable_inv t \<and> curproc t = None"
proof -
  obtain p where p: "curproc s = Some p" "held s = {}" using yield by (rule yield_Ret)
  from ptable_inv_leave [OF inv p(1), of "(procs s p)\<lparr>p_state := RUNNABLE\<rparr>"] yield_eq [OF p] yield
  show ?thesis by simp
qed

lemma sleep_not_Ret [simp]: "sleep ch lk s \<noteq> Ret a t"
  by (auto simp: sleep_def kbind_Ret_iff Let_def split: option.splits)

lemma only_lock:
  assumes "a \<notin> H" and "l \<in> H" and "insert a H - {l} = {a}"
  shows "H = {l}"
proof -
  have "x = l" if "x \<in> H" for x
  proof (rule ccontr)
    assume "x \<noteq> l"
    with that have "x \<in> insert a H - {l}" by simp
    then have "x = a" unfolding assms(3) by simp
    with that assms(1) show False by simp
  qed
  with assms(2) show ?thesis by blast
qed

lemma sleep_Sleep_iff:
  "sleep ch lk s = Sleep ch' t \<longleftrightarrow> (\<exists>p. curproc s = Some p \<and> held s = {lk} \<and> ch' = ch \<and>
    t = s\<lparr>procs := (procs s)(p := (procs s p)\<lparr>p_chan := Some ch, p_state := SLEEPING\<rparr>),
      curproc := None, held := {}\<rparr>)"
proof (cases "curproc s")
  case None
  then show ?thesis by (simp add: sleep_def)
next
  case (Some p)
  show ?thesis
  proof (cases "held s = {lk}")
    case True
    have "sleep ch lk s = Sleep ch' t \<longleftrightarrow> ch' = ch \<and> t = s\<lparr>procs := (procs s)
        (p := (procs s p)\<lparr>p_chan := Some ch, p_state := SLEEPING\<rparr>), curproc := None, held := {}\<rparr>"
      unfolding sleep_eq [OF Some True] upd_proc_def kres.inject sched_state.simps klocks.simps by blast
    then show ?thesis unfolding Some True by blast
  next
    case False
    then have "PtableLock \<notin> held s \<Longrightarrow> lk \<in> held s \<Longrightarrow>
        insert PtableLock (held s) - {lk} \<noteq> {PtableLock}" using only_lock by metis
    with False Some have "sleep ch lk s \<noteq> Sleep ch' t"
      by (cases "lk = PtableLock"; cases "PtableLock \<in> held s"; cases "lk \<in> held s")
        (simp_all add: sleep_def sched_def Let_def)
    with False show ?thesis by blast
  qed
qed

lemma sleep_inv:
  assumes "ptable_inv s" and "sleep ch lk s = Sleep ch' t"
  shows "ptable_inv t \<and> curproc t = None"
proof -
  from assms(2) obtain p where "curproc s = Some p" "t = s\<lparr>procs := (procs s)(p := (procs s p)
      \<lparr>p_chan := Some ch, p_state := SLEEPING\<rparr>), curproc := None, held := {}\<rparr>"
    unfolding sleep_Sleep_iff by blast
  with ptable_inv_leave [OF assms(1), of p "(procs s p)\<lparr>p_chan := Some ch, p_state := SLEEPING\<rparr>"]
  show ?thesis by simp
qed

lemma scheduler_inv:
  assumes "ptable_inv s" and "curproc s = None" and "scheduler i s = Ret r t"
  shows "ptable_inv t \<and> curproc t = r"
proof (cases "scan (\<lambda>i. p_state (procs s i) = RUNNABLE) (NPROC - i) i")
  case None
  with assms show ?thesis
    by (cases "PtableLock \<in> held s") (auto simp: scheduler_def)
next
  case (Some p)
  from scan_SomeD [OF this] have p: "p < NPROC" "p_state (procs s p) = RUNNABLE" by auto
  have free: "PtableLock \<notin> held s"
    using assms(3) by (auto simp: scheduler_def lk_acquire_def split: if_splits)
  have t: "r = Some p" "t = s\<lparr>held := insert PtableLock (held s), curproc := Some p,
      procs := (procs s)(p := (procs s p)\<lparr>p_state := RUNNING\<rparr>)\<rparr>"
    using assms(3) free Some by (auto simp: scheduler_def upd_proc_def)
  from ptable_inv_dispatch [OF assms(1,2) p] show ?thesis
    by (subst ptable_inv_cong [of t]) (simp_all add: t)
qed

lemma sleep_return_eq:
  assumes "curproc s = Some p" and "held s = {PtableLock}"
  shows "sleep_return lk s =
    Ret () (s\<lparr>procs := (procs s)(p := (procs s p)\<lparr>p_chan := None\<rparr>), held := {lk}\<rparr>)"
  using assms by (cases "lk = PtableLock") (simp_all add: sleep_return_def upd_proc_def)

lemma sleep_return_inv:
  assumes inv: "ptable_inv s" and p: "curproc s = Some p" and "held s = {PtableLock}"
  shows "\<exists>t. sleep_return lk s = Ret () t \<and> ptable_inv t \<and> curproc t = Some p"
proof -
  have "p_state (procs s p) = RUNNING" using inv p unfolding ptable_inv_def by blast
  then show ?thesis
    using ptable_inv_upd [OF inv, of "(procs s p)\<lparr>p_chan := None\<rparr>" p] p
    by (simp add: sleep_return_eq [OF p assms(3)])
qed

lemma kill_eq:
  assumes "PtableLock \<notin> held s"
  shows "kill pid s = (case scan (\<lambda>i. p_pid (procs s i) = pid) NPROC 0 of
      None \<Rightarrow> Ret (- 1) s
    | Some i \<Rightarrow> Ret 0 (s\<lparr>procs := (procs s)(i := (procs s i)\<lparr>p_killed := True,
        p_state := (if p_state (procs s i) = SLEEPING then RUNNABLE else p_state (procs s i))\<rparr>)\<rparr>))"
  using assms by (auto simp: kill_def upd_proc_def Let_def split: option.splits)

lemma kill_inv:
  assumes inv: "ptable_inv s" and kill: "kill pid s = Ret r t"
  shows "ptable_inv t"
proof -
  have free: "PtableLock \<notin> held s" using kill by (auto simp: kill_def lk_acquire_def split: if_splits)
  show ?thesis
  proof (cases "scan (\<lambda>i. p_pid (procs s i) = pid) NPROC 0")
    case None
    with kill_eq [OF free] inv kill show ?thesis by simp
  next
    case (Some i)
    let ?q = "(procs s i)\<lparr>p_killed := True,
      p_state := (if p_state (procs s i) = SLEEPING then RUNNABLE else p_state (procs s i))\<rparr>"
    have "ptable_inv (s\<lparr>procs := (procs s)(i := ?q)\<rparr>)"
      by (rule ptable_inv_upd [OF inv]) (simp_all split: if_splits)
    with kill_eq [OF free] Some kill show ?thesis by simp
  qed
qed

section \<open>Sleep locks\<close>

lemma acquiresleep_free:
  assumes "curproc s = Some p" and "SleepLk l \<notin> held s" and "\<not> sl_locked (slk s l)"
  shows "acquiresleep l s =
    Ret () (s\<lparr>slk := (slk s)(l := \<lparr>sl_locked = True, sl_pid = p_pid (procs s p)\<rparr>)\<rparr>)"
  using assms by (simp add: acquiresleep_def acquiresleep_loop_def)

lemma acquiresleep_taken:
  assumes "curproc s = Some p" and "held s = {}" and "sl_locked (slk s l)"
  shows "acquiresleep l s = Sleep (ChSleeplock l) (s\<lparr>procs := (procs s)(p := (procs s p)
    \<lparr>p_chan := Some (ChSleeplock l), p_state := SLEEPING\<rparr>), curproc := None, held := {}\<rparr>)"
  using assms sleep_eq [of "s\<lparr>held := {SleepLk l}\<rparr>" p "SleepLk l"]
  by (simp add: acquiresleep_def acquiresleep_loop_def upd_proc_def)

lemma releasesleep_eq:
  assumes "SleepLk l \<notin> held s" and "PtableLock \<notin> held s"
  shows "releasesleep l s = Ret () (wakeup1 (ChSleeplock l)
    (s\<lparr>slk := (slk s)(l := \<lparr>sl_locked = False, sl_pid = 0\<rparr>)\<rparr>))"
  using assms by (simp add: releasesleep_def wakeup_eq wakeup1_def)

lemma holdingsleep_eq:
  assumes "curproc s = Some p" and "SleepLk l \<notin> held s"
  shows "holdingsleep l s = Ret (sl_locked (slk s l) \<and> sl_pid (slk s l) = p_pid (procs s p)) s"
  using assms by (simp add: holdingsleep_def)

lemma acquiresleep_loop_Ret:
  assumes "acquiresleep_loop l s = Ret u t"
  shows "\<not> sl_locked (slk s l) \<and> (\<exists>p. curproc s = Some p \<and>
    slk t = (slk s)(l := \<lparr>sl_locked = True, sl_pid = p_pid (procs s p)\<rparr>) \<and> procs t = procs s)"
  using assms by (cases "curproc s") (auto simp: acquiresleep_loop_def lk_release_def split: if_splits)

section \<open>Properties\<close>


text \<open>A small system for the witnesses: process 0 runs, every other slot is free.\<close>

definition tf_zero :: trapframe where
  "tf_zero = \<lparr>tf_edi = 0, tf_esi = 0, tf_ebp = 0, tf_oesp = 0, tf_ebx = 0, tf_edx = 0, tf_ecx = 0, tf_eax = 0,
     tf_gs = 0, tf_fs = 0, tf_es = 0, tf_ds = 0, tf_trapno = 0, tf_err = 0, tf_eip = 0, tf_cs = 0,
     tf_eflags = 0, tf_esp = 0, tf_ss = 0\<rparr>"

definition proc_zero :: proc where
  "proc_zero = \<lparr>p_sz = 0, p_pgdir = 0, p_kstack = 0, p_state = UNUSED, p_pid = 0, p_parent = None,
     p_tf = tf_zero, p_context = ctx_zero, p_chan = None, p_killed = False, p_ofile = \<lambda>_. None,
     p_cwd = None, p_name = []\<rparr>"

definition sched_start :: sched_state where
  "sched_start = \<lparr>held = {}, use_lock = False, freelist = 0, pages = \<lambda>_ _. 0,
     procs = (\<lambda>_. proc_zero)(0 := proc_zero\<lparr>p_state := RUNNING, p_pid := 1\<rparr>), initproc = Some 0,
     nextpid = 2, curproc = Some 0, ticks = 0, slk = \<lambda>_. \<lparr>sl_locked = False, sl_pid = 0\<rparr>\<rparr>"

lemma sched_start_inv: "ptable_inv (sched_start\<lparr>held := h\<rparr>)"
  by (auto simp: ptable_inv_def sched_start_def proc_zero_def)


text \<open>C20: A sleep lock is taken only when it is free. Whether a process calls \<open>acquiresleep\<close> or
  comes back to it after a wake-up, the call returns only if the lock was free at that moment,
  and then the lock records the calling process; no other lock changes.\<close>

theorem sleeplock_exclusion:
  assumes "acquiresleep l s = Ret u t \<or> acquiresleep_resume l s = Ret u t"
  shows "\<not> sl_locked (slk s l) \<and> (\<exists>p. curproc s = Some p \<and>
    slk t = (slk s)(l := \<lparr>sl_locked = True, sl_pid = p_pid (procs s p)\<rparr>))"
proof -
  from assms obtain s' where s': "acquiresleep_loop l s' = Ret u t"
    "slk s' = slk s" "curproc s' = curproc s" "\<And>p. p_pid (procs s' p) = p_pid (procs s p)"
    by (auto simp: acquiresleep_def acquiresleep_resume_def sleep_return_def with_proc_def Let_def
        kbind_Ret_iff lk_acquire_def lk_release_def upd_proc_def split: if_splits option.splits)
  from acquiresleep_loop_Ret [OF this(1)] this(2-) show ?thesis by auto
qed

theorem sleeplock_exclusion_witness:
  "slk (case acquiresleep (BufLk 3) sched_start of Ret u t \<Rightarrow> t) (BufLk 3) =
    \<lparr>sl_locked = True, sl_pid = 1\<rparr>"
proof -
  have ret: "acquiresleep (BufLk 3) sched_start =
      Ret () (sched_start\<lparr>slk := (slk sched_start)(BufLk 3 := \<lparr>sl_locked = True, sl_pid = 1\<rparr>)\<rparr>)"
    using acquiresleep_free [of sched_start 0 "BufLk 3"] by (simp add: sched_start_def)
  then show ?thesis using sleeplock_exclusion [OF disjI1 [OF ret]] by simp
qed

section \<open>A flaw of kill\<close>

lemma allocproc_killed:
  assumes "allocproc forkret trapret s = Ret r t"
  shows "p_killed (procs t j) = p_killed (procs s j)"
proof (cases "scan (\<lambda>i. p_state (procs s i) = UNUSED) NPROC 0")
  case None
  with assms show ?thesis by (auto simp: allocproc_def kbind_Ret_iff lk_acquire_def lk_release_def split: if_splits)
next
  case (Some i)
  let ?s = "s\<lparr>procs := (procs s)(i := (procs s i)\<lparr>p_state := EMBRYO, p_pid := nextpid s\<rparr>),
    nextpid := nextpid s + 1\<rparr>"
  from assms Some obtain k u where k: "kalloc ?s = Ret k u"
    and t: "p_killed (procs t j) = p_killed (procs u j)"
    by (cases "PtableLock \<in> held s")
      (auto simp: allocproc_def kbind_Ret_iff Let_def upd_proc_def split: if_splits)
  have "procs u = procs ?s" using arg_cong [OF kalloc_frame [OF k], of procs] by simp
  with t show ?thesis by simp
qed

text \<open>C32: \<open>kill\<close> compares the pid of every slot, also of free ones, whose pid is 0. So \<open>kill(0)\<close>
  succeeds, and the mark it leaves on a free slot kills the next process allocated there.\<close>

theorem kill_zero_marks_free_slot:
  assumes "PtableLock \<notin> held s" and "scan (\<lambda>i. p_pid (procs s i) = 0) NPROC 0 = Some i"
    and "p_state (procs s i) = UNUSED"
  shows "\<exists>t. kill 0 s = Ret 0 t \<and> p_state (procs t i) = UNUSED \<and>
    (\<forall>u. allocproc forkret trapret t = Ret (Some i) u \<longrightarrow> p_killed (procs u i))"
  using assms by (auto simp: kill_eq allocproc_killed)

theorem kill_zero_marks_free_slot_witness:
  "\<exists>t. kill 0 sched_start = Ret 0 t \<and> p_state (procs t 1) = UNUSED"
proof -
  have "scan (\<lambda>i. p_pid (procs sched_start i) = 0) NPROC 0 = Some 1"
    by (rule scan_eqI) (auto simp: sched_start_def proc_zero_def)
  moreover have "PtableLock \<notin> held sched_start" "p_state (procs sched_start 1) = UNUSED"
    by (simp_all add: sched_start_def proc_zero_def)
  ultimately show ?thesis using kill_zero_marks_free_slot [of sched_start 1] by blast
qed

end
