(* ===== verification/Pipe.thy ===== *)
theory Pipe
  imports Sched
begin

text \<open>
  Pipes (\<open>pipe.c\<close>): a ring buffer of 512 bytes with free-running 32-bit counters, its writer and
  its reader. A pipe is identified by the address of its page. The bytes a caller passes are
  \<open>addr\<close>, and the bytes \<open>piperead\<close> stores are part of its result. \<open>pipealloc\<close> is in the theory
  of the file table.

  Each call runs in sections: from an \<open>acquire\<close> or a wake-up to a return or a \<open>sleep\<close>. The
  properties are about any sequence of sections of any number of readers and writers.
\<close>

section \<open>Model\<close>

abbreviation PIPESIZE :: u32 where "PIPESIZE \<equiv> 512"

record pipe =
  pdata :: "nat \<Rightarrow> u8"
  nread :: u32
  nwrite :: u32
  readopen :: bool
  writeopen :: bool

record pipe_state = sched_state +
  pipes :: "u32 \<Rightarrow> pipe"

definition upd_pipe :: "u32 \<Rightarrow> (pipe \<Rightarrow> pipe) \<Rightarrow> 'a pipe_state_scheme \<Rightarrow> 'a pipe_state_scheme" where
  "upd_pipe p f s = s\<lparr>pipes := (pipes s)(p := f (pipes s p))\<rparr>"

definition pipeclose ::
  "u32 \<Rightarrow> u32 \<Rightarrow> bool \<Rightarrow> 'a pipe_state_scheme \<Rightarrow> ('a pipe_state_scheme, unit) kres" where
  "pipeclose kend p writable s =
     kbind (lk_acquire (PipeLock p) s) (\<lambda>_ s.
     kbind (if writable
            then wakeup (ChPipeRead p) (upd_pipe p (\<lambda>q. q\<lparr>writeopen := False\<rparr>) s)
            else wakeup (ChPipeWrite p) (upd_pipe p (\<lambda>q. q\<lparr>readopen := False\<rparr>) s)) (\<lambda>_ s.
     if \<not> readopen (pipes s p) \<and> \<not> writeopen (pipes s p)
     then kbind (lk_release (PipeLock p) s) (\<lambda>_ s. kfree kend p s)
     else lk_release (PipeLock p) s))"

definition pipe_full :: "pipe \<Rightarrow> bool" where
  "pipe_full q \<longleftrightarrow> nwrite q = nread q + PIPESIZE"

definition pipe_put :: "u8 \<Rightarrow> pipe \<Rightarrow> pipe" where
  "pipe_put b q = q\<lparr>pdata := (pdata q)(unat (nwrite q mod PIPESIZE) := b), nwrite := nwrite q + 1\<rparr>"

text \<open>The loop of \<open>pipewrite\<close> from byte \<open>i\<close> on, with \<open>m = n - i\<close> bytes to go.\<close>

fun pipewrite_loop ::
  "u32 \<Rightarrow> (nat \<Rightarrow> u8) \<Rightarrow> int \<Rightarrow> nat \<Rightarrow> nat \<Rightarrow> 'a pipe_state_scheme \<Rightarrow> ('a pipe_state_scheme, int) kres" where
  "pipewrite_loop p addr n 0 i s =
     kbind (wakeup (ChPipeRead p) s) (\<lambda>_ s.
     kbind (lk_release (PipeLock p) s) (\<lambda>_ s. Ret n s))"
| "pipewrite_loop p addr n (Suc m) i s =
     (if pipe_full (pipes s p)
      then with_proc s (\<lambda>cp.
        if \<not> readopen (pipes s p) \<or> p_killed (procs s cp)
        then kbind (lk_release (PipeLock p) s) (\<lambda>_ s. Ret (- 1) s)
        else kbind (wakeup (ChPipeRead p) s) (\<lambda>_ s. sleep (ChPipeWrite p) (PipeLock p) s))
      else pipewrite_loop p addr n m (Suc i) (upd_pipe p (pipe_put (addr i)) s))"

definition pipewrite ::
  "u32 \<Rightarrow> (nat \<Rightarrow> u8) \<Rightarrow> int \<Rightarrow> 'a pipe_state_scheme \<Rightarrow> ('a pipe_state_scheme, int) kres" where
  "pipewrite p addr n s =
     kbind (lk_acquire (PipeLock p) s) (\<lambda>_. pipewrite_loop p addr n (nat n) 0)"

text \<open>A writer that slept before byte \<open>i\<close> comes back.\<close>

definition pipewrite_resume ::
  "u32 \<Rightarrow> (nat \<Rightarrow> u8) \<Rightarrow> int \<Rightarrow> nat \<Rightarrow> 'a pipe_state_scheme \<Rightarrow> ('a pipe_state_scheme, int) kres" where
  "pipewrite_resume p addr n i s =
     kbind (sleep_return (PipeLock p) s) (\<lambda>_. pipewrite_loop p addr n (nat n - i) i)"

fun piperead_copy :: "nat \<Rightarrow> pipe \<Rightarrow> u8 list \<times> pipe" where
  "piperead_copy 0 q = ([], q)"
| "piperead_copy (Suc m) q =
     (if nread q = nwrite q then ([], q)
      else
        let b = pdata q (unat (nread q mod PIPESIZE));
            (bs, q) = piperead_copy m (q\<lparr>nread := nread q + 1\<rparr>)
        in (b # bs, q))"

definition piperead_loop ::
  "u32 \<Rightarrow> int \<Rightarrow> 'a pipe_state_scheme \<Rightarrow> ('a pipe_state_scheme, int \<times> u8 list) kres" where
  "piperead_loop p n s =
     (if nread (pipes s p) = nwrite (pipes s p) \<and> writeopen (pipes s p)
      then with_proc s (\<lambda>cp.
        if p_killed (procs s cp)
        then kbind (lk_release (PipeLock p) s) (\<lambda>_ s. Ret (- 1, []) s)
        else sleep (ChPipeRead p) (PipeLock p) s)
      else
        let (bs, q) = piperead_copy (nat n) (pipes s p)
        in kbind (wakeup (ChPipeWrite p) (upd_pipe p (\<lambda>_. q) s)) (\<lambda>_ s.
           kbind (lk_release (PipeLock p) s) (\<lambda>_ s. Ret (int (length bs), bs) s)))"

definition piperead ::
  "u32 \<Rightarrow> int \<Rightarrow> 'a pipe_state_scheme \<Rightarrow> ('a pipe_state_scheme, int \<times> u8 list) kres" where
  "piperead p n s = kbind (lk_acquire (PipeLock p) s) (\<lambda>_. piperead_loop p n)"

definition piperead_resume ::
  "u32 \<Rightarrow> int \<Rightarrow> 'a pipe_state_scheme \<Rightarrow> ('a pipe_state_scheme, int \<times> u8 list) kres" where
  "piperead_resume p n s = kbind (sleep_return (PipeLock p) s) (\<lambda>_. piperead_loop p n)"

section \<open>The buffer as a queue\<close>

definition qlen :: "pipe \<Rightarrow> nat" where
  "qlen q = unat (nwrite q - nread q)"

definition queue :: "pipe \<Rightarrow> u8 list" where
  "queue q = map (\<lambda>k. pdata q (unat ((nread q + of_nat k) mod PIPESIZE))) [0..<qlen q]"

definition pipe_ok :: "pipe \<Rightarrow> bool" where
  "pipe_ok q \<longleftrightarrow> qlen q \<le> 512"

lemma length_queue [simp]: "length (queue q) = qlen q"
  by (simp add: queue_def)

lemma pipe_full_iff: "pipe_full q \<longleftrightarrow> qlen q = 512"
proof -
  have "nwrite q = nread q + PIPESIZE \<longleftrightarrow> nwrite q - nread q = PIPESIZE"
    by (auto simp: algebra_simps)
  also have "\<dots> \<longleftrightarrow> qlen q = 512" by (simp add: qlen_def word_unat_eq_iff)
  finally show ?thesis by (simp add: pipe_full_def)
qed

lemma pipe_empty_iff: "nread q = nwrite q \<longleftrightarrow> queue q = []"
  by (auto simp: queue_def qlen_def unat_eq_0)

lemma unat_mod512: "unat (x mod PIPESIZE) = unat x mod 512"
  by (simp add: unat_mod)

lemma queue_put:
  assumes "pipe_ok q" and "\<not> pipe_full q"
  shows "queue (pipe_put b q) = queue q @ [b]" and "pipe_ok (pipe_put b q)"
proof -
  have len: "qlen q < 512" using assms by (simp add: pipe_ok_def pipe_full_iff)
  have "nwrite q + 1 - nread q = (nwrite q - nread q) + 1" by simp
  moreover have "unat ((nwrite q - nread q) + 1) = qlen q + 1"
    using len by (subst unat_add32) (simp_all add: qlen_def)
  ultimately have "unat (nwrite q + 1 - nread q) = Suc (qlen q)" by (simp only: Suc_eq_plus1)
  then have len': "qlen (pipe_put b q) = Suc (qlen q)" by (simp add: qlen_def pipe_put_def)
  then show "pipe_ok (pipe_put b q)" using len by (simp add: pipe_ok_def)
  have nw: "nwrite q = nread q + of_nat (qlen q)" by (simp add: qlen_def)
  have "pdata (pipe_put b q) (unat ((nread q + of_nat k) mod PIPESIZE)) =
      (if k = qlen q then b else pdata q (unat ((nread q + of_nat k) mod PIPESIZE)))" if "k \<le> qlen q" for k
    using ring_distinct [of 512 k "qlen q" "nread q"] that len
    by (auto simp: pipe_put_def unat_mod512 nw [symmetric])
  then show "queue (pipe_put b q) = queue q @ [b]"
    by (simp add: queue_def len') (simp add: pipe_put_def)
qed

lemma queue_get:
  assumes "pipe_ok q" and "nread q \<noteq> nwrite q"
  shows "queue q = pdata q (unat (nread q mod PIPESIZE)) # queue (q\<lparr>nread := nread q + 1\<rparr>)"
    and "pipe_ok (q\<lparr>nread := nread q + 1\<rparr>)"
proof -
  let ?q = "q\<lparr>nread := nread q + 1\<rparr>"
  have "1 \<le> nwrite q - nread q" using assms(2) by (simp add: word_le_nat_alt Suc_le_eq unat_gt_0)
  then have "unat (nwrite q - nread q - 1) = qlen q - 1" "0 < qlen q"
    by (simp_all add: unat_sub qlen_def word_le_nat_alt)
  then have "unat (nwrite q - (nread q + 1)) = qlen q - 1" "0 < qlen q"
    by (simp_all only: diff_diff_eq)
  then have len: "qlen q = Suc (qlen ?q)" by (simp add: qlen_def)
  then show "pipe_ok ?q" using assms(1) by (simp add: pipe_ok_def)
  show "queue q = pdata q (unat (nread q mod PIPESIZE)) # queue ?q"
    unfolding queue_def len by (simp add: upt_conv_Cons map_Suc_upt [symmetric] add.assoc del: upt_Suc)
qed

lemma piperead_copy_queue:
  assumes "pipe_ok q" and "piperead_copy m q = (bs, q')"
  shows "queue q = bs @ queue q' \<and> pipe_ok q' \<and> bs = take m (queue q) \<and>
    readopen q' = readopen q \<and> writeopen q' = writeopen q \<and> nwrite q' = nwrite q"
  using assms
proof (induction m arbitrary: q bs q')
  case (Suc m)
  show ?case
  proof (cases "nread q = nwrite q")
    case True
    with Suc.prems pipe_empty_iff [of q] show ?thesis by simp
  next
    case False
    obtain bs1 q1 where c: "piperead_copy m (q\<lparr>nread := nread q + 1\<rparr>) = (bs1, q1)" by fastforce
    with Suc.prems(2) False have bs1: "piperead_copy m (q\<lparr>nread := nread q + 1\<rparr>) = (bs1, q')"
        "bs = pdata q (unat (nread q mod PIPESIZE)) # bs1" by simp_all
    note get = queue_get [OF Suc.prems(1) False] and IH = Suc.IH [OF queue_get(2) [OF Suc.prems(1) False] bs1(1)]
    have "queue q = bs @ queue q'" "bs = take (Suc m) (queue q)"
      using get(1) IH bs1(2) by (metis append_Cons, metis take_Suc_Cons)
    with IH show ?thesis by simp
  qed
qed simp

lemma upd_pipe_simps [simp]:
  "pipes (upd_pipe p f s) = (pipes s)(p := f (pipes s p))"
  "procs (upd_pipe p f s) = procs s" "curproc (upd_pipe p f s) = curproc s"
  "held (upd_pipe p f s) = held s"
  by (simp_all add: upd_pipe_def)

lemma pipes_wakeup1 [simp]: "pipes (wakeup1 ch s) = pipes s"
  by (simp add: wakeup1_def)

lemma pipes_wakeup: "wakeup ch s = Ret u t \<Longrightarrow> pipes t = pipes s"
  by (auto simp: wakeup_def lk_acquire_def split: if_splits)

section \<open>A section of the writer\<close>

text \<open>The state a routine leaves behind when it returns or sleeps.\<close>

fun leaves :: "('s, 'b) kres \<Rightarrow> 's \<Rightarrow> bool" where
  "leaves (Ret a s) t = (s = t)"
| "leaves (Sleep ch s) t = (s = t)"
| "leaves (Panic e) t = False"

definition sent_bytes :: "(nat \<Rightarrow> u8) \<Rightarrow> nat \<Rightarrow> pipe \<Rightarrow> pipe \<Rightarrow> u8 list" where
  "sent_bytes addr i q q' = map addr [i..<i + unat (nwrite q' - nwrite q)]"

lemma sleep_pipes: "sleep ch lk s = Sleep ch' t \<Longrightarrow> ch' = ch \<and> pipes t = pipes s"
  by (auto simp: sleep_Sleep_iff)

lemma map_upt_Suc: "map f [i..<i + Suc k] = f i # map f [Suc i..<Suc i + k]"
  by (simp add: upt_conv_Cons del: upt_Suc)

definition write_outcome :: "u32 \<Rightarrow> int \<Rightarrow> nat \<Rightarrow> nat \<Rightarrow> ('a pipe_state_scheme, int) kres \<Rightarrow> bool" where
  "write_outcome p n m k r = (case r of
     Ret v t \<Rightarrow> v = n \<and> k = m \<or> v = - 1 \<and> k < m \<and> pipe_full (pipes t p)
   | Sleep ch t \<Rightarrow> ch = ChPipeWrite p \<and> k < m \<and> pipe_full (pipes t p)
   | Panic e \<Rightarrow> True)"

lemma pipewrite_full:
  assumes full: "pipe_full (pipes s p)" and leaves: "leaves (pipewrite_loop p addr n (Suc m) i s) t"
  shows "pipes t = pipes s \<and> write_outcome p n (Suc m) 0 (pipewrite_loop p addr n (Suc m) i s)"
proof (cases "curproc s")
  case None
  with assms show ?thesis by simp
next
  case (Some c)
  show ?thesis
  proof (cases "\<not> readopen (pipes s p) \<or> p_killed (procs s c)")
    case True
    with Some full leaves show ?thesis by (auto simp: lk_release_def write_outcome_def split: if_splits)
  next
    case False
    with Some full have r: "pipewrite_loop p addr n (Suc m) i s =
        kbind (wakeup (ChPipeRead p) s) (\<lambda>_ s. sleep (ChPipeWrite p) (PipeLock p) s)" by simp
    with leaves obtain u where u: "wakeup (ChPipeRead p) s = Ret () u"
      by (cases "wakeup (ChPipeRead p) s") (auto simp: wakeup_def lk_acquire_def split: if_splits)
    then have pu: "pipes u = pipes s" by (rule pipes_wakeup)
    have r': "pipewrite_loop p addr n (Suc m) i s = sleep (ChPipeWrite p) (PipeLock p) u"
      unfolding r u by simp
    from leaves r' obtain ch where ch: "pipewrite_loop p addr n (Suc m) i s = Sleep ch t"
      by (cases "pipewrite_loop p addr n (Suc m) i s") auto
    have "ch = ChPipeWrite p \<and> pipes t = pipes u" using ch unfolding r' by (rule sleep_pipes)
    then show ?thesis using full pu unfolding ch by (simp add: write_outcome_def)
  qed
qed

lemma pipewrite_loop_queue:
  assumes "pipe_ok (pipes s p)" and "leaves (pipewrite_loop p addr n m i s) t"
  shows "\<exists>k\<le>m. queue (pipes t p) = queue (pipes s p) @ map addr [i..<i + k] \<and> pipe_ok (pipes t p) \<and>
    nread (pipes t p) = nread (pipes s p) \<and> nwrite (pipes t p) = nwrite (pipes s p) + of_nat k \<and>
    write_outcome p n m k (pipewrite_loop p addr n m i s)"
  using assms
proof (induction m arbitrary: i s)
  case 0
  let ?r = "pipewrite_loop p addr n 0 i s"
  have "\<exists>u. ?r = Ret n u \<and> pipes u = pipes s"
    using 0(2) pipes_wakeup [of "ChPipeRead p" s]
    by (cases "wakeup (ChPipeRead p) s") (auto simp: lk_release_def wakeup_def lk_acquire_def split: if_splits)
  with 0 show ?case by (auto simp: write_outcome_def)
next
  case (Suc m)
  show ?case
  proof (cases "pipe_full (pipes s p)")
    case False
    let ?s = "upd_pipe p (pipe_put (addr i)) s"
    note put = queue_put [OF Suc.prems(1) False, of "addr i"]
    from Suc.IH [of ?s "Suc i"] put(2) Suc.prems(2) False obtain k where k: "k \<le> m"
      "queue (pipes t p) = queue (pipes ?s p) @ map addr [Suc i..<Suc i + k]" "pipe_ok (pipes t p)"
      "nread (pipes t p) = nread (pipes ?s p)" "nwrite (pipes t p) = nwrite (pipes ?s p) + of_nat k"
      "write_outcome p n m k (pipewrite_loop p addr n m (Suc i) ?s)" by auto
    have "queue (pipes t p) = queue (pipes s p) @ map addr [i..<i + Suc k]"
      unfolding map_upt_Suc using k(2) put(1) by (simp del: upt_Suc)
    moreover have "nread (pipes t p) = nread (pipes s p)" "nwrite (pipes t p) = nwrite (pipes s p) + of_nat (Suc k)"
      using k(4,5) by (simp_all add: pipe_put_def)
    moreover have "write_outcome p n (Suc m) (Suc k) (pipewrite_loop p addr n (Suc m) i s)"
      using k(6) False by (auto simp: write_outcome_def split: kres.splits)
    ultimately show ?thesis using k(1,3) by (intro exI [of _ "Suc k"]) simp
  next
    case True
    from pipewrite_full [OF True Suc.prems(2)] have "pipes t = pipes s"
      "write_outcome p n (Suc m) 0 (pipewrite_loop p addr n (Suc m) i s)" by auto
    with Suc.prems(1) show ?thesis by (intro exI [of _ 0]) simp
  qed
qed

section \<open>A section of the reader\<close>

lemma piperead_loop_queue:
  assumes ok: "pipe_ok (pipes s p)" and ret: "piperead_loop p n s = Ret (r, bs) t"
  shows "queue (pipes s p) = bs @ queue (pipes t p) \<and> pipe_ok (pipes t p)"
proof (cases "nread (pipes s p) = nwrite (pipes s p) \<and> writeopen (pipes s p)")
  case True
  with ret have "bs = [] \<and> pipes t = pipes s"
    by (cases "curproc s") (auto simp: piperead_loop_def lk_release_def split: if_splits)
  with ok show ?thesis by simp
next
  case False
  obtain bs' q where c: "piperead_copy (nat n) (pipes s p) = (bs', q)" by fastforce
  with ret False have "bs' = bs" "pipes t p = q"
    by (auto simp: piperead_loop_def kbind_Ret_iff lk_release_def dest!: pipes_wakeup split: if_splits)
  moreover have "queue (pipes s p) = bs' @ queue q" "pipe_ok q"
    using piperead_copy_queue [OF ok c] by blast+
  ultimately show ?thesis by simp
qed

lemma queue_open [simp]:
  "queue (q\<lparr>writeopen := b\<rparr>) = queue q" "queue (q\<lparr>readopen := b\<rparr>) = queue q"
  "pipe_ok (q\<lparr>writeopen := b\<rparr>) = pipe_ok q" "pipe_ok (q\<lparr>readopen := b\<rparr>) = pipe_ok q"
  by (simp_all add: queue_def pipe_ok_def qlen_def)

lemma pipeclose_queue:
  assumes "pipeclose kend p w s = Ret u t"
  shows "queue (pipes t p) = queue (pipes s p) \<and> pipe_ok (pipes t p) = pipe_ok (pipes s p)"
proof -
  let ?s = "s\<lparr>held := insert (PipeLock p) (held s)\<rparr>"
  have free: "PipeLock p \<notin> held s"
    using assms by (auto simp: pipeclose_def lk_acquire_def split: if_splits)
  define c where "c = (if w then wakeup (ChPipeRead p) (upd_pipe p (\<lambda>q. q\<lparr>writeopen := False\<rparr>) ?s)
    else wakeup (ChPipeWrite p) (upd_pipe p (\<lambda>q. q\<lparr>readopen := False\<rparr>) ?s))"
  from assms free obtain v where v: "c = Ret () v"
    by (cases c) (simp_all add: pipeclose_def c_def)
  with assms free have t: "(if \<not> readopen (pipes v p) \<and> \<not> writeopen (pipes v p)
      then kbind (lk_release (PipeLock p) v) (\<lambda>_ s. kfree kend p s)
      else lk_release (PipeLock p) v) = Ret u t"
    unfolding c_def by (simp add: pipeclose_def)
  have "pipes t = pipes v"
  proof (cases "PipeLock p \<in> held v \<and> \<not> readopen (pipes v p) \<and> \<not> writeopen (pipes v p)")
    case True
    with t have "kfree kend p (v\<lparr>held := held v - {PipeLock p}\<rparr>) = Ret u t" by simp
    from arg_cong [OF kfree_frame [OF this], of pipes] show ?thesis by simp
  next
    case False
    with t show ?thesis by (auto simp: lk_release_def split: if_splits)
  qed
  moreover have "pipes v p = (pipes s p)\<lparr>writeopen := False\<rparr> \<or> pipes v p = (pipes s p)\<lparr>readopen := False\<rparr>"
    using v unfolding c_def by (cases w) (simp_all add: pipes_wakeup)
  ultimately show ?thesis by auto
qed

section \<open>Properties\<close>

text \<open>Everything that happens around the pipe at \<open>p\<close>: sections of readers and writers, closing
  of an end, and steps of the kernel that do not touch this pipe. \<open>W\<close> is what has been written
  to the pipe, \<open>R\<close> what has been read from it.\<close>

inductive pipe_run :: "u32 \<Rightarrow> 'a pipe_state_scheme \<Rightarrow> u8 list \<Rightarrow> u8 list \<Rightarrow> bool" for p where
  start: "nread (pipes s p) = nwrite (pipes s p) \<Longrightarrow> pipe_run p s [] []"
| other: "pipe_run p s W R \<Longrightarrow> pipes t p = pipes s p \<Longrightarrow> pipe_run p t W R"
| close: "pipe_run p s W R \<Longrightarrow> pipeclose kend p w s = Ret () t \<Longrightarrow> pipe_run p t W R"
| wr: "pipe_run p s W R \<Longrightarrow> leaves (pipewrite_loop p addr n (nat n - i) i s) t \<Longrightarrow>
    pipe_run p t (W @ sent_bytes addr i (pipes s p) (pipes t p)) R"
| rd: "pipe_run p s W R \<Longrightarrow> piperead_loop p n s = Ret (r, bs) t \<Longrightarrow> pipe_run p t W (R @ bs)"

text \<open>C9: A pipe is a queue. Whatever sections of readers and writers are interleaved, and also when
  the 32-bit counters wrap around, the bytes read so far followed by the bytes still in the
  buffer are exactly the bytes written, in order, and the buffer never holds more than 512.\<close>

theorem pipe_fifo:
  assumes "pipe_run p s W R"
  shows "W = R @ queue (pipes s p) \<and> length (queue (pipes s p)) \<le> 512"
proof -
  have "W = R @ queue (pipes s p) \<and> pipe_ok (pipes s p)" using assms
  proof induction
    case (start s)
    then show ?case by (simp add: pipe_empty_iff pipe_ok_def flip: length_queue)
  next
    case (close s W R kend w t)
    then show ?case using pipeclose_queue [of kend p w s] by simp
  next
    case (wr s W R addr n i t)
    then obtain k where k: "queue (pipes t p) = queue (pipes s p) @ map addr [i..<i + k]"
        "pipe_ok (pipes t p)" "nwrite (pipes t p) = nwrite (pipes s p) + of_nat k"
      using pipewrite_loop_queue by blast
    have "qlen (pipes t p) = qlen (pipes s p) + k"
      using arg_cong [OF k(1), of length] by simp
    then have "k < 4294967296" using k(2) by (simp add: pipe_ok_def)
    then have "unat (nwrite (pipes t p) - nwrite (pipes s p)) = k" using k(3) by (simp add: unat_of_nat32)
    with k wr.IH show ?case by (simp add: sent_bytes_def)
  next
    case (rd s W R n r bs t)
    then show ?case using piperead_loop_queue by fastforce
  qed simp
  then show ?thesis by (simp add: pipe_ok_def)
qed

definition pipe_start :: pipe_state where
  "pipe_start = sched_state.extend sched_start (pipe_state.fields (\<lambda>_. \<lparr>pdata = \<lambda>_. 0,
     nread = 0xFFFFFFFF, nwrite = 0xFFFFFFFF, readopen = True, writeopen = True\<rparr>))"

lemma pipe_start_simps [simp]:
  "held pipe_start = {}" "curproc pipe_start = Some 0" "p_killed (procs pipe_start 0) = False"
  "pipes pipe_start p = \<lparr>pdata = \<lambda>_. 0, nread = 0xFFFFFFFF, nwrite = 0xFFFFFFFF, readopen = True, writeopen = True\<rparr>"
  by (simp_all add: pipe_start_def sched_start_def sched_state.defs pipe_state.defs proc_zero_def)

theorem pipe_fifo_witness:
  "\<exists>t. leaves (pipewrite_loop 0 (\<lambda>i. of_nat i + 65) 2 2 0 (pipe_start\<lparr>held := {PipeLock 0}\<rparr>)) t \<and>
    queue (pipes t 0) = [65, 66]"
proof -
  let ?s = "pipe_start\<lparr>held := {PipeLock 0}\<rparr>"
  have two: "nat 2 - 0 = Suc (Suc 0)" by simp
  obtain t where t: "leaves (pipewrite_loop 0 (\<lambda>i. of_nat i + 65) 2 (nat 2 - 0) 0 ?s) t"
    and nw: "nwrite (pipes t 0) = 1"
    unfolding two by (simp add: pipe_full_def wakeup_eq pipe_put_def)
  have "pipe_run 0 ?s [] []" by (rule pipe_run.start) simp
  from pipe_fifo [OF pipe_run.wr [OF this t]] t nw show ?thesis
    by (intro exI [of _ t]) (simp add: sent_bytes_def upt_rec)
qed

text \<open>C31: \<open>piperead\<close> with the pipe's lock held and only that lock: if the pipe is empty and can
  still be written it sleeps, or fails if the process was killed; otherwise it returns the first
  \<open>n\<close> buffered bytes, or all of them if there are fewer, and leaves the rest. So 0 means that
  the pipe is empty and closed for writing.\<close>

theorem piperead_result:
  assumes ok: "pipe_ok (pipes s p)" and lk: "held s = {PipeLock p}" and cur: "curproc s = Some c"
  shows "if queue (pipes s p) = [] \<and> writeopen (pipes s p)
    then (if p_killed (procs s c) then \<exists>t. piperead_loop p n s = Ret (- 1, []) t
      else \<exists>t. piperead_loop p n s = Sleep (ChPipeRead p) t \<and> p_state (procs t c) = SLEEPING)
    else \<exists>t. piperead_loop p n s =
        Ret (int (min (nat n) (length (queue (pipes s p)))), take (nat n) (queue (pipes s p))) t \<and>
      queue (pipes t p) = drop (nat n) (queue (pipes s p)) \<and> held t = {}"
proof (cases "queue (pipes s p) = [] \<and> writeopen (pipes s p)")
  case True
  then have "nread (pipes s p) = nwrite (pipes s p)" by (simp add: pipe_empty_iff)
  with True lk cur show ?thesis by (simp add: piperead_loop_def sleep_eq [OF cur lk])
next
  case False
  obtain bs q where c: "piperead_copy (nat n) (pipes s p) = (bs, q)" by fastforce
  have bs: "bs = take (nat n) (queue (pipes s p))" and q: "queue (pipes s p) = bs @ queue q"
    using piperead_copy_queue [OF ok c] by blast+
  have "length bs = min (nat n) (length (queue (pipes s p)))" using bs by simp
  moreover have "queue q = drop (nat n) (queue (pipes s p))"
    using q bs by (metis append_take_drop_id same_append_eq)
  moreover have "piperead_loop p n s = Ret (int (length bs), bs)
      ((wakeup1 (ChPipeWrite p) (upd_pipe p (\<lambda>_. q) s))\<lparr>held := {}\<rparr>)"
    using False lk c by (auto simp: piperead_loop_def pipe_empty_iff wakeup_eq)
  ultimately show ?thesis using False bs by auto
qed

theorem piperead_result_witness:
  "\<exists>t. piperead_loop 0 5 (pipe_start\<lparr>held := {PipeLock 0}\<rparr>) = Sleep (ChPipeRead 0) t"
  using piperead_result [of "pipe_start\<lparr>held := {PipeLock 0}\<rparr>" 0 0 5]
  by (auto simp: pipe_ok_def qlen_def queue_def)

end
