(* ===== verification/Hw.thy ===== *)
theory Hw
  imports Pipe
begin

text \<open>
  The devices as the kernel sees them: port input and output (\<open>inb\<close>, \<open>outb\<close> of \<open>x86.h\<close>) and
  the memory of the video adapter. What the devices answer is not code of this repository, so it
  is a parameter: \<open>io\<close> is the history of accesses, newest first, and \<open>dev\<close> and \<open>vmem\<close> say what
  a device answers to a read after a given history. A theorem that needs to know more about a
  device assumes it by name, e.g. \<open>indexed_port\<close>: a register reached through an index port
  reads back what was last written to it. The serial port driver (\<open>uart.c\<close>) is here as well.
\<close>

section \<open>Ports\<close>

datatype ioev = Out u16 u8 | In u16 | MW u32 u8 | MR u32

record hw_state = pipe_state +
  io :: "ioev list"
  dev :: "ioev list \<Rightarrow> u16 \<Rightarrow> u8"
  vmem :: "ioev list \<Rightarrow> u32 \<Rightarrow> u8"
  uart :: bool
  kbd_shift :: u32

definition outb :: "u16 \<Rightarrow> u8 \<Rightarrow> 'a hw_state_scheme \<Rightarrow> 'a hw_state_scheme" where
  "outb p v s = s\<lparr>io := Out p v # io s\<rparr>"

definition inb :: "u16 \<Rightarrow> 'a hw_state_scheme \<Rightarrow> u8 \<times> 'a hw_state_scheme" where
  "inb p s = (dev s (io s) p, s\<lparr>io := In p # io s\<rparr>)"

text \<open>Bytes written to and read from the memory window of the video adapter.\<close>

definition vwrite :: "u32 \<Rightarrow> u8 \<Rightarrow> 'a hw_state_scheme \<Rightarrow> 'a hw_state_scheme" where
  "vwrite a v s = s\<lparr>io := MW a v # io s\<rparr>"

definition vread :: "u32 \<Rightarrow> 'a hw_state_scheme \<Rightarrow> u8 \<times> 'a hw_state_scheme" where
  "vread a s = (vmem s (io s) a, s\<lparr>io := MR a # io s\<rparr>)"

section \<open>Indexed registers\<close>

text \<open>The last byte sent to a port, and the last byte sent to the data port \<open>dp\<close> while the
  index port \<open>ip\<close> selected register \<open>i\<close>.\<close>

fun last_out :: "u16 \<Rightarrow> ioev list \<Rightarrow> u8 option" where
  "last_out p [] = None"
| "last_out p (Out q v # h) = (if q = p then Some v else last_out p h)"
| "last_out p (e # h) = last_out p h"

fun reg_val :: "u16 \<Rightarrow> u16 \<Rightarrow> u8 \<Rightarrow> ioev list \<Rightarrow> u8 option" where
  "reg_val ip dp i [] = None"
| "reg_val ip dp i (Out q v # h) =
     (if q = dp \<and> last_out ip h = Some i then Some v else reg_val ip dp i h)"
| "reg_val ip dp i (e # h) = reg_val ip dp i h"

definition indexed_port :: "(ioev list \<Rightarrow> u16 \<Rightarrow> u8) \<Rightarrow> u16 \<Rightarrow> u16 \<Rightarrow> bool" where
  "indexed_port d ip dp \<longleftrightarrow>
     (\<forall>h i v. last_out ip h = Some i \<longrightarrow> reg_val ip dp i h = Some v \<longrightarrow> d h dp = v)"

text \<open>A device with such registers exists.\<close>

definition register_file :: "u16 \<Rightarrow> u16 \<Rightarrow> ioev list \<Rightarrow> u16 \<Rightarrow> u8" where
  "register_file ip dp h p =
     (if p = dp then (case last_out ip h of None \<Rightarrow> 0
        | Some i \<Rightarrow> (case reg_val ip dp i h of None \<Rightarrow> 0 | Some v \<Rightarrow> v))
      else 0)"

lemma register_file_indexed: "indexed_port (register_file ip dp) ip dp"
  by (auto simp: indexed_port_def register_file_def)

lemma hw_simps [simp]:
  "io (outb p v s) = Out p v # io s" "dev (outb p v s) = dev s" "vmem (outb p v s) = vmem s"
  "uart (outb p v s) = uart s" "kbd_shift (outb p v s) = kbd_shift s"
  "held (outb p v s) = held s" "procs (outb p v s) = procs s" "curproc (outb p v s) = curproc s"
  "held (s\<lparr>io := h\<rparr>) = held s"
  by (simp_all add: outb_def)

section \<open>The serial port\<close>

abbreviation COM1 :: u16 where "COM1 \<equiv> 0x3f8"

text \<open>The wait for the transmitter, with \<open>n\<close> polls left; \<open>microdelay\<close> does nothing.\<close>

fun uart_wait :: "nat \<Rightarrow> 'a hw_state_scheme \<Rightarrow> 'a hw_state_scheme" where
  "uart_wait 0 s = s"
| "uart_wait (Suc n) s =
     (case inb (COM1 + 5) s of (st, s) \<Rightarrow> if st AND 0x20 \<noteq> 0 then s else uart_wait n s)"

definition uartputc :: "u8 \<Rightarrow> 'a hw_state_scheme \<Rightarrow> 'a hw_state_scheme" where
  "uartputc c s = (if \<not> uart s then s else outb (COM1 + 0) c (uart_wait 128 s))"

definition uartgetc :: "'a hw_state_scheme \<Rightarrow> int \<times> 'a hw_state_scheme" where
  "uartgetc s =
     (if \<not> uart s then (- 1, s)
      else case inb (COM1 + 5) s of (st, s) \<Rightarrow>
        if st AND 0x01 = 0 then (- 1, s)
        else case inb (COM1 + 0) s of (c, s) \<Rightarrow> (uint c, s))"

text \<open>\<open>uartinit\<close>; \<open>enable\<close> is \<open>ioapicenable(IRQ_COM1, 0)\<close>.\<close>

definition uartinit :: "('a hw_state_scheme \<Rightarrow> 'a hw_state_scheme) \<Rightarrow> 'a hw_state_scheme \<Rightarrow> 'a hw_state_scheme" where
  "uartinit enable s =
     (let s = outb (COM1 + 2) 0 s;
          s = outb (COM1 + 3) 0x80 s;
          s = outb (COM1 + 0) 12 s;
          s = outb (COM1 + 1) 0 s;
          s = outb (COM1 + 3) 0x03 s;
          s = outb (COM1 + 4) 0 s;
          s = outb (COM1 + 1) 0x01 s
      in case inb (COM1 + 5) s of (st, s) \<Rightarrow>
        if st = 0xFF then s
        else
          let s = s\<lparr>uart := True\<rparr>;
              s = snd (inb (COM1 + 2) s);
              s = snd (inb (COM1 + 0) s);
              s = enable s
          in fold uartputc [0x78, 0x76, 0x36, 0x2E, 0x2E, 0x2E, 0x0A] s)"

lemma uart_wait_bounded:
  "\<exists>k\<le>n. io (uart_wait n s) = replicate k (In (COM1 + 5)) @ io s \<and>
    uart_wait n s = s\<lparr>io := io (uart_wait n s)\<rparr>"
proof (induction n arbitrary: s)
  case (Suc n)
  let ?s = "s\<lparr>io := In (COM1 + 5) # io s\<rparr>"
  show ?case
  proof (cases "dev s (io s) (COM1 + 5) AND 0x20 \<noteq> 0")
    case True
    then show ?thesis by (intro exI [of _ 1]) (simp add: inb_def)
  next
    case False
    from Suc [of ?s] obtain k where "k \<le> n" "io (uart_wait n ?s) = replicate k (In (COM1 + 5)) @ io ?s"
      "uart_wait n ?s = ?s\<lparr>io := io (uart_wait n ?s)\<rparr>" by blast
    with False show ?thesis
      by (intro exI [of _ "Suc k"]) (simp add: inb_def replicate_append_same)
  qed
qed simp

end
