(* ===== verification/Kbd.thy ===== *)
theory Kbd
  imports Hw
begin

text \<open>
  The keyboard (\<open>kbd.c\<close>, \<open>kbd.h\<close>): the scan code tables and \<open>kbdgetc\<close>, which keeps the state of
  the modifier keys in the static variable \<open>shift\<close> (here \<open>kbd_shift\<close>).
\<close>

section \<open>Tables\<close>

abbreviation KBSTATP :: u16 where "KBSTATP \<equiv> 0x64"
abbreviation KBDATAP :: u16 where "KBDATAP \<equiv> 0x60"
abbreviation SHIFT :: u32 where "SHIFT \<equiv> 0x01"
abbreviation CTL :: u32 where "CTL \<equiv> 0x02"
abbreviation ALT :: u32 where "ALT \<equiv> 0x04"
abbreviation CAPSLOCK :: u32 where "CAPSLOCK \<equiv> 0x08"
abbreviation NUMLOCK :: u32 where "NUMLOCK \<equiv> 0x10"
abbreviation SCROLLLOCK :: u32 where "SCROLLLOCK \<equiv> 0x20"
abbreviation E0ESC :: u32 where "E0ESC \<equiv> 0x40"

definition shiftcode :: "u8 \<Rightarrow> u32" where
  "shiftcode d =
     (if d = 0x1D then CTL else if d = 0x2A then SHIFT else if d = 0x36 then SHIFT
      else if d = 0x38 then ALT else if d = 0x9D then CTL else if d = 0xB8 then ALT else 0)"

definition togglecode :: "u8 \<Rightarrow> u32" where
  "togglecode d =
     (if d = 0x3A then CAPSLOCK else if d = 0x45 then NUMLOCK else if d = 0x46 then SCROLLLOCK else 0)"

definition normal_tab :: "u8 list" where
  "normal_tab = [
   0x00, 0x1B, 0x31, 0x32, 0x33, 0x34, 0x35, 0x36,
   0x37, 0x38, 0x39, 0x30, 0x2D, 0x3D, 0x08, 0x09,
   0x71, 0x77, 0x65, 0x72, 0x74, 0x79, 0x75, 0x69,
   0x6F, 0x70, 0x5B, 0x5D, 0x0A, 0x00, 0x61, 0x73,
   0x64, 0x66, 0x67, 0x68, 0x6A, 0x6B, 0x6C, 0x3B,
   0x27, 0x60, 0x00, 0x5C, 0x7A, 0x78, 0x63, 0x76,
   0x62, 0x6E, 0x6D, 0x2C, 0x2E, 0x2F, 0x00, 0x2A,
   0x00, 0x20, 0x00, 0x00, 0x00, 0x00, 0x00, 0x00,
   0x00, 0x00, 0x00, 0x00, 0x00, 0x00, 0x00, 0x37,
   0x38, 0x39, 0x2D, 0x34, 0x35, 0x36, 0x2B, 0x31,
   0x32, 0x33, 0x30, 0x2E, 0x00, 0x00, 0x00, 0x00]"

definition normalmap :: "u8 \<Rightarrow> u8" where
  "normalmap d =
   (if unat d < 88 then normal_tab ! unat d
    else if d = 0x9C then 0x0A
    else if d = 0xB5 then 0x2F
    else if d = 0xC8 then 0xE2
    else if d = 0xD0 then 0xE3
    else if d = 0xC9 then 0xE6
    else if d = 0xD1 then 0xE7
    else if d = 0xCB then 0xE4
    else if d = 0xCD then 0xE5
    else if d = 0x97 then 0xE0
    else if d = 0xCF then 0xE1
    else if d = 0xD2 then 0xE8
    else if d = 0xD3 then 0xE9
    else 0)"

definition shiftmap :: "u8 \<Rightarrow> u8" where
  "shiftmap d =
   (if unat d < 88 then [
   0x00, 0x1B, 0x21, 0x40, 0x23, 0x24, 0x25, 0x5E,
   0x26, 0x2A, 0x28, 0x29, 0x5F, 0x2B, 0x08, 0x09,
   0x51, 0x57, 0x45, 0x52, 0x54, 0x59, 0x55, 0x49,
   0x4F, 0x50, 0x7B, 0x7D, 0x0A, 0x00, 0x41, 0x53,
   0x44, 0x46, 0x47, 0x48, 0x4A, 0x4B, 0x4C, 0x3A,
   0x22, 0x7E, 0x00, 0x7C, 0x5A, 0x58, 0x43, 0x56,
   0x42, 0x4E, 0x4D, 0x3C, 0x3E, 0x3F, 0x00, 0x2A,
   0x00, 0x20, 0x00, 0x00, 0x00, 0x00, 0x00, 0x00,
   0x00, 0x00, 0x00, 0x00, 0x00, 0x00, 0x00, 0x37,
   0x38, 0x39, 0x2D, 0x34, 0x35, 0x36, 0x2B, 0x31,
   0x32, 0x33, 0x30, 0x2E, 0x00, 0x00, 0x00, 0x00] ! unat d
    else if d = 0x9C then 0x0A
    else if d = 0xB5 then 0x2F
    else if d = 0xC8 then 0xE2
    else if d = 0xD0 then 0xE3
    else if d = 0xC9 then 0xE6
    else if d = 0xD1 then 0xE7
    else if d = 0xCB then 0xE4
    else if d = 0xCD then 0xE5
    else if d = 0x97 then 0xE0
    else if d = 0xCF then 0xE1
    else if d = 0xD2 then 0xE8
    else if d = 0xD3 then 0xE9
    else 0)"

definition ctlmap :: "u8 \<Rightarrow> u8" where
  "ctlmap d =
   (if unat d < 56 then [
   0x00, 0x00, 0x00, 0x00, 0x00, 0x00, 0x00, 0x00,
   0x00, 0x00, 0x00, 0x00, 0x00, 0x00, 0x00, 0x00,
   0x11, 0x17, 0x05, 0x12, 0x14, 0x19, 0x15, 0x09,
   0x0F, 0x10, 0x00, 0x00, 0x0D, 0x00, 0x01, 0x13,
   0x04, 0x06, 0x07, 0x08, 0x0A, 0x0B, 0x0C, 0x00,
   0x00, 0x00, 0x00, 0x1C, 0x1A, 0x18, 0x03, 0x16,
   0x02, 0x0E, 0x0D, 0x00, 0x00, 0xEF, 0x00, 0x00] ! unat d
    else if d = 0x9C then 0x0D
    else if d = 0xB5 then 0xEF
    else if d = 0xC8 then 0xE2
    else if d = 0xD0 then 0xE3
    else if d = 0xC9 then 0xE6
    else if d = 0xD1 then 0xE7
    else if d = 0xCB then 0xE4
    else if d = 0xCD then 0xE5
    else if d = 0x97 then 0xE0
    else if d = 0xCF then 0xE1
    else if d = 0xD2 then 0xE8
    else if d = 0xD3 then 0xE9
    else 0)"

section \<open>Decoding\<close>

definition charcode :: "u32 \<Rightarrow> u8 \<Rightarrow> u8" where
  "charcode i d = (if i = 0 then normalmap d else if i = 1 then shiftmap d else ctlmap d)"

definition caps_swap :: "u32 \<Rightarrow> u32" where
  "caps_swap c =
     (if 0x61 \<le> c \<and> c \<le> 0x7A then c + (0x41 - 0x61)
      else if 0x41 \<le> c \<and> c \<le> 0x5A then c + (0x61 - 0x41) else c)"

text \<open>What \<open>kbdgetc\<close> does with the scan code \<open>data\<close> it read: the new \<open>shift\<close> and the result.\<close>

definition kbd_press :: "u32 \<Rightarrow> u8 \<Rightarrow> u32 \<times> int" where
  "kbd_press shift data =
     (let shift = shift OR shiftcode data;
          shift = shift XOR togglecode data;
          c = ucast (charcode (shift AND (CTL OR SHIFT)) data);
          c = (if shift AND CAPSLOCK \<noteq> 0 then caps_swap c else c)
      in (shift, uint c))"

definition kbd_decode :: "u32 \<Rightarrow> u8 \<Rightarrow> u32 \<times> int" where
  "kbd_decode shift data =
     (if data = 0xE0 then (shift OR E0ESC, 0)
      else if data AND 0x80 \<noteq> 0 then
        (let data = (if shift AND E0ESC \<noteq> 0 then data else data AND 0x7F)
         in (shift AND NOT (shiftcode data OR E0ESC), 0))
      else if shift AND E0ESC \<noteq> 0 then kbd_press (shift AND NOT E0ESC) (data OR 0x80)
      else kbd_press shift data)"

definition kbdgetc :: "'a hw_state_scheme \<Rightarrow> int \<times> 'a hw_state_scheme" where
  "kbdgetc s =
     (case inb KBSTATP s of (st, s) \<Rightarrow>
      if st AND 0x01 = 0 then (- 1, s)
      else case inb KBDATAP s of (data, s) \<Rightarrow>
        case kbd_decode (kbd_shift s) data of (sh, c) \<Rightarrow> (c, s\<lparr>kbd_shift := sh\<rparr>))"

section \<open>Properties\<close>

definition letter_key :: "u8 \<Rightarrow> bool" where
  "letter_key d \<longleftrightarrow> 0x61 \<le> normalmap d \<and> normalmap d \<le> 0x7A"

definition letter_facts :: "u8 \<Rightarrow> bool" where
  "letter_facts d \<longleftrightarrow> shiftcode d = 0 \<and> togglecode d = 0 \<and> d AND 0x80 = 0 \<and> d \<noteq> 0xE0 \<and>
     shiftmap d = normalmap d - 0x20 \<and>
     caps_swap (ucast (normalmap d)) = ucast (normalmap d - 0x20) \<and>
     caps_swap (ucast (normalmap d - 0x20)) = ucast (normalmap d)"

lemma letter_table: "list_all (\<lambda>n. letter_key (of_nat n) \<longrightarrow> letter_facts (of_nat n)) [16..<51]"
  by code_simp

lemma letter_key_range:
  assumes "letter_key d"
  shows "unat d \<in> {16..<51}"
proof -
  let ?letter = "\<lambda>c. 0x61 \<le> c \<and> c \<le> (0x7A :: u8)"
  have lo: "\<forall>c\<in>set (take 16 normal_tab). \<not> ?letter c" and hi: "\<forall>c\<in>set (drop 51 normal_tab). \<not> ?letter c"
    and len: "length normal_tab = 88"
    by (simp_all add: normal_tab_def)
  have d: "unat d < 88" "?letter (normal_tab ! unat d)"
    using assms by (auto simp: letter_key_def normalmap_def split: if_splits)
  have "16 \<le> unat d"
  proof (rule ccontr)
    assume "\<not> 16 \<le> unat d"
    then have "normal_tab ! unat d \<in> set (take 16 normal_tab)"
      using len by (auto simp: in_set_conv_nth intro!: exI [of _ "unat d"])
    with lo d(2) show False by blast
  qed
  moreover have "unat d < 51"
  proof (rule ccontr)
    assume "\<not> unat d < 51"
    then have "normal_tab ! unat d \<in> set (drop 51 normal_tab)"
      using len d(1) by (auto simp: in_set_conv_nth intro!: exI [of _ "unat d - 51"])
    with hi d(2) show False by blast
  qed
  ultimately show ?thesis by simp
qed

lemma letter_key_facts:
  assumes "letter_key d"
  shows "letter_facts d"
proof -
  have "unat d \<in> set [16..<51]" using letter_key_range [OF assms] by (simp only: set_upt)
  then have "letter_key (of_nat (unat d)) \<longrightarrow> letter_facts (of_nat (unat d))"
    using letter_table unfolding list_all_iff by blast
  with assms show ?thesis by simp
qed

lemma and_1_cases: "x AND 1 = 0 \<or> x AND 1 = (1 :: u32)"
  by (simp add: and_one_eq mod_2_eq_odd)

text \<open>C33: Letter keys. Pressing the key of a letter without Control gives the capital letter
  exactly when one of Shift and Caps Lock is on but not both, else the small one, and leaves the
  modifiers alone.\<close>

theorem kbd_letter_case:
  assumes "letter_key d" and "sh AND CTL = 0" and "sh AND E0ESC = 0"
  shows "kbd_decode sh d = (sh, uint (if (sh AND SHIFT \<noteq> 0) \<noteq> (sh AND CAPSLOCK \<noteq> 0)
    then normalmap d - 0x20 else normalmap d))"
proof -
  have f: "shiftcode d = 0" "togglecode d = 0" "d AND 0x80 = 0" "d \<noteq> 0xE0"
      "shiftmap d = normalmap d - 0x20" "caps_swap (ucast (normalmap d)) = ucast (normalmap d - 0x20)"
      "caps_swap (ucast (normalmap d - 0x20)) = ucast (normalmap d)"
    using letter_key_facts [OF assms(1)] unfolding letter_facts_def by blast+
  have "sh AND (CTL OR SHIFT) = (sh AND CTL) OR (sh AND SHIFT)"
    by (rule bit.conj_disj_distrib)
  then have idx: "sh AND (CTL OR SHIFT) = sh AND SHIFT" using assms(2) by simp
  have "kbd_decode sh d = kbd_press sh d" using f(3,4) assms(3) by (simp add: kbd_decode_def)
  also have "\<dots> = (sh, uint (let c = ucast (charcode (sh AND SHIFT) d) :: u32
      in if sh AND CAPSLOCK \<noteq> 0 then caps_swap c else c))"
    unfolding kbd_press_def Let_def f(1,2) by (simp only: idx or.right_neutral xor.right_neutral)
  finally show ?thesis
    using and_1_cases [of sh] f(5-7) by (auto simp: charcode_def Let_def)
qed

theorem kbd_letter_case_witness:
  "kbd_decode SHIFT 0x1E = (SHIFT, 0x41) \<and> kbd_decode (SHIFT OR CAPSLOCK) 0x1E = (SHIFT OR CAPSLOCK, 0x61)"
proof -
  have "letter_key 0x1E" by code_simp
  from kbd_letter_case [OF this, of SHIFT] kbd_letter_case [OF this, of "SHIFT OR CAPSLOCK"]
  show ?thesis by (simp add: normalmap_def normal_tab_def)
qed

lemma modifier_clear:
  fixes sh m e :: u32
  assumes "sh AND m = 0" and "sh AND e = 0"
  shows "(sh OR m) AND NOT (m OR e) = sh"
proof (rule bit_word_eqI)
  fix n
  assume "n < LENGTH(32)"
  moreover have "\<not> (bit sh n \<and> bit m n)" "\<not> (bit sh n \<and> bit e n)"
    using assms by (metis bit_0_eq bit_and_iff bot_apply bot_bool_def)+
  ultimately show "bit ((sh OR m) AND NOT (m OR e)) n = bit sh n"
    by (auto simp: bit_and_iff bit_or_iff bit_not_iff)
qed



end
