(* ===== verification/Spinlock.thy ===== *)
theory Spinlock
  imports Prelude
begin

text \<open>
  Spin locks (\<open>spinlock.c\<close>): interrupt nesting with \<open>pushcli\<close>/\<open>popcli\<close>, the lock word with
  its atomic exchange, and the bookkeeping of the holder. The routines run on one CPU \<open>c\<close>
  (the result of \<open>mycpu()\<close>). A second part interleaves any number of CPUs, one memory access at
  a time, and shows that the locks exclude each other and implement \<open>lk_acquire\<close> and
  \<open>lk_release\<close>, the view of a lock that the rest of the kernel uses.
\<close>

section \<open>State\<close>

abbreviation FL_IF :: u32 where "FL_IF \<equiv> 0x200"

record spinlock =
  locked :: u32
  lkname :: string
  lkcpu :: "nat option"
  lkpcs :: "u32 list"

record cpu_flags =
  eflags :: u32
  ncli :: int
  intena :: u32

text \<open>\<open>argp c\<close> is the address of the argument of the running \<open>acquire\<close> on the stack of CPU
  \<open>c\<close>, and \<open>kmemw\<close> the kernel's memory as words: what \<open>getcallerpcs\<close> reads.\<close>

record spin_state =
  spins :: "lock \<Rightarrow> spinlock"
  flags :: "nat \<Rightarrow> cpu_flags"
  argp :: "nat \<Rightarrow> u32"
  kmemw :: "u32 \<Rightarrow> u32"

definition upd_spin :: "lock \<Rightarrow> (spinlock \<Rightarrow> spinlock) \<Rightarrow> 'a spin_state_scheme \<Rightarrow> 'a spin_state_scheme" where
  "upd_spin l f s = s\<lparr>spins := (spins s)(l := f (spins s l))\<rparr>"

definition upd_flags ::
  "nat \<Rightarrow> (cpu_flags \<Rightarrow> cpu_flags) \<Rightarrow> 'a spin_state_scheme \<Rightarrow> 'a spin_state_scheme" where
  "upd_flags c f s = s\<lparr>flags := (flags s)(c := f (flags s c))\<rparr>"

section \<open>Routines\<close>

definition initlock :: "lock \<Rightarrow> string \<Rightarrow> 'a spin_state_scheme \<Rightarrow> 'a spin_state_scheme" where
  "initlock l name = upd_spin l (\<lambda>k. k\<lparr>lkname := name, locked := 0, lkcpu := None\<rparr>)"

definition cli :: "cpu_flags \<Rightarrow> cpu_flags" where
  "cli f = f\<lparr>eflags := eflags f AND NOT FL_IF\<rparr>"

definition sti :: "cpu_flags \<Rightarrow> cpu_flags" where
  "sti f = f\<lparr>eflags := eflags f OR FL_IF\<rparr>"

definition pushcli :: "nat \<Rightarrow> 'a spin_state_scheme \<Rightarrow> 'a spin_state_scheme" where
  "pushcli c s =
     (let efl = eflags (flags s c);
          s = upd_flags c cli s;
          s = (if ncli (flags s c) = 0 then upd_flags c (\<lambda>f. f\<lparr>intena := efl AND FL_IF\<rparr>) s else s)
      in upd_flags c (\<lambda>f. f\<lparr>ncli := ncli f + 1\<rparr>) s)"

definition popcli :: "nat \<Rightarrow> 'a spin_state_scheme \<Rightarrow> ('a spin_state_scheme, unit) kres" where
  "popcli c s =
     (if eflags (flags s c) AND FL_IF \<noteq> 0 then Panic ''popcli - interruptible''
      else
        let s = upd_flags c (\<lambda>f. f\<lparr>ncli := ncli f - 1\<rparr>) s
        in if ncli (flags s c) < 0 then Panic ''popcli''
           else if ncli (flags s c) = 0 \<and> intena (flags s c) \<noteq> 0 then Ret () (upd_flags c sti s)
           else Ret () s)"

definition holding :: "nat \<Rightarrow> lock \<Rightarrow> 'a spin_state_scheme \<Rightarrow> ('a spin_state_scheme, bool) kres" where
  "holding c l s =
     (let s = pushcli c s;
          r = (locked (spins s l) \<noteq> 0 \<and> lkcpu (spins s l) = Some c)
      in kbind (popcli c s) (\<lambda>_ s. Ret r s))"

definition xchg :: "lock \<Rightarrow> u32 \<Rightarrow> 'a spin_state_scheme \<Rightarrow> u32 \<times> 'a spin_state_scheme" where
  "xchg l v s = (locked (spins s l), upd_spin l (\<lambda>k. k\<lparr>locked := v\<rparr>) s)"

fun callerpcs :: "nat \<Rightarrow> u32 \<Rightarrow> (u32 \<Rightarrow> u32) \<Rightarrow> u32 list" where
  "callerpcs 0 ebp m = []"
| "callerpcs (Suc i) ebp m =
     (if ebp = 0 \<or> ebp < 0x80000000 \<or> ebp = 0xFFFFFFFF then replicate (Suc i) 0
      else m (ebp + 4) # callerpcs i (m ebp) m)"

definition getcallerpcs :: "u32 \<Rightarrow> (u32 \<Rightarrow> u32) \<Rightarrow> u32 list" where
  "getcallerpcs v m = callerpcs 10 (v - 8) m"

definition record_owner :: "nat \<Rightarrow> lock \<Rightarrow> 'a spin_state_scheme \<Rightarrow> 'a spin_state_scheme" where
  "record_owner c l s =
     upd_spin l (\<lambda>k. k\<lparr>lkcpu := Some c, lkpcs := getcallerpcs (argp s c) (kmemw s)\<rparr>) s"

definition clear_owner :: "lock \<Rightarrow> 'a spin_state_scheme \<Rightarrow> 'a spin_state_scheme" where
  "clear_owner l = upd_spin l (\<lambda>k. k\<lparr>lkpcs := (lkpcs k)[0 := 0], lkcpu := None\<rparr>)"

partial_function (option) acquire_spin ::
  "lock \<Rightarrow> 'a spin_state_scheme \<Rightarrow> 'a spin_state_scheme option" where
  "acquire_spin l s =
     (case xchg l 1 s of (old, s) \<Rightarrow> if old \<noteq> 0 then acquire_spin l s else Some s)"

text \<open>\<open>acquire\<close> when no other CPU runs: \<open>None\<close> is the loop that spins forever.\<close>

definition acquire :: "nat \<Rightarrow> lock \<Rightarrow> 'a spin_state_scheme \<Rightarrow> ('a spin_state_scheme, unit) kres option" where
  "acquire c l s =
     (case holding c l (pushcli c s) of
        Ret r s \<Rightarrow>
          if r then Some (Panic ''acquire'')
          else (case acquire_spin l s of
                  None \<Rightarrow> None
                | Some s \<Rightarrow> Some (Ret () (record_owner c l s)))
      | Panic e \<Rightarrow> Some (Panic e)
      | Sleep ch s \<Rightarrow> Some (Sleep ch s))"

definition release :: "nat \<Rightarrow> lock \<Rightarrow> 'a spin_state_scheme \<Rightarrow> ('a spin_state_scheme, unit) kres" where
  "release c l s =
     kbind (holding c l s) (\<lambda>r s.
       if \<not> r then Panic ''release''
       else popcli c (upd_spin l (\<lambda>k. k\<lparr>locked := 0\<rparr>) (clear_owner l s)))"

section \<open>Interleaving CPUs\<close>

text \<open>
  Where a CPU is in \<open>acquire\<close> or \<open>release\<close>. Each constructor names the next access to the
  shared lock: \<open>holding\<close> reads \<open>locked\<close> and then, if it is set, \<open>cpu\<close>. \<open>Halted\<close> is a CPU that
  called \<open>panic\<close>.
\<close>

datatype spc =
    Outside | AcqTest lock | AcqTestCpu lock | AcqXchg lock | AcqRecord lock
  | RelTest lock | RelTestCpu lock | RelStore lock | Halted string

text \<open>\<open>hl c\<close> is the set of locks that CPU \<open>c\<close> holds as its own calls see it: those whose
  \<open>acquire\<close> has returned and whose \<open>release\<close> has not.\<close>

record spin_machine = spin_state +
  pc :: "nat \<Rightarrow> spc"
  hl :: "nat \<Rightarrow> lock set"

definition goto :: "nat \<Rightarrow> spc \<Rightarrow> spin_machine \<Rightarrow> spin_machine" where
  "goto c p m = m\<lparr>pc := (pc m)(c := p)\<rparr>"

definition after_pop :: "nat \<Rightarrow> (spin_machine \<Rightarrow> spin_machine) \<Rightarrow> spin_machine \<Rightarrow> spin_machine" where
  "after_pop c k m = (case popcli c m of
     Ret u m' \<Rightarrow> k m' | Panic e \<Rightarrow> goto c (Halted e) m | Sleep ch m' \<Rightarrow> m')"

definition cpu_step :: "nat \<Rightarrow> spin_machine \<Rightarrow> spin_machine" where
  "cpu_step c m = (case pc m c of
     Outside \<Rightarrow> m
   | AcqTest l \<Rightarrow>
       let m = pushcli c m
       in if locked (spins m l) = 0 then after_pop c (goto c (AcqXchg l)) m
          else goto c (AcqTestCpu l) m
   | AcqTestCpu l \<Rightarrow>
       if lkcpu (spins m l) = Some c then after_pop c (goto c (Halted ''acquire'')) m
       else after_pop c (goto c (AcqXchg l)) m
   | AcqXchg l \<Rightarrow>
       (case xchg l 1 m of (old, m) \<Rightarrow> if old \<noteq> 0 then m else goto c (AcqRecord l) m)
   | AcqRecord l \<Rightarrow>
       let m = record_owner c l m
       in goto c Outside (m\<lparr>hl := (hl m)(c := insert l (hl m c))\<rparr>)
   | RelTest l \<Rightarrow>
       let m = pushcli c m
       in if locked (spins m l) = 0 then after_pop c (goto c (Halted ''release'')) m
          else goto c (RelTestCpu l) m
   | RelTestCpu l \<Rightarrow>
       if lkcpu (spins m l) \<noteq> Some c then after_pop c (goto c (Halted ''release'')) m
       else after_pop c (\<lambda>m. goto c (RelStore l) (clear_owner l m)) m
   | RelStore l \<Rightarrow>
       after_pop c (\<lambda>m. goto c Outside (m\<lparr>hl := (hl m)(c := hl m c - {l})\<rparr>))
         (upd_spin l (\<lambda>k. k\<lparr>locked := 0\<rparr>) m)
   | Halted e \<Rightarrow> m)"

inductive spin_step :: "spin_machine \<Rightarrow> spin_machine \<Rightarrow> bool" where
  call_acquire: "pc m c = Outside \<Longrightarrow> spin_step m (goto c (AcqTest l) (pushcli c m))"
| call_release: "pc m c = Outside \<Longrightarrow> spin_step m (goto c (RelTest l) m)"
| run: "spin_step m (cpu_step c m)"

text \<open>The machine after boot: every lock free, no CPU inside a lock routine, and the
  interrupt flag of each CPU as it happens to be.\<close>

definition spin_init :: "(nat \<Rightarrow> u32) \<Rightarrow> spin_machine \<Rightarrow> bool" where
  "spin_init efl m \<longleftrightarrow> (\<forall>l. locked (spins m l) = 0 \<and> lkcpu (spins m l) = None) \<and>
     (\<forall>c. pc m c = Outside \<and> hl m c = {} \<and> ncli (flags m c) = 0 \<and> eflags (flags m c) = efl c)"

inductive spin_reach :: "(nat \<Rightarrow> u32) \<Rightarrow> spin_machine \<Rightarrow> bool" for efl where
  init: "spin_init efl m \<Longrightarrow> spin_reach efl m"
| step: "spin_reach efl m \<Longrightarrow> spin_step m m' \<Longrightarrow> spin_reach efl m'"

section \<open>Sequential behaviour\<close>

lemma upd_spin_simps [simp]:
  "spins (upd_spin l f s) = (spins s)(l := f (spins s l))"
  "flags (upd_spin l f s) = flags s"
  "argp (upd_spin l f s) = argp s" "kmemw (upd_spin l f s) = kmemw s"
  by (simp_all add: upd_spin_def)

lemma upd_flags_simps [simp]:
  "flags (upd_flags c g s) = (flags s)(c := g (flags s c))"
  "spins (upd_flags c g s) = spins s"
  "argp (upd_flags c g s) = argp s" "kmemw (upd_flags c g s) = kmemw s"
  by (simp_all add: upd_flags_def)

lemma upd_machine_simps [simp]:
  "pc (upd_spin l f m) = pc m" "hl (upd_spin l f m) = hl m"
  "pc (upd_flags c g m) = pc m" "hl (upd_flags c g m) = hl m"
  by (simp_all add: upd_spin_def upd_flags_def)

text \<open>\<open>flags_ok e n f\<close>: a CPU whose flags were \<open>e\<close> outside every \<open>pushcli\<close> is now inside \<open>n\<close> of
  them.\<close>

definition flags_ok :: "u32 \<Rightarrow> nat \<Rightarrow> cpu_flags \<Rightarrow> bool" where
  "flags_ok e n f \<longleftrightarrow> ncli f = int n \<and>
     (if n = 0 then eflags f = e else eflags f = e AND NOT FL_IF \<and> intena f = e AND FL_IF)"

lemma bit_FL_IF: "bit FL_IF n \<longleftrightarrow> n = 9"
proof -
  have "FL_IF = push_bit 9 1" by simp
  then show ?thesis by (simp only: bit_push_bit_iff bit_1_iff) auto
qed

lemma if_bit: "e AND FL_IF \<noteq> 0 \<longleftrightarrow> bit e 9" for e :: u32
proof -
  have "FL_IF = push_bit 9 1" by simp
  then show ?thesis by (metis and_exp_eq_0_iff_not_bit push_bit_of_1)
qed

lemma no_if: "(e AND NOT FL_IF) AND FL_IF = 0" for e :: u32
  by (simp add: and.assoc)

lemma if_restore:
  fixes e :: u32
  shows "e AND FL_IF \<noteq> 0 \<Longrightarrow> (e AND NOT FL_IF) OR FL_IF = e"
    and "e AND FL_IF = 0 \<Longrightarrow> e AND NOT FL_IF = e"
proof -
  have *: "bit ((e AND NOT FL_IF) OR FL_IF) n \<longleftrightarrow> bit e n \<or> n = 9"
      "bit (e AND NOT FL_IF) n \<longleftrightarrow> bit e n \<and> n \<noteq> 9" if "n < 32" for n
    using that by (auto simp only: bit_or_iff bit_and_iff bit_not_iff bit_FL_IF) simp_all
  show "(e AND NOT FL_IF) OR FL_IF = e" if "e AND FL_IF \<noteq> 0"
    using that unfolding if_bit by (intro bit_word_eqI, subst *) auto
  show "e AND NOT FL_IF = e" if "e AND FL_IF = 0"
    using that if_bit [of e] by (intro bit_word_eqI, subst *) auto
qed

lemma upd_flags_twice [simp]: "upd_flags c g (upd_flags c f s) = upd_flags c (\<lambda>x. g (f x)) s"
  by (simp add: upd_flags_def)

lemma upd_flags_const: "upd_flags c g s = upd_flags c (\<lambda>_. g (flags s c)) s"
  by (simp add: upd_flags_def)

lemma upd_flags_id [simp]: "upd_flags c (\<lambda>_. flags s c) s = s"
  by (simp add: upd_flags_def)

lemma pushcli_ok:
  assumes "flags_ok e n (flags s c)"
  shows "\<exists>f. pushcli c s = upd_flags c (\<lambda>_. f) s \<and> flags_ok e (Suc n) f"
proof -
  define g where "g = (\<lambda>f. (if ncli f = 0 then (cli f)\<lparr>intena := eflags (flags s c) AND FL_IF\<rparr>
    else cli f)\<lparr>ncli := ncli f + 1\<rparr>)"
  have "pushcli c s = upd_flags c g s"
    unfolding pushcli_def upd_flags_def g_def by (simp add: Let_def cli_def)
  then have "pushcli c s = upd_flags c (\<lambda>_. g (flags s c)) s"
    by (simp only: upd_flags_const [of c g s])
  moreover have "flags_ok e (Suc n) (g (flags s c))"
    using assms by (auto simp: flags_ok_def cli_def and.assoc g_def split: if_splits)
  ultimately show ?thesis by blast
qed

lemma popcli_ok:
  assumes "flags_ok e (Suc n) (flags s c)"
  shows "\<exists>f. popcli c s = Ret () (upd_flags c (\<lambda>_. f) s) \<and> flags_ok e n f"
proof -
  let ?f = "(flags s c)\<lparr>ncli := int n\<rparr>"
  have f: "ncli (flags s c) = int n + 1" "eflags (flags s c) = e AND NOT FL_IF"
      "intena (flags s c) = e AND FL_IF"
    using assms by (auto simp: flags_ok_def)
  then have pop: "popcli c s = Ret () (upd_flags c (\<lambda>_. if n = 0 \<and> intena ?f \<noteq> 0 then sti ?f else ?f) s)"
    using no_if [of e] by (simp add: popcli_def Let_def upd_flags_def)
  show ?thesis
    unfolding pop using f if_restore [of e] by (intro exI conjI) (auto simp: flags_ok_def sti_def)
qed

lemma push_pop_ok:
  assumes "flags_ok e n (flags s c)"
  shows "\<exists>f. popcli c (pushcli c s) = Ret () (upd_flags c (\<lambda>_. f) s) \<and> flags_ok e n f"
proof -
  from pushcli_ok [OF assms] obtain f where f: "pushcli c s = upd_flags c (\<lambda>_. f) s"
    "flags_ok e (Suc n) f" by blast
  with popcli_ok [of e n "pushcli c s" c] show ?thesis
    by (auto simp: upd_flags_def)
qed

lemma holding_ok:
  assumes "flags_ok e n (flags s c)"
  shows "\<exists>f. holding c l s = Ret (locked (spins s l) \<noteq> 0 \<and> lkcpu (spins s l) = Some c)
    (upd_flags c (\<lambda>_. f) s) \<and> flags_ok e n f"
proof -
  have "spins (pushcli c s) = spins s" by (simp add: pushcli_def Let_def)
  with push_pop_ok [OF assms] show ?thesis by (auto simp: holding_def)
qed

text \<open>An uncontended \<open>acquire\<close> returns with the lock held; a second one on the same CPU panics,
  and \<open>release\<close> undoes the first.\<close>

lemma acquire_release:
  assumes free: "locked (spins s l) = 0" and fl: "flags_ok e n (flags s c)"
  shows "\<exists>t u. acquire c l s = Some (Ret () t) \<and> lkcpu (spins t l) = Some c \<and>
    flags_ok e (Suc n) (flags t c) \<and> acquire c l t = Some (Panic ''acquire'') \<and>
    release c l t = Ret () u \<and> locked (spins u l) = 0 \<and> flags_ok e n (flags u c)"
proof -
  from pushcli_ok [OF fl] obtain f where f: "pushcli c s = upd_flags c (\<lambda>_. f) s"
    "flags_ok e (Suc n) f" by blast
  then obtain g where g: "holding c l (pushcli c s) = Ret False (upd_flags c (\<lambda>_. g) s)"
    "flags_ok e (Suc n) g"
    using holding_ok [of e "Suc n" "pushcli c s" c l] free by auto
  let ?s = "upd_spin l (\<lambda>k. k\<lparr>locked := 1\<rparr>) (upd_flags c (\<lambda>_. g) s)"
  let ?t = "record_owner c l ?s"
  have "acquire_spin l (upd_flags c (\<lambda>_. g) s) = Some ?s"
    using free by (subst acquire_spin.simps) (simp add: xchg_def)
  then have acq: "acquire c l s = Some (Ret () ?t)" by (simp add: acquire_def g(1))
  have t: "locked (spins ?t l) = 1" "lkcpu (spins ?t l) = Some c" "flags_ok e (Suc n) (flags ?t c)"
    using g(2) by (simp_all add: record_owner_def)
  from pushcli_ok [OF t(3)] obtain f2 where "pushcli c ?t = upd_flags c (\<lambda>_. f2) ?t"
    "flags_ok e (Suc (Suc n)) f2" by blast
  then have again: "acquire c l ?t = Some (Panic ''acquire'')"
    using holding_ok [of e "Suc (Suc n)" "pushcli c ?t" c l] t by (auto simp: acquire_def)
  obtain f3 where f3: "holding c l ?t = Ret True (upd_flags c (\<lambda>_. f3) ?t)" "flags_ok e (Suc n) f3"
    using holding_ok [OF t(3), of l] t by auto
  let ?u = "upd_spin l (\<lambda>k. k\<lparr>locked := 0\<rparr>) (clear_owner l (upd_flags c (\<lambda>_. f3) ?t))"
  obtain f4 where "popcli c ?u = Ret () (upd_flags c (\<lambda>_. f4) ?u)" "flags_ok e n f4"
    using popcli_ok [of e n ?u c] f3(2) by (auto simp: clear_owner_def)
  then have "release c l ?t = Ret () (upd_flags c (\<lambda>_. f4) ?u)"
    "flags_ok e n (flags (upd_flags c (\<lambda>_. f4) ?u) c)" "locked (spins (upd_flags c (\<lambda>_. f4) ?u) l) = 0"
    using f3 by (simp_all add: release_def)
  with acq t(2,3) again show ?thesis by blast
qed

section \<open>The invariant of the interleaved machine\<close>

text \<open>A CPU owns a lock from its successful exchange until it stores 0 again; \<open>ow l\<close> is the
  owner of \<open>l\<close>. The \<open>cpu\<close> field names the owner except just after the exchange and just before
  the store.\<close>

definition locks_ok ::
  "(lock \<Rightarrow> nat option) \<Rightarrow> (lock \<Rightarrow> spinlock) \<Rightarrow> (nat \<Rightarrow> spc) \<Rightarrow> (nat \<Rightarrow> lock set) \<Rightarrow> bool" where
  "locks_ok ow sp p h \<longleftrightarrow>
     (\<forall>l. locked (sp l) = 0 \<longleftrightarrow> ow l = None) \<and>
     (\<forall>l c. ow l = Some c \<longleftrightarrow> l \<in> h c \<or> p c = AcqRecord l) \<and>
     (\<forall>l c. lkcpu (sp l) = Some c \<longleftrightarrow> l \<in> h c \<and> p c \<noteq> RelStore l) \<and>
     (\<forall>l c. p c = AcqXchg l \<or> p c = AcqRecord l \<longrightarrow> l \<notin> h c) \<and>
     (\<forall>l c. p c = RelStore l \<longrightarrow> l \<in> h c)"

lemma locks_okI:
  assumes "\<And>l. locked (sp l) = 0 \<longleftrightarrow> ow l = None"
    and "\<And>l c. ow l = Some c \<longleftrightarrow> l \<in> h c \<or> p c = AcqRecord l"
    and "\<And>l c. lkcpu (sp l) = Some c \<longleftrightarrow> l \<in> h c \<and> p c \<noteq> RelStore l"
    and "\<And>l c. p c = AcqXchg l \<or> p c = AcqRecord l \<Longrightarrow> l \<notin> h c"
    and "\<And>l c. p c = RelStore l \<Longrightarrow> l \<in> h c"
  shows "locks_ok ow sp p h"
  using assms unfolding locks_ok_def by blast

lemma locks_okD:
  assumes "locks_ok ow sp p h"
  shows "locked (sp l) = 0 \<longleftrightarrow> ow l = None"
    and "ow l = Some c \<longleftrightarrow> l \<in> h c \<or> p c = AcqRecord l"
    and "lkcpu (sp l) = Some c \<longleftrightarrow> l \<in> h c \<and> p c \<noteq> RelStore l"
    and "p c = AcqXchg l \<or> p c = AcqRecord l \<Longrightarrow> l \<notin> h c"
    and "p c = RelStore l \<Longrightarrow> l \<in> h c"
  using assms unfolding locks_ok_def by blast+

fun nesting :: "spc \<Rightarrow> nat" where
  "nesting (AcqTest l) = 1"
| "nesting (AcqTestCpu l) = 2"
| "nesting (AcqXchg l) = 1"
| "nesting (AcqRecord l) = 1"
| "nesting (RelTestCpu l) = 1"
| "nesting _ = 0"

fun halted :: "spc \<Rightarrow> bool" where
  "halted (Halted e) = True"
| "halted _ = False"

definition cpu_ok :: "u32 \<Rightarrow> nat \<Rightarrow> spin_machine \<Rightarrow> bool" where
  "cpu_ok e c m \<longleftrightarrow> finite (hl m c) \<and>
     (\<not> halted (pc m c) \<longrightarrow> flags_ok e (card (hl m c) + nesting (pc m c)) (flags m c))"

definition spin_inv :: "(nat \<Rightarrow> u32) \<Rightarrow> spin_machine \<Rightarrow> bool" where
  "spin_inv efl m \<longleftrightarrow> (\<exists>ow. locks_ok ow (spins m) (pc m) (hl m)) \<and> (\<forall>c. cpu_ok (efl c) c m)"

lemma goto_simps [simp]:
  "pc (goto c p m) = (pc m)(c := p)" "hl (goto c p m) = hl m" "spins (goto c p m) = spins m"
  "flags (goto c p m) = flags m"
  by (simp_all add: goto_def)

text \<open>The moves of a CPU, as changes of the shared lock state.\<close>

lemma locks_ok_unique:
  assumes "locks_ok ow sp p h"
  shows "l \<in> h c \<or> p c = AcqRecord l \<Longrightarrow> l \<in> h d \<or> p d = AcqRecord l \<Longrightarrow> d = c"
    and "ow l = None \<Longrightarrow> l \<notin> h c \<and> p c \<noteq> AcqRecord l"
  using assms unfolding locks_ok_def by (metis option.inject option.discI)+

fun moves :: "spc \<Rightarrow> bool" where
  "moves (AcqRecord l) = False"
| "moves (RelStore l) = False"
| "moves _ = True"

lemma locks_ok_move:
  assumes ok: "locks_ok ow sp p h" and "moves (p c)" and "moves q"
    and "\<And>l. q = AcqXchg l \<Longrightarrow> l \<notin> h c"
  shows "locks_ok ow sp (p(c := q)) h"
  using locks_okD [OF ok] assms(2-) by (intro locks_okI) (auto split: if_splits)

lemma locks_ok_xchg:
  assumes ok: "locks_ok ow sp p h" and "p c = AcqXchg l" and "locked (sp l) = 0"
  shows "locks_ok (ow(l := Some c)) (sp(l := (sp l)\<lparr>locked := 1\<rparr>)) (p(c := AcqRecord l)) h"
  using locks_okD [OF ok] locks_ok_unique [OF ok, of l] assms(2,3)
  by (intro locks_okI) (auto split: if_splits)

lemma locks_ok_record:
  assumes ok: "locks_ok ow sp p h" and "p c = AcqRecord l"
  shows "locks_ok ow (sp(l := (sp l)\<lparr>lkcpu := Some c, lkpcs := x\<rparr>)) (p(c := Outside))
    (h(c := insert l (h c)))"
  using locks_okD [OF ok] locks_ok_unique [OF ok, of l] assms(2)
  by (intro locks_okI) (auto split: if_splits)

lemma locks_ok_clear:
  assumes ok: "locks_ok ow sp p h" and "p c = RelTestCpu l" and "lkcpu (sp l) = Some c"
  shows "locks_ok ow (sp(l := (sp l)\<lparr>lkpcs := x, lkcpu := None\<rparr>)) (p(c := RelStore l)) h"
  using locks_okD [OF ok] locks_ok_unique [OF ok, of l] assms(2,3)
  by (intro locks_okI) (auto split: if_splits)

lemma locks_ok_store:
  assumes ok: "locks_ok ow sp p h" and "p c = RelStore l"
  shows "locks_ok (ow(l := None)) (sp(l := (sp l)\<lparr>locked := 0\<rparr>)) (p(c := Outside))
    (h(c := h c - {l}))"
  using locks_okD [OF ok] locks_ok_unique [OF ok, of l] assms(2)
  by (intro locks_okI) (auto split: if_splits)

section \<open>Every step keeps the invariant\<close>

lemma after_pop_ok:
  assumes "flags_ok e (Suc n) (flags m c)"
  shows "\<exists>f. after_pop c k m = k (upd_flags c (\<lambda>_. f) m) \<and> flags_ok e n f"
  using popcli_ok [OF assms] by (auto simp: after_pop_def)

lemma push_after_pop_ok:
  assumes "flags_ok e n (flags m c)"
  shows "\<exists>f. after_pop c k (pushcli c m) = k (upd_flags c (\<lambda>_. f) m) \<and> flags_ok e n f"
  using push_pop_ok [OF assms] by (auto simp: after_pop_def)

lemma spin_inv_flags:
  assumes "spin_inv efl m" and "\<not> halted (pc m c)"
  shows "flags_ok (efl c) (card (hl m c) + nesting (pc m c)) (flags m c)"
  using assms by (simp add: spin_inv_def cpu_ok_def)

lemma spin_inv_move:
  assumes inv: "spin_inv efl m" and "moves (pc m c)" and "moves q"
    and "\<And>l. q = AcqXchg l \<Longrightarrow> l \<notin> hl m c"
    and "\<not> halted q \<Longrightarrow> flags_ok (efl c) (card (hl m c) + nesting q) f"
  shows "spin_inv efl (goto c q (upd_flags c (\<lambda>_. f) m))"
proof -
  obtain ow where ow: "locks_ok ow (spins m) (pc m) (hl m)" and cpus: "\<forall>c. cpu_ok (efl c) c m"
    using inv by (auto simp: spin_inv_def)
  have "locks_ok ow (spins m) ((pc m)(c := q)) (hl m)"
    using locks_ok_move [OF ow] assms(2-4) by blast
  with cpus assms(5) show ?thesis by (auto simp: spin_inv_def cpu_ok_def)
qed

lemma spin_inv_own:
  assumes inv: "spin_inv efl m"
  shows "locked (spins m l) = 0 \<Longrightarrow> l \<notin> hl m c"
    and "moves (pc m c) \<Longrightarrow> lkcpu (spins m l) = Some c \<longleftrightarrow> l \<in> hl m c"
    and "pc m c = AcqRecord l \<Longrightarrow> l \<notin> hl m c"
    and "pc m c = AcqXchg l \<Longrightarrow> l \<notin> hl m c"
    and "pc m c = RelStore l \<Longrightarrow> l \<in> hl m c"
    and "l \<in> hl m c \<Longrightarrow> l \<in> hl m d \<Longrightarrow> c = d"
    and "finite (hl m c)"
proof -
  obtain ow where "locks_ok ow (spins m) (pc m) (hl m)" using inv by (auto simp: spin_inv_def)
  note ok = locks_okD [OF this] locks_ok_unique [OF this]
  show "locked (spins m l) = 0 \<Longrightarrow> l \<notin> hl m c" using ok(1,7) by blast
  show "moves (pc m c) \<Longrightarrow> lkcpu (spins m l) = Some c \<longleftrightarrow> l \<in> hl m c" using ok(3) by auto
  show "pc m c = AcqRecord l \<Longrightarrow> l \<notin> hl m c" and "pc m c = AcqXchg l \<Longrightarrow> l \<notin> hl m c"
    and "pc m c = RelStore l \<Longrightarrow> l \<in> hl m c" using ok(4,5) by blast+
  show "l \<in> hl m c \<Longrightarrow> l \<in> hl m d \<Longrightarrow> c = d" using ok(6) by blast
  show "finite (hl m c)" using inv by (auto simp: spin_inv_def cpu_ok_def)
qed

text \<open>What one step of CPU \<open>c\<close> does, with the interrupt nesting resolved.\<close>

lemma cpu_step_AcqTest:
  assumes inv: "spin_inv efl m" and pc: "pc m c = AcqTest l"
  shows "\<exists>f. cpu_step c m = goto c (if locked (spins m l) = 0 then AcqXchg l else AcqTestCpu l)
      (upd_flags c (\<lambda>_. f) m) \<and>
    flags_ok (efl c) (card (hl m c) + (if locked (spins m l) = 0 then 1 else 2)) f"
proof -
  have fl: "flags_ok (efl c) (Suc (card (hl m c))) (flags m c)"
    using spin_inv_flags [OF inv, of c] pc by simp
  show ?thesis
  proof (cases "locked (spins m l) = 0")
    case True
    moreover have "spins (pushcli c m) = spins m" by (simp add: pushcli_def Let_def)
    ultimately show ?thesis
      using push_after_pop_ok [OF fl] pc by (simp add: cpu_step_def Let_def)
  next
    case False
    with pushcli_ok [OF fl] pc show ?thesis by (auto simp: cpu_step_def Let_def)
  qed
qed

lemma cpu_step_AcqTestCpu:
  assumes inv: "spin_inv efl m" and pc: "pc m c = AcqTestCpu l"
  shows "\<exists>f. cpu_step c m = goto c (if l \<in> hl m c then Halted ''acquire'' else AcqXchg l)
      (upd_flags c (\<lambda>_. f) m) \<and> flags_ok (efl c) (Suc (card (hl m c))) f"
proof -
  have "flags_ok (efl c) (Suc (Suc (card (hl m c)))) (flags m c)"
    using spin_inv_flags [OF inv, of c] pc by (simp add: numeral_2_eq_2)
  with after_pop_ok pc spin_inv_own(2) [OF inv, of c l] show ?thesis by (simp add: cpu_step_def)
qed

lemma cpu_step_RelTest:
  assumes inv: "spin_inv efl m" and pc: "pc m c = RelTest l"
  shows "\<exists>f. cpu_step c m = goto c (if locked (spins m l) = 0 then Halted ''release'' else RelTestCpu l)
      (upd_flags c (\<lambda>_. f) m) \<and>
    flags_ok (efl c) (card (hl m c) + (if locked (spins m l) = 0 then 0 else 1)) f"
proof -
  have fl: "flags_ok (efl c) (card (hl m c)) (flags m c)"
    using spin_inv_flags [OF inv, of c] pc by simp
  show ?thesis
  proof (cases "locked (spins m l) = 0")
    case True
    moreover have "spins (pushcli c m) = spins m" by (simp add: pushcli_def Let_def)
    ultimately show ?thesis
      using push_after_pop_ok [OF fl] pc by (simp add: cpu_step_def Let_def)
  next
    case False
    with pushcli_ok [OF fl] pc show ?thesis by (auto simp: cpu_step_def Let_def)
  qed
qed

lemma cpu_step_RelTestCpu:
  assumes inv: "spin_inv efl m" and pc: "pc m c = RelTestCpu l"
  shows "\<exists>f. cpu_step c m = (if l \<in> hl m c
      then goto c (RelStore l) (clear_owner l (upd_flags c (\<lambda>_. f) m))
      else goto c (Halted ''release'') (upd_flags c (\<lambda>_. f) m)) \<and>
    flags_ok (efl c) (card (hl m c)) f"
proof -
  have "flags_ok (efl c) (Suc (card (hl m c))) (flags m c)"
    using spin_inv_flags [OF inv, of c] pc by simp
  from after_pop_ok [OF this, of "\<lambda>m. goto c (RelStore l) (clear_owner l m)"]
    after_pop_ok [OF this, of "goto c (Halted ''release'')"] pc spin_inv_own(2) [OF inv, of c l]
  show ?thesis by (simp add: cpu_step_def)
qed

lemma cpu_step_RelStore:
  assumes inv: "spin_inv efl m" and pc: "pc m c = RelStore l"
  shows "\<exists>f. cpu_step c m = goto c Outside ((\<lambda>m. m\<lparr>hl := (hl m)(c := hl m c - {l})\<rparr>)
      (upd_flags c (\<lambda>_. f) (upd_spin l (\<lambda>k. k\<lparr>locked := 0\<rparr>) m))) \<and>
    flags_ok (efl c) (card (hl m c - {l})) f"
proof -
  have "Suc (card (hl m c - {l})) = card (hl m c)"
    using spin_inv_own(5,7) [OF inv] pc by (metis card_Suc_Diff1)
  then have "flags_ok (efl c) (Suc (card (hl m c - {l}))) (flags m c)"
    using spin_inv_flags [OF inv, of c] pc by simp
  then show ?thesis
    using after_pop_ok [of "efl c" "card (hl m c - {l})" "upd_spin l (\<lambda>k. k\<lparr>locked := 0\<rparr>) m" c
      "\<lambda>m. goto c Outside (m\<lparr>hl := (hl m)(c := hl m c - {l})\<rparr>)"] pc
    by (simp add: cpu_step_def)
qed

lemmas cpu_step_ok =
  cpu_step_AcqTest cpu_step_AcqTestCpu cpu_step_RelTest cpu_step_RelTestCpu cpu_step_RelStore

lemma cpu_ok_frame:
  "\<forall>c. cpu_ok (efl c) c m \<Longrightarrow> (\<And>d. d \<noteq> c \<Longrightarrow> pc m' d = pc m d \<and> hl m' d = hl m d \<and> flags m' d = flags m d) \<Longrightarrow>
    cpu_ok (efl c) c m' \<Longrightarrow> \<forall>c. cpu_ok (efl c) c m'"
  unfolding cpu_ok_def by metis

lemma cpu_step_inv:
  assumes inv: "spin_inv efl m"
  shows "spin_inv efl (cpu_step c m)"
proof -
  obtain ow where ow: "locks_ok ow (spins m) (pc m) (hl m)" and cpus: "\<forall>c. cpu_ok (efl c) c m"
    using inv by (auto simp: spin_inv_def)
  note own = spin_inv_own [OF inv] and move = spin_inv_move [OF inv, of c]
    and fl = spin_inv_flags [OF inv, of c]
  show ?thesis
  proof (cases "pc m c")
    case (AcqTest l)
    with cpu_step_AcqTest [OF inv AcqTest] own show ?thesis
      by (auto intro!: move split: if_splits)
  next
    case (AcqTestCpu l)
    with cpu_step_AcqTestCpu [OF inv AcqTestCpu] own show ?thesis
      by (auto intro!: move split: if_splits)
  next
    case (RelTest l)
    with cpu_step_RelTest [OF inv RelTest] own show ?thesis
      by (auto intro!: move split: if_splits)
  next
    case (AcqXchg l)
    show ?thesis
    proof (cases "locked (spins m l) = 0")
      case True
      with locks_ok_xchg [OF ow AcqXchg] cpus AcqXchg fl show ?thesis
        by (auto simp: cpu_step_def xchg_def spin_inv_def cpu_ok_def)
    next
      case False
      then have "locks_ok ow (spins (upd_spin l (\<lambda>k. k\<lparr>locked := 1\<rparr>) m)) (pc m) (hl m)"
        using ow by (auto simp: locks_ok_def)
      with cpus AcqXchg False show ?thesis
        by (auto simp: cpu_step_def xchg_def spin_inv_def cpu_ok_def)
    qed
  next
    case (AcqRecord l)
    with locks_ok_record [OF ow AcqRecord] cpus own(3,7) fl show ?thesis
      by (auto simp: cpu_step_def Let_def record_owner_def spin_inv_def cpu_ok_def)
  next
    case (RelTestCpu l)
    then obtain f where f: "cpu_step c m = (if l \<in> hl m c
        then goto c (RelStore l) (clear_owner l (upd_flags c (\<lambda>_. f) m))
        else goto c (Halted ''release'') (upd_flags c (\<lambda>_. f) m))" "flags_ok (efl c) (card (hl m c)) f"
      using cpu_step_RelTestCpu [OF inv] by blast
    show ?thesis
    proof (cases "l \<in> hl m c")
      case True
      with own(2) RelTestCpu have "lkcpu (spins m l) = Some c" by simp
      from locks_ok_clear [OF ow RelTestCpu this] True f cpus show ?thesis
        by (auto simp: clear_owner_def spin_inv_def cpu_ok_def)
    next
      case False
      with f RelTestCpu show ?thesis by (auto intro!: move)
    qed
  next
    case (RelStore l)
    with cpu_step_RelStore [OF inv RelStore] locks_ok_store [OF ow RelStore] cpus show ?thesis
      by (auto simp: spin_inv_def cpu_ok_def)
  qed (use inv in \<open>simp_all add: cpu_step_def\<close>)
qed

lemma spin_step_inv: "spin_step m m' \<Longrightarrow> spin_inv efl m \<Longrightarrow> spin_inv efl m'"
proof (induction rule: spin_step.induct)
  case (call_acquire m c l)
  then have "flags_ok (efl c) (card (hl m c)) (flags m c)"
    using spin_inv_flags [of efl m c] by simp
  from pushcli_ok [OF this] obtain f where "pushcli c m = upd_flags c (\<lambda>_. f) m"
    "flags_ok (efl c) (Suc (card (hl m c))) f" by blast
  with call_acquire show ?case by (auto intro!: spin_inv_move)
next
  case (call_release m c l)
  moreover have "flags_ok (efl c) (card (hl m c)) (flags m c)"
    using call_release spin_inv_flags [of efl m c] by simp
  ultimately show ?case using spin_inv_move [of efl m c "RelTest l" "flags m c"] by simp
qed (rule cpu_step_inv)

lemma spin_init_inv: "spin_init efl m \<Longrightarrow> spin_inv efl m"
  by (auto simp: spin_init_def spin_inv_def locks_ok_def cpu_ok_def flags_ok_def
      intro!: exI [of _ "\<lambda>_. None"])

lemma spin_reach_inv: "spin_reach efl m \<Longrightarrow> spin_inv efl m"
  by (induction rule: spin_reach.induct) (auto intro: spin_init_inv spin_step_inv)

section \<open>Properties\<close>

text \<open>C4: Mutual exclusion. However the CPUs interleave their calls of \<open>acquire\<close> and \<open>release\<close>, one
  memory access at a time, two different CPUs never hold the same lock.\<close>

theorem spin_mutual_exclusion:
  assumes "spin_reach efl m" and "l \<in> hl m c" and "l \<in> hl m d"
  shows "c = d"
  using spin_inv_own(6) [OF spin_reach_inv [OF assms(1)] assms(2,3)] .

text \<open>The call a CPU is executing, as the rest of the kernel sees it.\<close>

fun abs_call :: "spc \<Rightarrow> klocks \<Rightarrow> (klocks, unit) kres" where
  "abs_call (AcqTest l) = lk_acquire l"
| "abs_call (AcqTestCpu l) = lk_acquire l"
| "abs_call (AcqXchg l) = lk_acquire l"
| "abs_call (AcqRecord l) = lk_acquire l"
| "abs_call (RelTest l) = lk_release l"
| "abs_call (RelTestCpu l) = lk_release l"
| "abs_call (RelStore l) = lk_release l"
| "abs_call Outside = Ret ()"
| "abs_call (Halted e) = (\<lambda>_. Panic e)"

text \<open>C5: Refinement. Under every interleaving a spin lock does for the CPU that calls it what
  \<open>lk_acquire\<close> and \<open>lk_release\<close> do to the set of locks it holds: the step that returns from a call
  changes the set as the abstract call does, a step that panics does so exactly with the panic
  of the abstract call, and every other step leaves the set alone.\<close>

theorem spin_refines_klocks:
  assumes reach: "spin_reach efl m"
  shows "case pc (cpu_step c m) c of
      Outside \<Rightarrow> abs_call (pc m c) \<lparr>held = hl m c\<rparr> = Ret () \<lparr>held = hl (cpu_step c m) c\<rparr>
    | Halted e \<Rightarrow> abs_call (pc m c) \<lparr>held = hl m c\<rparr> = Panic e
    | _ \<Rightarrow> hl (cpu_step c m) c = hl m c"
proof -
  note inv = spin_reach_inv [OF reach]
  note own = spin_inv_own [OF inv]
  show ?thesis
  proof (cases "pc m c")
    case (AcqTest l)
    then show ?thesis using cpu_step_AcqTest [OF inv AcqTest] by (auto split: if_splits)
  next
    case (AcqTestCpu l)
    then show ?thesis using cpu_step_AcqTestCpu [OF inv AcqTestCpu] by (auto split: if_splits)
  next
    case (AcqRecord l)
    then show ?thesis using own(3)
      by (simp add: cpu_step_def record_owner_def Let_def)
  next
    case (RelTest l)
    then show ?thesis using cpu_step_RelTest [OF inv RelTest] own(1) [of l c] by (auto split: if_splits)
  next
    case (RelTestCpu l)
    then show ?thesis using cpu_step_RelTestCpu [OF inv RelTestCpu]
      by (cases "l \<in> hl m c") (auto simp: clear_owner_def)
  next
    case (RelStore l)
    then show ?thesis using cpu_step_RelStore [OF inv RelStore] own(5) by auto
  qed (auto simp: cpu_step_def xchg_def)
qed

text \<open>C7: Interrupts. While a CPU holds a lock (and has not panicked) its interrupts are off, and
  once it is outside every lock its flags are again what they were before the first \<open>acquire\<close>.\<close>

theorem spin_interrupts:
  assumes "spin_reach efl m" and "\<not> halted (pc m c)"
  shows "(hl m c \<noteq> {} \<longrightarrow> eflags (flags m c) AND FL_IF = 0) \<and>
    (hl m c = {} \<and> pc m c = Outside \<longrightarrow> eflags (flags m c) = efl c)"
  using spin_inv_flags [OF spin_reach_inv [OF assms(1)] assms(2)]
    spin_inv_own(7) [OF spin_reach_inv [OF assms(1)], of c] no_if [of "efl c"]
  by (auto simp: flags_ok_def split: if_splits)

text \<open>A machine for the witnesses: CPU 0 with interrupts enabled takes the lock \<open>KmemLock\<close>.\<close>

definition machine0 :: spin_machine where
  "machine0 = \<lparr>spins = \<lambda>_. \<lparr>locked = 0, lkname = [], lkcpu = None, lkpcs = replicate 10 0\<rparr>,
     flags = \<lambda>_. \<lparr>eflags = 0x202, ncli = 0, intena = 0\<rparr>, argp = \<lambda>_. 0, kmemw = \<lambda>_. 0,
     pc = \<lambda>_. Outside, hl = \<lambda>_. {}\<rparr>"

definition machine1 :: spin_machine where
  "machine1 = (cpu_step 0 ^^ 3) (goto 0 (AcqTest KmemLock) (pushcli 0 machine0))"

lemma machine0_reach: "spin_reach (\<lambda>_. 0x202) machine0"
  by (rule spin_reach.init) (simp add: spin_init_def machine0_def)

lemma cpu_steps_reach: "spin_reach efl m \<Longrightarrow> spin_reach efl ((cpu_step c ^^ n) m)"
  by (induction n) (auto intro: spin_reach.step spin_step.run)

lemma machine1_reach: "spin_reach (\<lambda>_. 0x202) machine1"
  unfolding machine1_def
  by (intro cpu_steps_reach spin_reach.step [OF machine0_reach] spin_step.call_acquire)
    (simp add: machine0_def)

lemma machine1_state: "hl machine1 0 = {KmemLock}" "pc machine1 0 = Outside"
  by (simp_all add: machine1_def machine0_def eval_nat_numeral cpu_step_def pushcli_def upd_flags_def
      cli_def goto_def after_pop_def popcli_def xchg_def upd_spin_def record_owner_def Let_def)

theorem spin_mutual_exclusion_witness: "KmemLock \<in> hl machine1 0 \<and> KmemLock \<notin> hl machine1 1"
  using spin_mutual_exclusion [OF machine1_reach, of KmemLock 0 1] by (auto simp: machine1_state)

theorem spin_refines_klocks_witness:
  "pc (cpu_step 0 (goto 0 (RelTest LogLock) machine1)) 0 = Halted ''release'' \<and>
    lk_release LogLock \<lparr>held = hl machine1 0\<rparr> = Panic ''release''"
proof -
  have "spin_reach (\<lambda>_. 0x202) (goto 0 (RelTest LogLock) machine1)"
    by (intro spin_reach.step [OF machine1_reach] spin_step.call_release) (simp add: machine1_state)
  from spin_refines_klocks [OF this, of 0]
  have "pc (cpu_step 0 (goto 0 (RelTest LogLock) machine1)) 0 = Halted ''release'' \<Longrightarrow> ?thesis"
    by simp
  moreover have "pc (cpu_step 0 (goto 0 (RelTest LogLock) machine1)) 0 = Halted ''release''"
    by (simp add: machine1_def machine0_def eval_nat_numeral cpu_step_def pushcli_def upd_flags_def
      cli_def goto_def after_pop_def popcli_def xchg_def upd_spin_def record_owner_def Let_def)
  ultimately show ?thesis by blast
qed

theorem spin_interrupts_witness:
  "hl machine1 0 \<noteq> {} \<and> eflags (flags machine1 0) AND FL_IF = 0"
  using spin_interrupts [OF machine1_reach, of 0] by (simp add: machine1_state)

end
