(* ===== verification/Console.thy ===== *)
theory Console
  imports Kbd Spinlock
begin

text \<open>
  The console (first half of \<open>console.c\<close>): formatted output, the text screen with its scrolling
  and its shadow copy for the graphics modes, and the line editor behind the keyboard. The video
  modes are in the theory \<open>Video\<close>. A character is a natural number: a byte, or \<open>BACKSPACE\<close>.

  \<open>crt\<close> is the text screen at \<open>0xB8000\<close>, cell by cell. \<open>pos\<close> and \<open>cursorPos\<close> never become
  negative (they start at 0 or at a value read from two byte registers), so they are natural
  numbers and the test \<open>pos < 0\<close> is never true.
\<close>

section \<open>State\<close>

abbreviation BACKSPACE :: nat where "BACKSPACE \<equiv> 0x100"
abbreviation CRTPORT :: u16 where "CRTPORT \<equiv> 0x3d4"
abbreviation INPUT_BUF :: u32 where "INPUT_BUF \<equiv> 128"

record cons_state = hw_state +
  cons_locking :: bool
  panicked :: bool
  currentvgamode :: u32
  crt :: "nat \<Rightarrow> u16"
  cursorPos :: nat
  registerCopy :: "nat \<Rightarrow> u8"
  ibuf :: "nat \<Rightarrow> u8"
  ir :: u32
  iw :: u32
  ie :: u32

section \<open>The screen\<close>

definition cell :: "nat \<Rightarrow> u16" where
  "cell c = (of_nat c AND 0xff) OR 0x0700"

text \<open>Scrolling an array of cells up by one line, with the cursor at \<open>pos\<close>.\<close>

definition scroll :: "(nat \<Rightarrow> 'b :: zero) \<Rightarrow> nat \<Rightarrow> (nat \<Rightarrow> 'b) \<times> nat" where
  "scroll a pos =
     (let a = (\<lambda>i. if i < 23 * 80 then a (i + 80) else a i);
          pos = pos - 80;
          a = (\<lambda>i. if pos \<le> i \<and> i < pos + (24 * 80 - pos) then 0 else a i)
      in (a, pos))"

definition read_cursor :: "'a hw_state_scheme \<Rightarrow> nat \<times> 'a hw_state_scheme" where
  "read_cursor s =
     (let s = outb CRTPORT 14 s in case inb (CRTPORT + 1) s of (hi, s) \<Rightarrow>
      let s = outb CRTPORT 15 s in case inb (CRTPORT + 1) s of (lo, s) \<Rightarrow>
      (unat hi * 256 + unat lo, s))"

definition write_cursor :: "nat \<Rightarrow> 'a hw_state_scheme \<Rightarrow> 'a hw_state_scheme" where
  "write_cursor pos s =
     (let s = outb CRTPORT 14 s; s = outb (CRTPORT + 1) (of_nat (pos div 256)) s;
          s = outb CRTPORT 15 s in outb (CRTPORT + 1) (of_nat pos) s)"

definition cgaputc :: "nat \<Rightarrow> 'a cons_state_scheme \<Rightarrow> ('a cons_state_scheme, unit) kres" where
  "cgaputc c s =
     (case read_cursor s of (pos, s) \<Rightarrow>
      if currentvgamode s = 0x03 then
        let (a, pos) =
              (if c = 10 then (crt s, pos + (80 - pos mod 80))
               else if c = BACKSPACE then (crt s, if pos > 0 then pos - 1 else pos)
               else ((crt s)(pos := cell c), pos + 1))
        in if pos > 25 * 80 then Panic ''pos under/overflow''
           else
             let (a, pos) = (if pos div 80 \<ge> 24 then scroll a pos else (a, pos));
                 s = write_cursor pos s
             in Ret () (s\<lparr>crt := a(pos := cell 32)\<rparr>)
      else
        let (a, pos) =
              (if c = 10 then (registerCopy s, cursorPos s + (80 - cursorPos s mod 80))
               else if c = BACKSPACE
                 then (registerCopy s, if cursorPos s > 0 then cursorPos s - 1 else cursorPos s)
               else ((registerCopy s)(cursorPos s := ucast (cell c)), cursorPos s + 1))
        in if pos > 25 * 80 then Panic ''pos under/overflow''
           else
             let (a, pos) = (if pos div 80 \<ge> 24 then scroll a pos else (a, pos))
             in Ret () (s\<lparr>registerCopy := a, cursorPos := pos\<rparr>))"

text \<open>\<open>consputc\<close>. Once a CPU has panicked every other one stops here in an endless loop.\<close>

definition consputc :: "nat \<Rightarrow> 'a cons_state_scheme \<Rightarrow> ('a cons_state_scheme, unit) kres" where
  "consputc c s =
     (if panicked s then Panic ''frozen''
      else
        let s = (if c = BACKSPACE then uartputc 8 (uartputc 32 (uartputc 8 s))
                 else uartputc (of_nat c) s)
        in cgaputc c s)"

section \<open>Formatted output\<close>

fun consputs :: "nat list \<Rightarrow> 'a cons_state_scheme \<Rightarrow> ('a cons_state_scheme, unit) kres" where
  "consputs [] s = Ret () s"
| "consputs (c # cs) s = kbind (consputc c s) (\<lambda>_. consputs cs)"

definition digit_char :: "nat \<Rightarrow> nat" where
  "digit_char d = (if d < 10 then 48 + d else 87 + d)"

text \<open>The digits in the order in which they go into \<open>buf\<close>; both bases the kernel uses, 10 and
  16, are at least 2.\<close>

function buf_digits :: "nat \<Rightarrow> nat \<Rightarrow> nat list" where
  "buf_digits base x =
     digit_char (x mod base) #
     (if x div base = 0 \<or> base < 2 then [] else buf_digits base (x div base))"
  by pat_completeness auto

termination
proof (relation "measure snd")
  fix base x :: nat
  assume "\<not> (x div base = 0 \<or> base < 2)"
  then have "0 < x" "1 < base" by (auto intro: Nat.gr0I)
  then show "((base, x div base), base, x) \<in> measure snd" by simp
qed simp

declare buf_digits.simps [simp del]

definition printint_buf :: "u32 \<Rightarrow> nat \<Rightarrow> bool \<Rightarrow> nat list" where
  "printint_buf xx base sign =
     (let neg = (sign \<and> sint xx < 0);
          x = (if neg then - xx else xx)
      in buf_digits base (unat x) @ (if neg then [45] else []))"

definition printint :: "u32 \<Rightarrow> nat \<Rightarrow> bool \<Rightarrow> 'a cons_state_scheme \<Rightarrow> ('a cons_state_scheme, unit) kres" where
  "printint xx base sign = consputs (rev (printint_buf xx base sign))"

text \<open>\<open>cprintf\<close>'s loop. \<open>arg i\<close> is the \<open>i\<close>-th variable argument as a word, \<open>str i\<close> the string it
  points to if it is used as a pointer (\<open>None\<close> for the null pointer).\<close>

fun cprintf_loop :: "u8 list \<Rightarrow> (nat \<Rightarrow> u32) \<Rightarrow> (nat \<Rightarrow> u8 list option) \<Rightarrow> nat \<Rightarrow>
    'a cons_state_scheme \<Rightarrow> ('a cons_state_scheme, unit) kres" where
  "cprintf_loop [] arg str i s = Ret () s"
| "cprintf_loop [c] arg str i s = (if c = 0x25 then Ret () s else consputc (unat c) s)"
| "cprintf_loop (c # d # cs) arg str i s =
     (if c \<noteq> 0x25 then kbind (consputc (unat c) s) (\<lambda>_. cprintf_loop (d # cs) arg str i)
      else if d = 0x64 then kbind (printint (arg i) 10 True s) (\<lambda>_. cprintf_loop cs arg str (Suc i))
      else if d = 0x78 \<or> d = 0x70
        then kbind (printint (arg i) 16 False s) (\<lambda>_. cprintf_loop cs arg str (Suc i))
      else if d = 0x73
        then kbind (consputs (case str i of None \<Rightarrow> [40, 110, 117, 108, 108, 41] | Some bs \<Rightarrow> map unat bs) s)
               (\<lambda>_. cprintf_loop cs arg str (Suc i))
      else if d = 0x25 then kbind (consputc 0x25 s) (\<lambda>_. cprintf_loop cs arg str i)
      else kbind (consputc 0x25 s) (\<lambda>_ s. kbind (consputc (unat d) s) (\<lambda>_. cprintf_loop cs arg str i)))"

definition cprintf :: "u8 list option \<Rightarrow> (nat \<Rightarrow> u32) \<Rightarrow> (nat \<Rightarrow> u8 list option) \<Rightarrow>
    'a cons_state_scheme \<Rightarrow> ('a cons_state_scheme, unit) kres" where
  "cprintf fmt arg str s =
     (let locking = cons_locking s in
      kbind (if locking then lk_acquire ConsLock s else Ret () s) (\<lambda>_ s.
      case fmt of
        None \<Rightarrow> Panic ''null fmt''
      | Some f \<Rightarrow>
          kbind (cprintf_loop f arg str 0 s) (\<lambda>_ s.
          if locking then lk_release ConsLock s else Ret () s)))"

text \<open>String constants of the source as bytes.\<close>

definition cstr :: "string \<Rightarrow> u8 list" where
  "cstr s = map (\<lambda>c. of_nat (of_char c)) s"

text \<open>What \<open>panic\<close> prints before it stops the machine; \<open>lapicid\<close> and the saved program counters
  are arguments.\<close>

definition panic :: "u32 \<Rightarrow> u32 list \<Rightarrow> u8 list \<Rightarrow> 'a cons_state_scheme \<Rightarrow> ('a cons_state_scheme, unit) kres" where
  "panic lapicid pcs msg s =
     (let s = s\<lparr>cons_locking := False\<rparr> in
      kbind (cprintf (Some (cstr ''lapicid %d: panic: '')) (\<lambda>_. lapicid) (\<lambda>_. None) s) (\<lambda>_ s.
      kbind (cprintf (Some msg) (\<lambda>_. 0) (\<lambda>_. None) s) (\<lambda>_ s.
      kbind (cprintf (Some [10]) (\<lambda>_. 0) (\<lambda>_. None) s) (\<lambda>_ s.
      kbind (fold (\<lambda>pc m. kbind m (\<lambda>_. cprintf (Some (cstr '' %p'')) (\<lambda>_. pc) (\<lambda>_. None))) pcs (Ret () s)) (\<lambda>_ s.
      Ret () (s\<lparr>panicked := True\<rparr>))))))"

section \<open>Input\<close>

definition ipush :: "u8 \<Rightarrow> 'a cons_state_scheme \<Rightarrow> 'a cons_state_scheme" where
  "ipush c s = s\<lparr>ibuf := (ibuf s)(unat (ie s mod INPUT_BUF) := c), ie := ie s + 1\<rparr>"

text \<open>The loop of Control-U, with \<open>n = e - w\<close>.\<close>

fun kill_line :: "nat \<Rightarrow> 'a cons_state_scheme \<Rightarrow> ('a cons_state_scheme, unit) kres" where
  "kill_line 0 s = Ret () s"
| "kill_line (Suc n) s =
     (if ibuf s (unat ((ie s - 1) mod INPUT_BUF)) = 10 then Ret () s
      else kbind (consputc BACKSPACE (s\<lparr>ie := ie s - 1\<rparr>)) (\<lambda>_. kill_line n))"

text \<open>One character of \<open>consoleintr\<close>; the result is \<open>True\<close> if it asks for the process list.\<close>

definition consoleintr_char :: "int \<Rightarrow> 'a cons_state_scheme \<Rightarrow> ('a cons_state_scheme, bool) kres" where
  "consoleintr_char c s =
     (if c = 16 then Ret True s
      else if c = 21 then kbind (kill_line (unat (ie s - iw s)) s) (\<lambda>_ s. Ret False s)
      else if c = 8 \<or> c = 0x7f then
        (if ie s \<noteq> iw s then kbind (consputc BACKSPACE (s\<lparr>ie := ie s - 1\<rparr>)) (\<lambda>_ s. Ret False s)
         else Ret False s)
      else if c \<noteq> 0 \<and> ie s - ir s < INPUT_BUF then
        (let c = (if c = 13 then 10 else c);
             s = ipush (of_int c) s
         in kbind (consputc (nat c) s) (\<lambda>_ s.
            if c = 10 \<or> c = 4 \<or> ie s = ir s + INPUT_BUF
            then kbind (wakeup ChInput (s\<lparr>iw := ie s\<rparr>)) (\<lambda>_ s. Ret False s)
            else Ret False s))
      else Ret False s)"

partial_function (option) consoleintr_loop ::
  "('a cons_state_scheme \<Rightarrow> int \<times> 'a cons_state_scheme) \<Rightarrow> bool \<Rightarrow> 'a cons_state_scheme \<Rightarrow>
    ('a cons_state_scheme, bool) kres option" where
  "consoleintr_loop getc d s =
     (case getc s of (c, s) \<Rightarrow>
      if c < 0 then Some (Ret d s)
      else case consoleintr_char c s of
        Ret d' s \<Rightarrow> consoleintr_loop getc (d \<or> d') s
      | Panic e \<Rightarrow> Some (Panic e)
      | Sleep ch s \<Rightarrow> Some (Sleep ch s))"

text \<open>The part of \<open>consoleread\<close> between \<open>iunlock\<close> and \<open>ilock\<close>, with \<open>n\<close> of \<open>target\<close> bytes still to
  read and \<open>dst\<close> the bytes stored so far.\<close>

fun consoleread_loop :: "nat \<Rightarrow> nat \<Rightarrow> u8 list \<Rightarrow> 'a cons_state_scheme \<Rightarrow>
    ('a cons_state_scheme, int \<times> u8 list) kres" where
  "consoleread_loop target 0 dst s =
     kbind (lk_release ConsLock s) (\<lambda>_ s. Ret (int target, dst) s)"
| "consoleread_loop target (Suc n) dst s =
     (if ir s = iw s then
        with_proc s (\<lambda>p.
          if p_killed (procs s p) then kbind (lk_release ConsLock s) (\<lambda>_ s. Ret (- 1, dst) s)
          else sleep ChInput ConsLock s)
      else
        let c = ibuf s (unat (ir s mod INPUT_BUF));
            s = s\<lparr>ir := ir s + 1\<rparr>
        in if c = 4 then
             (let s = (if Suc n < target then s\<lparr>ir := ir s - 1\<rparr> else s)
              in kbind (lk_release ConsLock s) (\<lambda>_ s. Ret (int target - int (Suc n), dst) s))
           else if c = 10 then
             kbind (lk_release ConsLock s) (\<lambda>_ s. Ret (int target - int n, dst @ [c]) s)
           else consoleread_loop target n (dst @ [c]) s)"

definition consolewrite_body :: "u8 list \<Rightarrow> 'a cons_state_scheme \<Rightarrow> ('a cons_state_scheme, int) kres" where
  "consolewrite_body bs s =
     kbind (lk_acquire ConsLock s) (\<lambda>_ s.
     kbind (consputs (map unat bs) s) (\<lambda>_ s.
     kbind (lk_release ConsLock s) (\<lambda>_ s. Ret (int (length bs)) s)))"

partial_function (option) consoleget_loop ::
  "'a hw_state_scheme \<Rightarrow> (int \<times> 'a hw_state_scheme) option" where
  "consoleget_loop s =
     (case kbdgetc s of (c, s) \<Rightarrow>
      if c \<le> 0 then (if c = 0 then consoleget_loop (snd (kbdgetc s)) else consoleget_loop s)
      else Some (c, s))"

definition consoleget :: "'a cons_state_scheme \<Rightarrow> ('a cons_state_scheme, int) kres option" where
  "consoleget s =
     (case lk_acquire ConsLock s of
        Ret u s \<Rightarrow> (case consoleget_loop s of
          None \<Rightarrow> None
        | Some (c, s) \<Rightarrow> Some (kbind (lk_release ConsLock s) (\<lambda>_ s. Ret c s)))
      | Panic e \<Rightarrow> Some (Panic e)
      | Sleep ch s \<Rightarrow> Some (Sleep ch s))"

section \<open>The process listing\<close>

definition state_name :: "procstate \<Rightarrow> string" where
  "state_name st = (case st of UNUSED \<Rightarrow> ''unused'' | EMBRYO \<Rightarrow> ''embryo'' | SLEEPING \<Rightarrow> ''sleep ''
     | RUNNABLE \<Rightarrow> ''runble'' | RUNNING \<Rightarrow> ''run   '' | ZOMBIE \<Rightarrow> ''zombie'')"

text \<open>A word of kernel memory.\<close>

definition kword :: "'a kmem_state_scheme \<Rightarrow> u32 \<Rightarrow> u32" where
  "kword s a = pages s (a AND NOT 0xFFF) (unat (a AND 0xFFF) div 4)"

definition procdump_pcs :: "u32 list \<Rightarrow> 'a cons_state_scheme \<Rightarrow> ('a cons_state_scheme, unit) kres" where
  "procdump_pcs pcs s =
     fold (\<lambda>pc m. kbind m (\<lambda>_. cprintf (Some (cstr '' %p'')) (\<lambda>_. pc) (\<lambda>_. None)))
       (takeWhile (\<lambda>pc. pc \<noteq> 0) pcs) (Ret () s)"

definition procdump_one :: "nat \<Rightarrow> 'a cons_state_scheme \<Rightarrow> ('a cons_state_scheme, unit) kres" where
  "procdump_one i s =
     (let p = procs s i in
      if p_state p = UNUSED then Ret () s
      else
        kbind (cprintf (Some (cstr ''%d %s %s'')) (\<lambda>_. of_int (p_pid p))
          (\<lambda>k. if k = 1 then Some (cstr (state_name (p_state p))) else Some (cstr (p_name p))) s) (\<lambda>_ s.
        kbind (if p_state p = SLEEPING
               then procdump_pcs (getcallerpcs (ctx_ebp (p_context p) + 8) (kword s)) s
               else Ret () s) (\<lambda>_ s.
        cprintf (Some [10]) (\<lambda>_. 0) (\<lambda>_. None) s)))"

definition procdump :: "'a cons_state_scheme \<Rightarrow> ('a cons_state_scheme, unit) kres" where
  "procdump s = fold (\<lambda>i m. kbind m (\<lambda>_. procdump_one i)) [0..<NPROC] (Ret () s)"

definition consoleintr :: "('a cons_state_scheme \<Rightarrow> int \<times> 'a cons_state_scheme) \<Rightarrow>
    'a cons_state_scheme \<Rightarrow> ('a cons_state_scheme, unit) kres option" where
  "consoleintr getc s =
     (case lk_acquire ConsLock s of
        Ret u s \<Rightarrow> (case consoleintr_loop getc False s of
          None \<Rightarrow> None
        | Some r \<Rightarrow> Some (kbind r (\<lambda>doprocdump s.
            kbind (lk_release ConsLock s) (\<lambda>_ s. if doprocdump then procdump s else Ret () s))))
      | Panic e \<Rightarrow> Some (Panic e)
      | Sleep ch s \<Rightarrow> Some (Sleep ch s))"

definition kbdintr :: "'a cons_state_scheme \<Rightarrow> ('a cons_state_scheme, unit) kres option" where
  "kbdintr = consoleintr kbdgetc"

definition uartintr :: "'a cons_state_scheme \<Rightarrow> ('a cons_state_scheme, unit) kres option" where
  "uartintr = consoleintr uartgetc"

section \<open>Numbers\<close>

definition digit_val :: "nat \<Rightarrow> nat" where
  "digit_val c = (if c < 58 then c - 48 else c - 87)"

text \<open>The number that a list of digits denotes, most significant digit first.\<close>

definition number :: "nat \<Rightarrow> nat list \<Rightarrow> nat" where
  "number base ds = foldl (\<lambda>a c. a * base + digit_val c) 0 ds"

definition signed_number :: "nat list \<Rightarrow> int" where
  "signed_number ds = (if ds \<noteq> [] \<and> hd ds = 45 then - int (number 10 (tl ds)) else int (number 10 ds))"

lemma number_snoc: "number base (ds @ [c]) = number base ds * base + digit_val c"
  by (simp add: number_def)

lemma digit_val_char: "d < 16 \<Longrightarrow> digit_val (digit_char d) = d"
  by (simp add: digit_val_def digit_char_def)

lemma buf_digits_number:
  assumes "2 \<le> base" and "base \<le> 16"
  shows "number base (rev (buf_digits base x)) = x"
  using assms
proof (induction base x rule: buf_digits.induct)
  case (1 base x)
  then have d: "digit_val (digit_char (x mod base)) = x mod base"
    by (intro digit_val_char) (meson less_le_trans mod_less_divisor order_less_le_trans zero_less_numeral)
  show ?case
  proof (cases "x div base = 0")
    case True
    then have "x < base" using 1(2) by (simp add: div_eq_0_iff)
    with d True show ?thesis by (simp add: buf_digits.simps [of base x] number_def)
  next
    case False
    with 1 have "number base (rev (buf_digits base (x div base))) = x div base" by simp
    with False 1(2) d show ?thesis
      by (simp add: buf_digits.simps [of base x] number_snoc)
  qed
qed

lemma buf_digits_length:
  assumes "2 \<le> base" and "x < base ^ Suc k"
  shows "length (buf_digits base x) \<le> Suc k"
  using assms(2)
proof (induction k arbitrary: x)
  case 0
  with assms(1) show ?case by (simp add: buf_digits.simps)
next
  case (Suc k)
  have "x div base < base ^ Suc k"
    using Suc.prems assms(1) by (intro less_mult_imp_div_less) (simp add: mult.commute)
  from Suc.IH [OF this] show ?case by (simp add: buf_digits.simps [of base x])
qed

lemma buf_digits_chars: "c \<in> set (buf_digits base x) \<Longrightarrow> 48 \<le> c"
proof (induction base x rule: buf_digits.induct)
  case (1 base x)
  have "48 \<le> digit_char d" for d by (simp add: digit_char_def)
  with 1 show ?case by (auto simp: buf_digits.simps [of base x] split: if_splits)
qed

lemma buf_digits_first: "rev (buf_digits base x) \<noteq> [] \<and> hd (rev (buf_digits base x)) \<noteq> 45"
proof -
  have "rev (buf_digits base x) \<noteq> []" by (simp add: buf_digits.simps)
  moreover from this have "hd (rev (buf_digits base x)) \<in> set (buf_digits base x)"
    by (metis hd_in_set set_rev)
  then have "48 \<le> hd (rev (buf_digits base x))" by (rule buf_digits_chars)
  ultimately show ?thesis by auto
qed

text \<open>C30: What \<open>printint\<close> prints denotes its argument: read as a signed decimal number it is the
  argument as a signed integer (also for the most negative one), read in base 16 it is the
  argument as an unsigned one.\<close>

theorem printint_roundtrip:
  "signed_number (rev (printint_buf xx 10 True)) = sint xx \<and>
    number 16 (rev (printint_buf xx 16 False)) = unat xx"
proof -
  have "signed_number (rev (printint_buf xx 10 True)) = sint xx"
  proof (cases "sint xx < 0")
    case True
    then have "xx \<noteq> 0" "\<not> unat xx < 2147483648" by (auto simp: sint32 simp del: of_nat_unat split: if_splits)
    then have "int (unat (- xx)) = - sint xx"
      using unat_uminus32 [of xx] unat_lt_2p32 [of xx]
      by (simp add: sint32 of_nat_diff less_imp_le del: unat_lt_2p32 of_nat_unat)
    with True show ?thesis
      by (simp add: printint_buf_def signed_number_def buf_digits_number del: of_nat_unat)
  next
    case False
    then have "sint xx = int (unat xx)" by (auto simp: sint32 simp del: of_nat_unat split: if_splits)
    with False buf_digits_first [of 10 "unat xx"] show ?thesis
      by (simp add: printint_buf_def signed_number_def buf_digits_number del: of_nat_unat)
  qed
  then show ?thesis by (simp add: printint_buf_def buf_digits_number)
qed

text \<open>\<open>printint\<close> never writes past the end of its buffer of 16 characters, in either base and
  with or without a sign.\<close>

theorem printint_fits: "length (printint_buf xx 10 sign) \<le> 11 \<and> length (printint_buf xx 16 sign) \<le> 9"
proof -
  have ten: "length (buf_digits 10 (unat x)) \<le> Suc 9" for x :: u32
    by (rule buf_digits_length) (simp_all add: order_less_trans [OF unat_lt_2p32])
  have hex: "length (buf_digits 16 (unat x)) \<le> Suc 7" for x :: u32
    by (rule buf_digits_length) (simp_all add: order_less_le_trans [OF unat_lt_2p32])
  show ?thesis
    using ten [of xx] ten [of "- xx"] hex [of xx] hex [of "- xx"]
    by (simp add: printint_buf_def Let_def)
qed

section \<open>The screen and its cursor\<close>

definition cursor_at :: "'a hw_state_scheme \<Rightarrow> nat \<Rightarrow> bool" where
  "cursor_at s pos \<longleftrightarrow> pos < 65536 \<and>
     reg_val CRTPORT (CRTPORT + 1) 14 (io s) = Some (of_nat (pos div 256)) \<and>
     reg_val CRTPORT (CRTPORT + 1) 15 (io s) = Some (of_nat pos)"

lemma read_cursor_at:
  assumes "indexed_port (dev s) CRTPORT (CRTPORT + 1)" and "cursor_at s pos"
  shows "read_cursor s = (pos, s\<lparr>io := [In (CRTPORT + 1), Out CRTPORT 15, In (CRTPORT + 1), Out CRTPORT 14] @ io s\<rparr>)"
proof -
  have rb: "last_out CRTPORT h = Some i \<Longrightarrow> reg_val CRTPORT (CRTPORT + 1) i h = Some v \<Longrightarrow> dev s h (CRTPORT + 1) = v" for h i v
    using assms(1) unfolding indexed_port_def by blast
  have hi: "dev s (Out CRTPORT 14 # io s) (CRTPORT + 1) = of_nat (pos div 256)"
    using assms(2) by (intro rb [where i = 14]) (simp_all add: cursor_at_def)
  have lo: "dev s (Out CRTPORT 15 # In (CRTPORT + 1) # Out CRTPORT 14 # io s) (CRTPORT + 1) = of_nat pos"
    using assms(2) by (intro rb [where i = 15]) (simp_all add: cursor_at_def)
  have "pos div 256 < 256" using assms(2) by (simp add: cursor_at_def less_mult_imp_div_less)
  then have "unat (of_nat (pos div 256) :: u8) * 256 + unat (of_nat pos :: u8) = pos"
    by (simp add: unat_of_nat div_mult_mod_eq)
  with hi lo show ?thesis by (simp add: read_cursor_def inb_def outb_def Let_def)
qed

lemma write_cursor_at: "pos < 65536 \<Longrightarrow> cursor_at (write_cursor pos s) pos"
  by (simp add: cursor_at_def write_cursor_def Let_def)

text \<open>What one character does to a screen \<open>a\<close> of 24 lines of 80 columns with the cursor at
  \<open>pos\<close>; \<open>v\<close> is the cell the character is drawn as.\<close>

definition text_move :: "nat \<Rightarrow> 'b \<Rightarrow> (nat \<Rightarrow> 'b) \<Rightarrow> nat \<Rightarrow> (nat \<Rightarrow> 'b) \<times> nat" where
  "text_move c v a pos =
     (if c = 10 then (a, (pos div 80 + 1) * 80)
      else if c = BACKSPACE then (a, pos - 1)
      else (a(pos := v), pos + 1))"

definition text_put :: "nat \<Rightarrow> 'b :: zero \<Rightarrow> (nat \<Rightarrow> 'b) \<Rightarrow> nat \<Rightarrow> (nat \<Rightarrow> 'b) \<times> nat" where
  "text_put c v a pos =
     (case text_move c v a pos of (a, pos) \<Rightarrow>
      if pos < 1920 then (a, pos)
      else (\<lambda>i. if i < 1840 then a (i + 80) else if i < 1920 then 0 else a i, 1840))"

lemma next_line: "pos + (80 - pos mod 80) = (pos div 80 + 1) * 80" for pos :: nat
proof -
  have "q * 80 + r + (80 - r) = (q + 1) * 80" if "r < 80" for q r :: nat using that by simp
  from this [of "pos mod 80" "pos div 80"] show ?thesis by (simp only: div_mult_mod_eq mod_less_divisor zero_less_numeral)
qed

lemma text_move_bound:
  assumes "pos < 1920" and "text_move c v a pos = (a', pos')"
  shows "pos' \<le> 1920"
proof -
  have "pos div 80 + 1 \<le> 24" using assms(1) by (simp add: less_mult_imp_div_less Suc_leI)
  then show ?thesis using assms by (auto simp: text_move_def split: if_splits)
qed

lemma text_put_bound:
  assumes "pos < 1920" and "text_put c v a pos = (a', pos')"
  shows "pos' < 1920"
  using assms by (auto simp: text_put_def split: if_splits prod.splits)

lemma scroll_at_end: "scroll a 1920 = (\<lambda>i. if i < 1840 then a (i + 80) else if i < 1920 then 0 else a i, 1840)"
  by (auto simp: scroll_def)

lemma text_put_code:
  assumes "pos < 1920"
  shows "(let (a, pos) = text_move c v a pos in
      if pos > 25 * 80 then Panic e
      else f (if pos div 80 \<ge> 24 then scroll a pos else (a, pos))) = f (text_put c v a pos)"
proof -
  obtain a' pos' where m: "text_move c v a pos = (a', pos')" by fastforce
  have le: "pos' \<le> 1920" by (rule text_move_bound [OF assms m])
  show ?thesis
  proof (cases "pos' = 1920")
    case True
    then show ?thesis by (simp add: m text_put_def scroll_at_end)
  next
    case False
    with le have "pos' < 1920" "pos' div 80 < 24" by (simp_all add: less_mult_imp_div_less)
    then show ?thesis by (simp add: m text_put_def)
  qed
qed

lemma cgaputc_text:
  assumes dev: "indexed_port (dev s) CRTPORT (CRTPORT + 1)" and mode: "currentvgamode s = 0x03"
    and pos: "cursor_at s pos" "pos < 1920"
  shows "cgaputc c s = (case text_put c (cell c) (crt s) pos of (a, pos') \<Rightarrow>
    Ret () ((write_cursor pos' (snd (read_cursor s)))\<lparr>crt := a(pos' := cell 32)\<rparr>))"
proof -
  obtain t where rc: "read_cursor s = (pos, t)" "currentvgamode t = 3" "crt t = crt s"
    using mode by (simp add: read_cursor_at [OF dev pos(1)])
  have "cgaputc c s = (let (a, pos) = text_move c (cell c) (crt s) pos in
      if pos > 25 * 80 then Panic ''pos under/overflow''
      else (\<lambda>(a, pos'). Ret () ((write_cursor pos' t)\<lparr>crt := a(pos' := cell 32)\<rparr>))
        (if pos div 80 \<ge> 24 then scroll a pos else (a, pos)))"
    by (simp add: cgaputc_def rc text_move_def next_line Let_def split: prod.splits)
  then show ?thesis unfolding text_put_code [OF pos(2)] by (simp add: rc)
qed

lemma read_cursor_frame: "snd (read_cursor s) = s\<lparr>io := io (snd (read_cursor s))\<rparr>"
  by (simp add: read_cursor_def inb_def outb_def Let_def)

lemma cons_frames [simp]:
  "currentvgamode (s\<lparr>io := h\<rparr>) = currentvgamode s" "registerCopy (s\<lparr>io := h\<rparr>) = registerCopy s"
  "cursorPos (s\<lparr>io := h\<rparr>) = cursorPos s" "crt (s\<lparr>io := h\<rparr>) = crt s" "panicked (s\<lparr>io := h\<rparr>) = panicked s"
  by (cases s; simp)+

lemma cgaputc_shadow:
  assumes mode: "currentvgamode s \<noteq> 0x03" and pos: "cursorPos s < 1920"
  shows "cgaputc c s = (case text_put c (ucast (cell c)) (registerCopy s) (cursorPos s) of (a, pos') \<Rightarrow>
    Ret () (snd (read_cursor s)\<lparr>registerCopy := a, cursorPos := pos'\<rparr>))"
proof -
  obtain p t where rc: "read_cursor s = (p, t)" by fastforce
  then have "t = s\<lparr>io := io t\<rparr>" using read_cursor_frame [of s] by simp
  then have "currentvgamode t = currentvgamode s" "registerCopy t = registerCopy s" "cursorPos t = cursorPos s"
    by (metis cons_frames)+
  note eq = rc this
  have "cgaputc c s = (let (a, pos) = text_move c (ucast (cell c)) (registerCopy s) (cursorPos s) in
      if pos > 25 * 80 then Panic ''pos under/overflow''
      else (\<lambda>(a, pos'). Ret () (t\<lparr>registerCopy := a, cursorPos := pos'\<rparr>))
        (if pos div 80 \<ge> 24 then scroll a pos else (a, pos)))"
    using mode by (simp add: cgaputc_def eq text_move_def next_line Let_def split: prod.splits)
  then show ?thesis unfolding text_put_code [OF pos] by (simp add: rc)
qed

section \<open>The console stays usable\<close>

text \<open>In text mode the cursor registers hold a position on the screen; in the graphics modes
  \<open>cursorPos\<close> does.\<close>

definition cons_ok :: "'a cons_state_scheme \<Rightarrow> bool" where
  "cons_ok s \<longleftrightarrow> \<not> panicked s \<and>
     (if currentvgamode s = 0x03
      then indexed_port (dev s) CRTPORT (CRTPORT + 1) \<and> (\<exists>pos<1920. cursor_at s pos)
      else cursorPos s < 1920)"

definition serial_ev :: "ioev \<Rightarrow> bool" where
  "serial_ev e = (case e of Out p v \<Rightarrow> p = COM1 | In p \<Rightarrow> True | _ \<Rightarrow> False)"

lemma uartputc_frame: "\<exists>es. uartputc c s = s\<lparr>io := es @ io s\<rparr> \<and> (\<forall>e\<in>set es. serial_ev e)"
proof (cases "uart s")
  case True
  obtain k where k: "io (uart_wait 128 s) = replicate k (In (COM1 + 5)) @ io s"
    "uart_wait 128 s = s\<lparr>io := io (uart_wait 128 s)\<rparr>" using uart_wait_bounded by metis
  have "uartputc c s = outb COM1 c (s\<lparr>io := io (uart_wait 128 s)\<rparr>)"
    using True k(2) by (simp add: uartputc_def)
  then have "uartputc c s = s\<lparr>io := (Out COM1 c # replicate k (In (COM1 + 5))) @ io s\<rparr>"
    by (simp add: k(1) outb_def)
  moreover have "\<forall>e\<in>set (Out COM1 c # replicate k (In (COM1 + 5))). serial_ev e"
    by (simp add: serial_ev_def)
  ultimately show ?thesis by blast
next
  case False
  then have "uartputc c s = s\<lparr>io := [] @ io s\<rparr>" by (simp add: uartputc_def)
  then show ?thesis by (intro exI [of _ "[]"]) simp
qed

lemma serial_skip:
  assumes "\<forall>e\<in>set es. serial_ev e"
  shows "last_out CRTPORT (es @ h) = last_out CRTPORT h"
    "reg_val CRTPORT 0x3d5 i (es @ h) = reg_val CRTPORT 0x3d5 i h"
proof -
  have "last_out CRTPORT (es @ h) = last_out CRTPORT h \<and>
    reg_val CRTPORT 0x3d5 i (es @ h) = reg_val CRTPORT 0x3d5 i h"
    using assms by (induction es) (auto simp: serial_ev_def split: ioev.splits)
  then show "last_out CRTPORT (es @ h) = last_out CRTPORT h"
    "reg_val CRTPORT 0x3d5 i (es @ h) = reg_val CRTPORT 0x3d5 i h" by auto
qed

lemma cursor_at_serial:
  "\<forall>e\<in>set es. serial_ev e \<Longrightarrow> cursor_at (s\<lparr>io := es @ io s\<rparr>) pos = cursor_at s pos"
  by (simp add: cursor_at_def serial_skip)

text \<open>The bytes that \<open>consputc\<close> sends to the serial port.\<close>

definition uart_bytes :: "nat \<Rightarrow> u8 list" where
  "uart_bytes c = (if c = BACKSPACE then [8, 32, 8] else [of_nat c])"

lemma consputc_uart:
  "consputc c s = (if panicked s then Panic ''frozen'' else cgaputc c (fold uartputc (uart_bytes c) s))"
  by (simp add: consputc_def uart_bytes_def)

lemma fold_uartputc_frame:
  "\<exists>es. fold uartputc cs s = s\<lparr>io := es @ io s\<rparr> \<and> (\<forall>e\<in>set es. serial_ev e)"
proof (induction cs arbitrary: s)
  case Nil
  then show ?case by (intro exI [of _ "[]"]) simp
next
  case (Cons c cs)
  from uartputc_frame obtain es where es: "uartputc c s = s\<lparr>io := es @ io s\<rparr>" "\<forall>e\<in>set es. serial_ev e"
    by blast
  from Cons [of "uartputc c s"] obtain fs where
    "fold uartputc cs (uartputc c s) = (uartputc c s)\<lparr>io := fs @ io (uartputc c s)\<rparr>" "\<forall>e\<in>set fs. serial_ev e"
    by blast
  with es show ?case by (intro exI [of _ "fs @ es"]) auto
qed

lemma cons_ok_serial:
  assumes "\<forall>e\<in>set es. serial_ev e"
  shows "cons_ok (s\<lparr>io := es @ io s\<rparr>) = cons_ok s"
  by (simp add: cons_ok_def cursor_at_serial [OF assms])

lemma cons_ok_held [simp]: "cons_ok (s\<lparr>held := h\<rparr>) = cons_ok s"
  by (simp add: cons_ok_def cursor_at_def)

text \<open>What an operation that prints may change.\<close>

definition printed :: "'a cons_state_scheme \<Rightarrow> 'a cons_state_scheme \<Rightarrow> bool" where
  "printed s t \<longleftrightarrow> t = s\<lparr>io := io t, crt := crt t, cursorPos := cursorPos t, registerCopy := registerCopy t\<rparr>"

lemma printed_refl [simp]: "printed s s"
  by (simp add: printed_def)

lemma printed_trans: "printed s t \<Longrightarrow> printed t u \<Longrightarrow> printed s u"
  by (cases s; cases t; cases u) (simp add: printed_def)

lemma cons_printed_frames:
  "held (s\<lparr>io := h, crt := c, cursorPos := p, registerCopy := r\<rparr>) = held s"
  "cons_locking (s\<lparr>io := h, crt := c, cursorPos := p, registerCopy := r\<rparr>) = cons_locking s"
  by simp_all

lemma cgaputc_ok:
  assumes "cons_ok s"
  shows "returns (\<lambda>_ t. cons_ok t \<and> printed s t) (cgaputc c s)"
proof (cases "currentvgamode s = 3")
  case True
  with assms obtain pos where pos: "cursor_at s pos" "pos < 1920"
    and dev: "indexed_port (dev s) CRTPORT (CRTPORT + 1)" by (auto simp: cons_ok_def)
  obtain a pos' where put: "text_put c (cell c) (crt s) pos = (a, pos')" by fastforce
  have pos': "pos' < 1920" by (rule text_put_bound [OF pos(2) put])
  let ?t = "(write_cursor pos' (snd (read_cursor s)))\<lparr>crt := a(pos' := cell 32)\<rparr>"
  have "cursor_at ?t pos'" using write_cursor_at [of pos' "snd (read_cursor s)"] pos'
    by (simp add: cursor_at_def)
  then have "cons_ok ?t" using assms True pos' dev
    by (auto simp: cons_ok_def write_cursor_def outb_def read_cursor_at [OF dev pos(1)])
  moreover have "printed s ?t"
    by (simp add: printed_def write_cursor_def outb_def read_cursor_at [OF dev pos(1)])
  ultimately show ?thesis by (simp add: cgaputc_text [OF dev True pos] put)
next
  case False
  with assms have pos: "cursorPos s < 1920" by (simp add: cons_ok_def)
  obtain a pos' where put: "text_put c (ucast (cell c)) (registerCopy s) (cursorPos s) = (a, pos')" by fastforce
  have "pos' < 1920" by (rule text_put_bound [OF pos put])
  with False assms show ?thesis
    by (simp add: cgaputc_shadow [OF False pos] put) (subst (1 2) read_cursor_frame, simp add: cons_ok_def printed_def)
qed

lemma consputc_ok:
  assumes "cons_ok s"
  shows "returns (\<lambda>_ t. cons_ok t \<and> printed s t) (consputc c s)"
proof -
  obtain es where es: "fold uartputc (uart_bytes c) s = s\<lparr>io := es @ io s\<rparr>" "\<forall>e\<in>set es. serial_ev e"
    using fold_uartputc_frame by blast
  have "cons_ok (s\<lparr>io := es @ io s\<rparr>)" using assms by (simp add: cons_ok_serial [OF es(2)])
  from cgaputc_ok [OF this, of c] have "returns (\<lambda>_ t. cons_ok t \<and> printed s t) (cgaputc c (s\<lparr>io := es @ io s\<rparr>))"
    by (rule returns_mono) (auto simp: printed_def)
  with assms es(1) show ?thesis by (simp add: consputc_uart cons_ok_def)
qed

lemma consputs_ok:
  assumes "cons_ok s"
  shows "returns (\<lambda>_ t. cons_ok t \<and> printed s t) (consputs cs s)"
  using assms
proof (induction cs arbitrary: s)
  case (Cons c cs)
  show ?case unfolding consputs.simps
  proof (rule returns_kbindI [OF consputc_ok [OF Cons.prems]])
    fix a :: unit and t assume t: "cons_ok t \<and> printed s t"
    then have "returns (\<lambda>_ u. cons_ok u \<and> printed t u) (consputs cs t)" by (intro Cons.IH) simp
    then show "returns (\<lambda>_ u. cons_ok u \<and> printed s u) (consputs cs t)"
      by (rule returns_mono) (use t printed_trans in blast)
  qed
qed simp

text \<open>The text that a format denotes.\<close>

fun format :: "u8 list \<Rightarrow> (nat \<Rightarrow> u32) \<Rightarrow> (nat \<Rightarrow> u8 list option) \<Rightarrow> nat \<Rightarrow> nat list" where
  "format [] arg str i = []"
| "format [c] arg str i = (if c = 0x25 then [] else [unat c])"
| "format (c # d # cs) arg str i =
     (if c \<noteq> 0x25 then unat c # format (d # cs) arg str i
      else if d = 0x64 then rev (printint_buf (arg i) 10 True) @ format cs arg str (Suc i)
      else if d = 0x78 \<or> d = 0x70 then rev (printint_buf (arg i) 16 False) @ format cs arg str (Suc i)
      else if d = 0x73
        then (case str i of None \<Rightarrow> [40, 110, 117, 108, 108, 41] | Some bs \<Rightarrow> map unat bs) @ format cs arg str (Suc i)
      else if d = 0x25 then 0x25 # format cs arg str i
      else 0x25 # unat d # format cs arg str i)"

lemma consputs_append: "consputs (xs @ ys) s = kbind (consputs xs s) (\<lambda>_. consputs ys)"
  by (induction xs arbitrary: s) (simp_all add: kbind_assoc cong: kbind_cong)

lemma cprintf_loop_format: "cprintf_loop f arg str i s = consputs (format f arg str i) s"
  by (induction f arg str i arbitrary: s rule: format.induct)
    (simp_all add: consputs_append printint_def kbind_assoc cong: kbind_cong)

text \<open>C26: On a usable console, \<open>cprintf\<close> returns, prints exactly the text that its format and
  arguments denote, as if by one \<open>consputc\<close> after the other, and leaves the console usable and
  everything but the screen as it was; the lock is taken around the whole text.\<close>

theorem cprintf_prints:
  assumes "cons_ok s" and "cons_locking s \<Longrightarrow> ConsLock \<notin> held s"
  shows "\<exists>t. consputs (format f arg str 0) (if cons_locking s then s\<lparr>held := insert ConsLock (held s)\<rparr> else s) = Ret () t \<and>
    cprintf (Some f) arg str s = Ret () (t\<lparr>held := held s\<rparr>) \<and> cons_ok t \<and> printed s (t\<lparr>held := held s\<rparr>)"
proof -
  let ?s = "if cons_locking s then s\<lparr>held := insert ConsLock (held s)\<rparr> else s"
  have "cons_ok ?s" using assms(1) by simp
  from consputs_ok [OF this, of "format f arg str 0"] obtain t where
    t: "consputs (format f arg str 0) ?s = Ret () t" "cons_ok t" "printed ?s t"
    by (auto elim: returnsE)
  have held: "held t = held ?s"
    using t(3) unfolding printed_def by (metis cons_printed_frames)
  have "printed s (t\<lparr>held := held s\<rparr>)"
    using t(3) by (cases s; cases t) (simp add: printed_def split: if_splits)
  moreover have "cprintf (Some f) arg str s = Ret () (t\<lparr>held := held s\<rparr>)"
  proof (cases "cons_locking s")
    case True
    with assms(2) have "ConsLock \<notin> held s" by simp
    with True t(1) held show ?thesis by (simp add: cprintf_def cprintf_loop_format)
  next
    case False
    with t(1) held have "t\<lparr>held := held s\<rparr> = t" by simp
    with False t(1) show ?thesis by (simp add: cprintf_def cprintf_loop_format)
  qed
  ultimately show ?thesis using t by blast
qed

text \<open>A console for the witnesses: text mode, an empty screen, the cursor at the top left, no
  serial port.\<close>

definition cons_start :: cons_state where
  "cons_start = hw_state.extend (pipe_state.extend pipe_start
       (hw_state.fields [Out 0x3d5 0, Out 0x3d4 15, Out 0x3d5 0, Out 0x3d4 14] (register_file 0x3d4 0x3d5)
         (\<lambda>_ _. 0) False 0))
     (cons_state.fields True False 3 (\<lambda>_. 0) 0 (\<lambda>_. 0) (\<lambda>_. 0) 0 0 0)"

lemma cons_start_simps [simp]:
  "held cons_start = {}" "uart cons_start = False" "panicked cons_start = False" "cons_locking cons_start"
  "currentvgamode cons_start = 3" "crt cons_start = (\<lambda>_. 0)" "registerCopy cons_start = (\<lambda>_. 0)"
  "cursorPos cons_start = 0" "dev cons_start = register_file 0x3d4 0x3d5"
  "ibuf cons_start = (\<lambda>_. 0)" "ir cons_start = 0" "iw cons_start = 0" "ie cons_start = 0"
  "curproc cons_start = Some 0" "procs cons_start = procs pipe_start"
  "io cons_start = [Out 0x3d5 0, Out 0x3d4 15, Out 0x3d5 0, Out 0x3d4 14]"
  by (simp_all add: cons_start_def pipe_start_def sched_start_def cons_state.defs hw_state.defs
    pipe_state.defs sched_state.defs)

lemma cons_start_ok: "cursor_at cons_start 0" "cons_ok cons_start"
proof -
  show "cursor_at cons_start 0" by (simp add: cursor_at_def)
  then show "cons_ok cons_start" using register_file_indexed [of "0x3d4" "0x3d5"]
    by (auto simp: cons_ok_def intro!: exI [of _ 0])
qed

theorem cprintf_prints_witness:
  "format (cstr ''p%d'') (\<lambda>_. 7) (\<lambda>_. None) 0 = [112, 55] \<and>
    returns (\<lambda>_ t. cons_ok t) (cprintf (Some (cstr ''p%d'')) (\<lambda>_. 7) (\<lambda>_. None) cons_start)"
proof -
  have "format (cstr ''p%d'') (\<lambda>_. 7) (\<lambda>_. None) 0 = [112, 55]"
    by (simp add: cstr_def printint_buf_def buf_digits.simps digit_char_def)
  moreover from cprintf_prints [OF cons_start_ok(2), of "cstr ''p%d''" "\<lambda>_. 7" "\<lambda>_. None"]
  have "returns (\<lambda>_ t. cons_ok t) (cprintf (Some (cstr ''p%d'')) (\<lambda>_. 7) (\<lambda>_. None) cons_start)"
    by auto
  ultimately show ?thesis by simp
qed

text \<open>C24: One character on the text screen, with the cursor registers behaving as registers: it
  is drawn at the cursor, which advances; newline goes to the start of the next line; backspace
  steps back unless the cursor is at the top left. Past the last line everything moves up one
  line and the last line is cleared. The cell under the new cursor is a blank, the cursor is on
  the screen again, and the registers hold it. In particular the panic for a position out of
  range cannot happen.\<close>

theorem cgaputc_screen:
  assumes "indexed_port (dev s) CRTPORT (CRTPORT + 1)" and "currentvgamode s = 0x03"
    and "cursor_at s pos" and "pos < 1920" and "text_put c (cell c) (crt s) pos = (a, pos')"
  shows "returns (\<lambda>_ t. crt t = a(pos' := cell 32) \<and> cursor_at t pos' \<and> pos' < 1920 \<and>
      currentvgamode t = 0x03 \<and> dev t = dev s) (cgaputc c s)"
proof -
  have pos': "pos' < 1920" using assms(4,5) by (rule text_put_bound)
  have "cursor_at (write_cursor pos' (snd (read_cursor s))) pos'" by (rule write_cursor_at) (use pos' in simp)
  then show ?thesis using assms(2,5) pos'
    by (simp add: cgaputc_text [OF assms(1-4)] read_cursor_at [OF assms(1,3)] write_cursor_def cursor_at_def outb_def)
qed

theorem cgaputc_screen_witness:
  "returns (\<lambda>_ t. crt t 0 = 0x0741 \<and> crt t 1 = 0x0720 \<and> cursor_at t 1) (cgaputc 65 cons_start)"
  using cgaputc_screen [of cons_start 0 65, OF _ _ cons_start_ok(1)] register_file_indexed [of "0x3d4" "0x3d5"]
  by (auto simp: text_put_def text_move_def cell_def elim!: returns_mono)

section \<open>The shadow screen\<close>

text \<open>What a cell shows: an empty cell and a space look the same.\<close>

definition shows_as :: "u8 \<Rightarrow> u8" where
  "shows_as b = (if b = 0 then 32 else b)"

text \<open>The text screen \<open>a\<close> and the shadow copy \<open>b\<close> show the same text, and both are empty from the
  cursor on.\<close>

definition same_text :: "(nat \<Rightarrow> u16) \<Rightarrow> (nat \<Rightarrow> u8) \<Rightarrow> nat \<Rightarrow> bool" where
  "same_text a b pos \<longleftrightarrow>
     (\<forall>i<1920. shows_as (ucast (a i)) = shows_as (b i) \<and> (pos \<le> i \<longrightarrow> shows_as (b i) = 32))"

lemma same_text_put:
  assumes "same_text a b pos" and "pos < 1920" and "c \<noteq> BACKSPACE"
    and "text_put c (cell c) a pos = (a', pos')" and "text_put c (ucast (cell c)) b pos = (b', q)"
  shows "q = pos' \<and> same_text (a'(pos' := cell 32)) b' pos'"
proof -
  have sp: "shows_as 0 = 32" "shows_as (ucast (cell 32)) = 32"
    by (simp_all add: shows_as_def cell_def)
  have up: "pos \<le> (pos div 80 + 1) * 80"
    using next_line [of pos] by (metis le_add1)
  show ?thesis
    using assms up unfolding same_text_def text_put_def text_move_def
    by (auto simp: sp split: if_splits)
qed

text \<open>\<open>s\<close> is in text mode, \<open>g\<close> in a graphics mode, and the shadow copy of \<open>g\<close> stands for the screen
  of \<open>s\<close>.\<close>

definition shadows :: "'a cons_state_scheme \<Rightarrow> 'a cons_state_scheme \<Rightarrow> bool" where
  "shadows s g \<longleftrightarrow> \<not> panicked s \<and> \<not> panicked g \<and> currentvgamode s = 0x03 \<and> currentvgamode g \<noteq> 0x03 \<and>
     indexed_port (dev s) CRTPORT (CRTPORT + 1) \<and> cursorPos g < 1920 \<and> cursor_at s (cursorPos g) \<and>
     same_text (crt s) (registerCopy g) (cursorPos g)"

lemma shadows_serial:
  assumes "\<forall>e\<in>set es. serial_ev e"
  shows "shadows (s\<lparr>io := es @ io s\<rparr>) (g\<lparr>io := fs @ io g\<rparr>) = shadows s g"
  by (simp add: shadows_def cursor_at_serial [OF assms])

lemma consputc_serial:
  assumes "\<not> panicked s"
  shows "\<exists>es. consputc c s = cgaputc c (s\<lparr>io := es @ io s\<rparr>) \<and> (\<forall>e\<in>set es. serial_ev e)"
  using fold_uartputc_frame [of "uart_bytes c" s] assms by (metis consputc_uart)

lemma cgaputc_shadows:
  assumes "shadows s g" and "c \<noteq> BACKSPACE"
  shows "\<exists>t u. cgaputc c s = Ret () t \<and> cgaputc c g = Ret () u \<and> shadows t u"
proof -
  have a: "currentvgamode s = 3" "indexed_port (dev s) CRTPORT (CRTPORT + 1)" "cursor_at s (cursorPos g)"
    and g: "currentvgamode g \<noteq> 3" "cursorPos g < 1920" and same: "same_text (crt s) (registerCopy g) (cursorPos g)"
    using assms(1) by (simp_all add: shadows_def)
  obtain a' pos' where put: "text_put c (cell c) (crt s) (cursorPos g) = (a', pos')" by fastforce
  obtain b' q where put2: "text_put c (ucast (cell c)) (registerCopy g) (cursorPos g) = (b', q)" by fastforce
  from same_text_put [OF same g(2) assms(2) put put2]
  have s': "q = pos'" "same_text (a'(pos' := cell 32)) b' pos'" by auto
  have pos': "pos' < 1920" by (rule text_put_bound [OF g(2) put])
  let ?t = "(write_cursor pos' (snd (read_cursor s)))\<lparr>crt := a'(pos' := cell 32)\<rparr>"
  let ?u = "snd (read_cursor g)\<lparr>registerCopy := b', cursorPos := pos'\<rparr>"
  have "cursor_at ?t pos'" using write_cursor_at [of pos' "snd (read_cursor s)"] pos'
    by (simp add: cursor_at_def)
  moreover have "\<not> panicked ?t" "currentvgamode ?t = 3" "dev ?t = dev s"
    using assms(1) by (simp_all add: shadows_def read_cursor_at [OF a(2,3)] write_cursor_def outb_def)
  moreover have "\<not> panicked ?u" "currentvgamode ?u \<noteq> 3"
    using assms(1) by (subst read_cursor_frame, simp add: shadows_def)+
  ultimately have "shadows ?t ?u" using s'(2) pos' a(2) by (simp add: shadows_def)
  then show ?thesis
    by (simp add: cgaputc_text [OF a(2,1,3) g(2)] cgaputc_shadow [OF g] put put2 s'(1))
qed

lemma consputc_shadows:
  assumes "shadows s g" and "c \<noteq> BACKSPACE"
  shows "\<exists>t u. consputc c s = Ret () t \<and> consputc c g = Ret () u \<and> shadows t u"
proof -
  from assms(1) have "\<not> panicked s" "\<not> panicked g" by (simp_all add: shadows_def)
  from consputc_serial [OF this(1), of c] consputc_serial [OF this(2), of c] obtain es fs where
    es: "consputc c s = cgaputc c (s\<lparr>io := es @ io s\<rparr>)" "\<forall>e\<in>set es. serial_ev e" and
    fs: "consputc c g = cgaputc c (g\<lparr>io := fs @ io g\<rparr>)" by blast
  show ?thesis unfolding es(1) fs
    by (rule cgaputc_shadows) (simp_all add: shadows_serial [OF es(2)] assms)
qed

lemma consputs_shadows:
  assumes "shadows s g" and "BACKSPACE \<notin> set cs"
  shows "\<exists>t u. consputs cs s = Ret () t \<and> consputs cs g = Ret () u \<and> shadows t u"
  using assms
proof (induction cs arbitrary: s g)
  case (Cons c cs)
  then obtain t u where "consputc c s = Ret () t" "consputc c g = Ret () u" "shadows t u"
    using consputc_shadows [of s g c] by auto
  with Cons show ?case by auto
qed auto

text \<open>C25: The shadow copy kept in the graphics modes tracks the text screen: text without
  backspaces printed in a graphics mode leaves in \<open>registerCopy\<close> and \<open>cursorPos\<close> what the same text
  printed in text mode leaves on the screen and in the cursor registers.\<close>

theorem shadow_screen:
  assumes "shadows s g" and "BACKSPACE \<notin> set cs"
  shows "\<exists>t u. consputs cs s = Ret () t \<and> consputs cs g = Ret () u \<and> shadows t u"
  using assms by (rule consputs_shadows)

lemma shadows_start: "shadows cons_start (cons_start\<lparr>currentvgamode := 0x13\<rparr>)"
  using cons_start_ok register_file_indexed [of "0x3d4" "0x3d5"]
  by (simp add: shadows_def same_text_def shows_as_def)

theorem shadow_screen_witness:
  "\<exists>t u. consputs [104, 105, 10] cons_start = Ret () t \<and>
    consputs [104, 105, 10] (cons_start\<lparr>currentvgamode := 0x13\<rparr>) = Ret () u \<and> shadows t u"
  using shadow_screen [OF shadows_start, of "[104, 105, 10]"] by simp

text \<open>C38: Backspace is the exception: in text mode it erases the character before the cursor,
  in a graphics mode the shadow copy keeps it, so that it comes back with the text screen.\<close>

theorem shadow_keeps_erased:
  assumes "shadows s g" and "0 < cursorPos g"
  shows "returns (\<lambda>_ t. crt t (cursorPos g - 1) = cell 32) (cgaputc BACKSPACE s) \<and>
    returns (\<lambda>_ u. registerCopy u = registerCopy g \<and> cursorPos u = cursorPos g - 1) (cgaputc BACKSPACE g)"
proof -
  have a: "currentvgamode s = 3" "indexed_port (dev s) CRTPORT (CRTPORT + 1)" "cursor_at s (cursorPos g)"
    and g: "currentvgamode g \<noteq> 3" "cursorPos g < 1920"
    using assms(1) by (simp_all add: shadows_def)
  have "cursorPos g - Suc 0 < 1920" using g(2) by simp
  then show ?thesis
    by (simp add: cgaputc_text [OF a(2,1,3) g(2)] cgaputc_shadow [OF g] text_put_def text_move_def)
qed

theorem shadow_keeps_erased_witness:
  "returns (\<lambda>_ u. registerCopy u 0 = 65 \<and> cursorPos u = 0)
     (cgaputc BACKSPACE (cons_start\<lparr>currentvgamode := 0x13, cursorPos := 1, registerCopy := (\<lambda>_. 0)(0 := 65)\<rparr>))"
proof -
  let ?s = "cons_start\<lparr>io := [Out 0x3d5 1, Out 0x3d4 15, Out 0x3d5 0, Out 0x3d4 14], crt := (\<lambda>_. 0)(0 := 0x0741)\<rparr>"
  let ?g = "cons_start\<lparr>currentvgamode := 0x13, cursorPos := 1, registerCopy := (\<lambda>_. 0)(0 := 65)\<rparr>"
  have "shadows ?s ?g" using register_file_indexed [of "0x3d4" "0x3d5"]
    by (simp add: shadows_def same_text_def shows_as_def cursor_at_def)
  from shadow_keeps_erased [OF this] show ?thesis by (auto elim!: returns_mono)
qed

end
