(* ===== verification/Lineedit.thy ===== *)
theory Lineedit
  imports Console
begin

text \<open>
  The line editor behind the keyboard (\<open>consoleintr\<close> and \<open>consoleread\<close> of \<open>console.c\<close>) against an
  abstract one. The ring \<open>input.buf\<close> with its three counters stands for two texts: the finished
  lines that \<open>consoleread\<close> may take, between \<open>r\<close> and \<open>w\<close>, and the line being edited, between
  \<open>w\<close> and \<open>e\<close>. The counters wrap around at \<open>2^32\<close>.
\<close>

section \<open>The two texts\<close>

definition ring :: "(nat \<Rightarrow> u8) \<Rightarrow> u32 \<Rightarrow> nat \<Rightarrow> u8 list" where
  "ring b x n = map (\<lambda>k. b (unat (x + of_nat k) mod 128)) [0..<n]"

definition nfinished :: "'a cons_state_scheme \<Rightarrow> nat" where
  "nfinished s = unat (iw s - ir s)"

definition nedit :: "'a cons_state_scheme \<Rightarrow> nat" where
  "nedit s = unat (ie s - iw s)"

definition finished :: "'a cons_state_scheme \<Rightarrow> u8 list" where
  "finished s = ring (ibuf s) (ir s) (nfinished s)"

definition edit :: "'a cons_state_scheme \<Rightarrow> u8 list" where
  "edit s = ring (ibuf s) (iw s) (nedit s)"

definition line_ok :: "'a cons_state_scheme \<Rightarrow> bool" where
  "line_ok s \<longleftrightarrow> nfinished s + nedit s \<le> 128 \<and> 10 \<notin> set (edit s)"

lemma length_ring [simp]: "length (ring b x n) = n"
  by (simp add: ring_def)

lemma ring_0 [simp]: "ring b x 0 = []"
  by (simp add: ring_def)

lemma ring_Suc: "ring b x (Suc n) = ring b x n @ [b (unat (x + of_nat n) mod 128)]"
  by (simp add: ring_def)

lemma ring_Cons: "ring b x (Suc n) = b (unat x mod 128) # ring b (x + 1) n"
  unfolding ring_def by (simp add: upt_conv_Cons map_Suc_upt [symmetric] add.assoc del: upt_Suc)

lemma ring_append: "ring b x (m + n) = ring b x m @ ring b (x + of_nat m) n"
  by (induction n) (simp_all add: ring_Suc add.assoc)

lemma ring_upd:
  assumes "n \<le> j" and "j < 128"
  shows "ring (b(unat (x + of_nat j) mod 128 := v)) x n = ring b x n"
proof -
  have "unat (x + of_nat k) mod 128 \<noteq> unat (x + of_nat j) mod 128" if "k < n" for k
    using ring_distinct [of 128 k j x] that assms by simp
  then show ?thesis by (simp add: ring_def)
qed

lemma counters:
  "iw s = ir s + of_nat (nfinished s)" "ie s = iw s + of_nat (nedit s)"
  by (simp_all add: nfinished_def nedit_def)

lemma unat_mod128: "unat (x mod INPUT_BUF) = unat x mod 128"
  by (simp add: unat_mod)

lemma total_count:
  assumes "nfinished s + nedit s \<le> 128"
  shows "unat (ie s - ir s) = nfinished s + nedit s"
proof -
  have "ie s - ir s = (iw s - ir s) + (ie s - iw s)" by simp
  moreover have "unat ((iw s - ir s) + (ie s - iw s)) = nfinished s + nedit s"
    using assms by (subst unat_add32) (simp_all add: nfinished_def nedit_def)
  ultimately show ?thesis by simp
qed

section \<open>The operations on the ring\<close>

lemma printed_line:
  assumes "printed s t"
  shows "ibuf t = ibuf s" "ir t = ir s" "iw t = iw s" "ie t = ie s" "held t = held s"
    "procs t = procs s" "curproc t = curproc s"
  using assms unfolding printed_def by (cases s; cases t; simp)+

lemma same_line:
  assumes "ibuf t = ibuf s" "ir t = ir s" "iw t = iw s" "ie t = ie s"
  shows "finished t = finished s" "edit t = edit s" "line_ok t = line_ok s"
    "nfinished t = nfinished s" "nedit t = nedit s"
  using assms by (simp_all add: finished_def edit_def line_ok_def nfinished_def nedit_def)

lemma printed_same:
  assumes "printed s t"
  shows "finished t = finished s" "edit t = edit s" "line_ok t = line_ok s"
    "nfinished t = nfinished s" "nedit t = nedit s"
  using same_line [OF printed_line(1-4) [OF assms]] .

lemma nedit_Suc:
  assumes "nedit s < 4294967295"
  shows "unat (ie s + 1 - iw s) = Suc (nedit s)"
proof -
  have "ie s + 1 - iw s = (ie s - iw s) + 1" by simp
  moreover have "unat ((ie s - iw s) + 1) = nedit s + 1"
    using assms by (subst unat_add32) (simp_all add: nedit_def)
  ultimately show ?thesis by (simp only: Suc_eq_plus1)
qed

lemma nedit_pop:
  assumes "0 < nedit s"
  shows "unat (ie s - 1 - iw s) = nedit s - 1"
proof -
  have "ie s - 1 - iw s = (ie s - iw s) - 1" by simp
  moreover have "unat ((ie s - iw s) - 1) = nedit s - 1"
    using assms by (simp add: unat_sub nedit_def word_le_nat_alt)
  ultimately show ?thesis by (simp only:)
qed

lemma push_line:
  assumes "line_ok s" and "nfinished s + nedit s < 128"
  shows "finished (ipush c s) = finished s" "edit (ipush c s) = edit s @ [c]"
    "nfinished (ipush c s) = nfinished s" "nedit (ipush c s) = Suc (nedit s)"
proof -
  have ie: "ie s = ir s + of_nat (nfinished s + nedit s)" by (simp add: nfinished_def nedit_def)
  have ie2: "ie s = iw s + of_nat (nedit s)" by (rule counters)
  show n: "nfinished (ipush c s) = nfinished s" by (simp add: nfinished_def ipush_def)
  show m: "nedit (ipush c s) = Suc (nedit s)"
    using assms(2) nedit_Suc [of s] by (simp add: nedit_def ipush_def)
  have "ring ((ibuf s)(unat (ie s) mod 128 := c)) (ir s) (nfinished s) = ring (ibuf s) (ir s) (nfinished s)"
    unfolding ie by (rule ring_upd) (use assms in simp_all)
  then show "finished (ipush c s) = finished s" by (simp add: finished_def n) (simp add: ipush_def unat_mod128)
  have "ring ((ibuf s)(unat (ie s) mod 128 := c)) (iw s) (nedit s) = ring (ibuf s) (iw s) (nedit s)"
    unfolding ie2 by (rule ring_upd) (use assms in simp_all)
  then show "edit (ipush c s) = edit s @ [c]"
    by (simp add: edit_def m ring_Suc) (simp add: ipush_def unat_mod128 ie2 [symmetric])
qed

lemma pop_line:
  assumes "ie s \<noteq> iw s"
  shows "finished (s\<lparr>ie := ie s - 1\<rparr>) = finished s" "edit (s\<lparr>ie := ie s - 1\<rparr>) = butlast (edit s)"
    "nfinished (s\<lparr>ie := ie s - 1\<rparr>) = nfinished s" "Suc (nedit (s\<lparr>ie := ie s - 1\<rparr>)) = nedit s"
    "ibuf s (unat ((ie s - 1) mod INPUT_BUF)) = last (edit s)"
proof -
  let ?s = "s\<lparr>ie := ie s - 1\<rparr>"
  have pos: "0 < nedit s" using assms by (simp add: nedit_def unat_gt_0)
  show "finished ?s = finished s" "nfinished ?s = nfinished s" by (simp_all add: finished_def nfinished_def)
  show n: "Suc (nedit ?s) = nedit s" using nedit_pop [OF pos] pos by (simp add: nedit_def)
  have "edit s = ring (ibuf s) (iw s) (Suc (nedit ?s))" by (simp add: edit_def n)
  then have e: "edit s = edit ?s @ [ibuf s (unat (iw s + of_nat (nedit ?s)) mod 128)]"
    by (simp add: ring_Suc edit_def)
  then show "edit ?s = butlast (edit s)" by simp
  have "ie ?s = iw s + of_nat (nedit ?s)" using counters(2) [of ?s] by simp
  with e show "ibuf s (unat ((ie s - 1) mod INPUT_BUF)) = last (edit s)" by (simp add: unat_mod128)
qed

lemma commit_line:
  assumes "nfinished s + nedit s \<le> 128"
  shows "finished (s\<lparr>iw := ie s\<rparr>) = finished s @ edit s" "edit (s\<lparr>iw := ie s\<rparr>) = []"
    "nfinished (s\<lparr>iw := ie s\<rparr>) = nfinished s + nedit s"
proof -
  show n: "nfinished (s\<lparr>iw := ie s\<rparr>) = nfinished s + nedit s"
    using total_count [OF assms] by (simp add: nfinished_def)
  show "finished (s\<lparr>iw := ie s\<rparr>) = finished s @ edit s"
    by (simp add: finished_def n ring_append counters(1) [symmetric]) (simp add: edit_def)
  show "edit (s\<lparr>iw := ie s\<rparr>) = []" by (simp add: edit_def nedit_def)
qed

lemma take_line:
  assumes "ir s \<noteq> iw s"
  shows "finished s = ibuf s (unat (ir s mod INPUT_BUF)) # finished (s\<lparr>ir := ir s + 1\<rparr>)"
    "nfinished s = Suc (nfinished (s\<lparr>ir := ir s + 1\<rparr>))"
proof -
  let ?s = "s\<lparr>ir := ir s + 1\<rparr>"
  have "0 < nfinished s" using assms by (simp add: nfinished_def unat_gt_0)
  moreover from this have "unat ((iw s - ir s) - 1) = nfinished s - 1"
    by (simp add: unat_sub nfinished_def word_le_nat_alt)
  then have "nfinished ?s = nfinished s - 1" by (simp add: nfinished_def diff_diff_eq)
  ultimately show n: "nfinished s = Suc (nfinished ?s)" by simp
  show "finished s = ibuf s (unat (ir s mod INPUT_BUF)) # finished ?s"
    by (simp add: finished_def n ring_Cons unat_mod128)
qed

lemma finished_held [simp]: "finished (s\<lparr>held := h\<rparr>) = finished s"
  by (rule same_line) simp_all

section \<open>The abstract editor\<close>

text \<open>What a key does to the finished text \<open>q\<close> and the line \<open>l\<close> being edited.\<close>

definition editor_key :: "int \<Rightarrow> u8 list \<times> u8 list \<Rightarrow> u8 list \<times> u8 list" where
  "editor_key c = (\<lambda>(q, l).
     if c = 16 then (q, l)
     else if c = 21 then (q, [])
     else if c = 8 \<or> c = 0x7f then (q, butlast l)
     else if c \<noteq> 0 \<and> length q + length l < 128 then
       (let c = (if c = 13 then 10 else c); l = l @ [of_int c]
        in if c = 10 \<or> c = 4 \<or> length q + length l = 128 then (q @ l, []) else (q, l))
     else (q, l))"

lemma length_finished [simp]: "length (finished s) = nfinished s" "length (edit s) = nedit s"
  by (simp_all add: finished_def edit_def)

lemma cons_ok_line [simp]:
  "cons_ok (s\<lparr>ie := e\<rparr>) = cons_ok s" "cons_ok (s\<lparr>iw := w\<rparr>) = cons_ok s" "cons_ok (s\<lparr>ir := r\<rparr>) = cons_ok s"
  "cons_ok (ipush c s) = cons_ok s" "cons_ok (wakeup1 ch s) = cons_ok s"
  by (simp_all add: cons_ok_def cursor_at_def ipush_def wakeup1_def)

lemma wakeup1_line:
  "ibuf (wakeup1 ch s) = ibuf s" "ir (wakeup1 ch s) = ir s" "iw (wakeup1 ch s) = iw s" "ie (wakeup1 ch s) = ie s"
  by (simp_all add: wakeup1_def)

lemma held_upd_line [simp]:
  "held (ipush c s) = held s" "held (s\<lparr>iw := w\<rparr>) = held s" "held (s\<lparr>ie := e\<rparr>) = held s" "held (s\<lparr>ir := r\<rparr>) = held s"
  by (simp_all add: ipush_def)

lemma kill_line_edit:
  assumes "cons_ok s" and "10 \<notin> set (edit s)" and "nedit s = n"
  shows "returns (\<lambda>_ t. cons_ok t \<and> finished t = finished s \<and> nfinished t = nfinished s \<and> edit t = [] \<and> nedit t = 0 \<and>
    held t = held s) (kill_line n s)"
  using assms
proof (induction n arbitrary: s)
  case 0
  then show ?case by (simp add: edit_def)
next
  case (Suc n)
  then have "ie s \<noteq> iw s" by (auto simp: nedit_def)
  note pop = pop_line [OF this]
  let ?s = "s\<lparr>ie := ie s - 1\<rparr>"
  have "edit s \<noteq> []" using Suc.prems(3) by (metis length_finished(2) list.size(3) nat.distinct(1))
  then have "last (edit s) \<noteq> 10" using Suc.prems(2) by (metis last_in_set)
  then have k: "kill_line (Suc n) s = kbind (consputc BACKSPACE ?s) (\<lambda>_. kill_line n)" by (simp add: pop(5))
  show ?case unfolding k
  proof (rule returns_kbindI [OF consputc_ok])
    show "cons_ok ?s" using Suc.prems(1) by simp
    fix a :: unit and t assume t: "cons_ok t \<and> printed ?s t"
    then have p: "printed ?s t" by simp
    have "10 \<notin> set (edit t)" using Suc.prems(2) by (auto simp: printed_same [OF p] pop(2) dest: in_set_butlastD)
    then have "returns (\<lambda>_ u. cons_ok u \<and> finished u = finished t \<and> nfinished u = nfinished t \<and> edit u = [] \<and> nedit u = 0 \<and>
        held u = held t) (kill_line n t)"
      using t Suc.prems(3) pop(4) by (intro Suc.IH) (simp_all add: printed_same [OF p])
    then show "returns (\<lambda>_ u. cons_ok u \<and> finished u = finished s \<and> nfinished u = nfinished s \<and> edit u = [] \<and>
        nedit u = 0 \<and> held u = held s) (kill_line n t)"
      by (rule returns_mono) (simp add: printed_same [OF p] printed_line [OF p] pop)
  qed
qed

lemma consoleintr_insert:
  assumes ok: "line_ok s" "cons_ok s" "PtableLock \<notin> held s" and c: "0 < c" "c < 256" "c \<notin> {16, 21, 8, 0x7f}"
    and room: "nfinished s + nedit s < 128"
  shows "returns (\<lambda>_ t. cons_ok t \<and> line_ok t \<and> held t = held s \<and>
    (finished t, edit t) = editor_key c (finished s, edit s)) (consoleintr_char c s)"
proof -
  define d where "d = (if c = 13 then 10 else c)"
  let ?s = "ipush (of_int d) s"
  note push = push_line [OF ok(1) room, of "of_int d"]
  have "unat (ie s - ir s) < 128" using room by (simp add: total_count)
  then have "ie s - ir s < INPUT_BUF" by (simp add: word_less_nat_alt)
  then have eq: "consoleintr_char c s = kbind (consputc (nat d) ?s) (\<lambda>_ s.
      if d = 10 \<or> d = 4 \<or> ie s = ir s + INPUT_BUF
      then kbind (wakeup ChInput (s\<lparr>iw := ie s\<rparr>)) (\<lambda>_ s. Ret False s) else Ret False s)"
    using c by (simp add: consoleintr_char_def d_def Let_def)
  have d10: "of_int d = (10 :: u8) \<longleftrightarrow> d = 10"
  proof
    assume "of_int d = (10 :: u8)"
    then have "uint (of_int d :: u8) = 10" by simp
    then show "d = 10" using c by (simp add: uint_word_of_int d_def split: if_splits)
  qed simp
  have key: "editor_key c (finished s, edit s) =
      (if d = 10 \<or> d = 4 \<or> nfinished s + Suc (nedit s) = 128 then (finished s @ edit s @ [of_int d], [])
       else (finished s, edit s @ [of_int d]))"
    using c room by (simp add: editor_key_def d_def Let_def)
  show ?thesis unfolding eq key
  proof (rule returns_kbindI [OF consputc_ok])
    show "cons_ok ?s" using ok(2) by simp
    fix a :: unit and t assume t: "cons_ok t \<and> printed ?s t"
    then have p: "printed ?s t" by simp
    note t' = printed_same [OF p] printed_line(5) [OF p] push
    have le: "nfinished t + nedit t \<le> 128" using room by (simp add: t')
    have "ie t = ir t + INPUT_BUF \<longleftrightarrow> ie t - ir t = INPUT_BUF" by (auto simp: algebra_simps)
    then have full: "ie t = ir t + INPUT_BUF \<longleftrightarrow> nfinished s + Suc (nedit s) = 128"
      using total_count [OF le] by (simp add: word_unat_eq_iff t')
    have w: "wakeup ChInput (t\<lparr>iw := ie t\<rparr>) = Ret () (wakeup1 ChInput (t\<lparr>iw := ie t\<rparr>))"
      using ok(3) by (intro wakeup_eq) (simp add: t')
    note com = commit_line [OF le] and wk = same_line [OF wakeup1_line, of ChInput]
    show "returns (\<lambda>_ u. cons_ok u \<and> line_ok u \<and> held u = held s \<and> (finished u, edit u) =
        (if d = 10 \<or> d = 4 \<or> nfinished s + Suc (nedit s) = 128 then (finished s @ edit s @ [of_int d], [])
         else (finished s, edit s @ [of_int d])))
      (if d = 10 \<or> d = 4 \<or> ie t = ir t + INPUT_BUF
       then kbind (wakeup ChInput (t\<lparr>iw := ie t\<rparr>)) (\<lambda>_ s. Ret False s) else Ret False t)"
    proof (cases "d = 10 \<or> d = 4 \<or> ie t = ir t + INPUT_BUF")
      case True
      have "line_ok (t\<lparr>iw := ie t\<rparr>)" using le com by (simp add: line_ok_def nedit_def)
      with True t show ?thesis unfolding full [symmetric] by (simp add: w wk com t')
    next
      case False
      have "line_ok t" using le False ok(1) d10 by (auto simp: line_ok_def t')
      with False t show ?thesis unfolding full [symmetric] by (simp add: t')
    qed
  qed
qed

lemma consoleintr_backspace:
  assumes "line_ok s" and "cons_ok s" and c: "c \<in> {8, 0x7f}"
  shows "returns (\<lambda>_ t. cons_ok t \<and> line_ok t \<and> held t = held s \<and>
    (finished t, edit t) = editor_key c (finished s, edit s)) (consoleintr_char c s)"
proof (cases "ie s = iw s")
  case True
  with c assms show ?thesis by (auto simp: consoleintr_char_def editor_key_def edit_def nedit_def)
next
  case False
  note pop = pop_line [OF False]
  from consputc_ok [of "s\<lparr>ie := ie s - 1\<rparr>" BACKSPACE] assms(2)
  have "returns (\<lambda>_ t. cons_ok t \<and> printed (s\<lparr>ie := ie s - 1\<rparr>) t) (consputc BACKSPACE (s\<lparr>ie := ie s - 1\<rparr>))" by simp
  then have "returns (\<lambda>_ t. cons_ok t \<and> line_ok t \<and> held t = held s \<and> finished t = finished s \<and>
      edit t = butlast (edit s)) (consputc BACKSPACE (s\<lparr>ie := ie s - 1\<rparr>))"
  proof (rule returns_mono)
    fix a :: unit and t assume t: "cons_ok t \<and> printed (s\<lparr>ie := ie s - 1\<rparr>) t"
    then have p: "printed (s\<lparr>ie := ie s - 1\<rparr>) t" by simp
    show "cons_ok t \<and> line_ok t \<and> held t = held s \<and> finished t = finished s \<and> edit t = butlast (edit s)"
      using t assms(1) pop
      by (auto simp: printed_same [OF p] printed_line(5) [OF p] line_ok_def dest: in_set_butlastD)
  qed
  with c False show ?thesis
    by (auto simp: consoleintr_char_def editor_key_def elim!: returns_mono intro!: returns_kbind)
qed

text \<open>C17: The line editor implements the abstract one: a key that reaches \<open>consoleintr\<close> extends
  the line, erases its last character (backspace, delete), erases all of it (Control-U), or
  finishes it (newline, carriage return, Control-D, or 128 buffered characters); a key that
  does not fit is dropped, finished text is never changed, and the console stays usable. The
  handler never sleeps and never panics.\<close>

theorem consoleintr_refines:
  assumes "line_ok s" and "cons_ok s" and "PtableLock \<notin> held s" and "0 \<le> c" and "c < 256"
  shows "returns (\<lambda>_ t. cons_ok t \<and> line_ok t \<and> held t = held s \<and>
    (finished t, edit t) = editor_key c (finished s, edit s)) (consoleintr_char c s)"
proof (cases "c \<in> {16, 21, 8, 0x7f}")
  case False
  have total: "nfinished s + nedit s \<le> 128" using assms(1) by (simp add: line_ok_def)
  show ?thesis
  proof (cases "c = 0 \<or> nfinished s + nedit s = 128")
    case True
    then have "c = 0 \<or> \<not> ie s - ir s < INPUT_BUF"
      using total_count [OF total] by (auto simp: word_less_nat_alt)
    with True False assms show ?thesis by (auto simp: consoleintr_char_def editor_key_def)
  next
    case room: False
    show ?thesis by (rule consoleintr_insert) (use assms False room total in auto)
  qed
next
  case True
  then consider "c = 16" | "c = 21" | "c \<in> {8, 0x7f}" by auto
  then show ?thesis
  proof cases
    case 1
    with assms show ?thesis by (simp add: consoleintr_char_def editor_key_def)
  next
    case 2
    have "returns (\<lambda>_ t. cons_ok t \<and> finished t = finished s \<and> nfinished t = nfinished s \<and> edit t = [] \<and> nedit t = 0 \<and>
        held t = held s) (kill_line (nedit s) s)"
      by (rule kill_line_edit) (use assms in \<open>simp_all add: line_ok_def\<close>)
    with 2 assms show ?thesis
      by (auto simp: consoleintr_char_def editor_key_def nedit_def [symmetric] line_ok_def elim!: returns_mono
        intro!: returns_kbind)
  next
    case 3
    with assms(1,2) show ?thesis by (intro consoleintr_backspace)
  qed
qed

theorem consoleintr_refines_witness:
  "returns (\<lambda>_ t. finished t = [10] \<and> edit t = []) (consoleintr_char 13 cons_start)"
proof -
  have ok: "line_ok cons_start" by (simp add: line_ok_def edit_def nfinished_def nedit_def)
  have e: "finished cons_start = []" "edit cons_start = []"
    by (simp_all add: finished_def edit_def nfinished_def nedit_def)
  have "returns (\<lambda>_ t. cons_ok t \<and> line_ok t \<and> held t = held cons_start \<and>
      (finished t, edit t) = editor_key 13 (finished cons_start, edit cons_start)) (consoleintr_char 13 cons_start)"
    by (rule consoleintr_refines [OF ok cons_start_ok(2)]) simp_all
  moreover have "editor_key 13 ([], []) = ([10], [])" by (simp add: editor_key_def)
  ultimately show ?thesis unfolding e by (auto elim: returns_mono)
qed

section \<open>Reading a line\<close>

text \<open>C19: \<open>consoleread\<close> delivers a line: if the finished text starts with \<open>bs\<close> and then a newline
  or a Control-D, it returns the first \<open>n\<close> bytes of \<open>bs\<close> and the newline and leaves the rest for
  the next call. A Control-D is consumed only at the start of a line, where the call returns 0;
  after other bytes it stays, so that the next call returns 0.\<close>

theorem consoleread_line:
  assumes "finished s = bs @ e # rest" and "e \<in> {10, 4}" and "set bs \<inter> {10, 4} = {}" and "ConsLock \<in> held s"
  shows "returns (\<lambda>(r, d) t. d = take n (bs @ (if e = 10 then [10] else [])) \<and> r = int (length d) \<and>
      held t = held s - {ConsLock} \<and>
      finished t = (if n \<le> length bs then drop n (finished s) else if e = 10 \<or> bs = [] then rest else e # rest))
    (consoleread_loop n n [] s)"
proof -
  have "returns (\<lambda>(r, d) t. d = dst @ take n (bs @ (if e = 10 then [10] else [])) \<and> r = int (length d) \<and>
      held t = held s - {ConsLock} \<and>
      finished t = (if n \<le> length bs then drop n (finished s) else if e = 10 \<or> dst @ bs = [] then rest else e # rest))
    (consoleread_loop (length dst + n) n dst s)" for dst
    using assms
  proof (induction n arbitrary: dst bs s)
    case 0
    then show ?case by simp
  next
    case (Suc n)
    let ?s = "s\<lparr>ir := ir s + 1\<rparr>"
    have "ir s \<noteq> iw s" using Suc.prems(1) by (auto simp: finished_def nfinished_def)
    note t = take_line(1) [OF this] and ne = this
    show ?case
    proof (cases bs)
      case Nil
      with t Suc.prems(1) have "ibuf s (unat (ir s mod INPUT_BUF)) = e" "finished ?s = rest" by simp_all
      with ne Nil Suc.prems show ?thesis by (auto simp: Let_def)
    next
      case (Cons b bs')
      with t Suc.prems(1) have b: "ibuf s (unat (ir s mod INPUT_BUF)) = b" "finished ?s = bs' @ e # rest" by simp_all
      have IH: "returns (\<lambda>(r, d) t. d = (dst @ [b]) @ take n (bs' @ (if e = 10 then [10] else [])) \<and> r = int (length d) \<and>
          held t = held ?s - {ConsLock} \<and> finished t = (if n \<le> length bs' then drop n (finished ?s)
            else if e = 10 \<or> (dst @ [b]) @ bs' = [] then rest else e # rest))
        (consoleread_loop (length (dst @ [b]) + n) n (dst @ [b]) ?s)"
        by (rule Suc.IH) (use Suc.prems Cons b in auto)
      have "b \<noteq> 4" "b \<noteq> 10" using Suc.prems(3) Cons by auto
      then have eq: "consoleread_loop (length dst + Suc n) (Suc n) dst s =
          consoleread_loop (length (dst @ [b]) + n) n (dst @ [b]) ?s"
        using ne b(1) by (simp add: Let_def)
      have dr: "drop (Suc n) (finished s) = drop n (finished ?s)" using Suc.prems(1) Cons b(2) by simp
      show ?thesis unfolding eq dr using IH by (rule returns_mono) (simp add: Cons split_beta)
    qed
  qed
  from this [of "[]"] show ?thesis unfolding append_Nil list.size(3) add_0 .
qed

theorem consoleread_line_witness:
  "returns (\<lambda>(r, d) t. r = 2 \<and> d = [104, 10] \<and> finished t = [])
    (consoleread_loop 9 9 [] (cons_start\<lparr>held := {ConsLock}, ibuf := (\<lambda>_. 0)(0 := 104, 1 := 10), iw := 2, ie := 2\<rparr>))"
proof -
  let ?s = "cons_start\<lparr>held := {ConsLock}, ibuf := (\<lambda>_. 0)(0 := 104, 1 := 10), iw := 2, ie := 2\<rparr>"
  have "finished ?s = [104] @ 10 # []"
    by (simp add: finished_def nfinished_def ring_def upt_rec)
  from consoleread_line [OF this, of 9] show ?thesis by (auto elim!: returns_mono)
qed

end
