(* ===== verification/Video.thy ===== *)
theory Video
  imports Font Lineedit
begin

text \<open>
  The video modes (second half of \<open>console.c\<close>): programming the registers of the adapter, the
  font, the snapshot of the text screen, single pixels and clearing the screen. A port or memory
  access of the code is an event of the history \<open>io\<close>; the content of a register or of a byte of
  video memory is the last value the history sends there. \<open>crt\<close> is the text screen as the text
  mode shows it; no other mode reads it.

  \<open>setpixel\<close> copies 8 bytes into a 4-byte variable; the model keeps the 8 reads and the value of
  the variable, not the 4 bytes of the stack behind it.
\<close>

section \<open>Registers\<close>

abbreviation VGA_AC_INDEX :: u16 where "VGA_AC_INDEX \<equiv> 0x3C0"
abbreviation VGA_AC_WRITE :: u16 where "VGA_AC_WRITE \<equiv> 0x3C0"
abbreviation VGA_MISC_WRITE :: u16 where "VGA_MISC_WRITE \<equiv> 0x3C2"
abbreviation VGA_SEQ_INDEX :: u16 where "VGA_SEQ_INDEX \<equiv> 0x3C4"
abbreviation VGA_SEQ_DATA :: u16 where "VGA_SEQ_DATA \<equiv> 0x3C5"
abbreviation VGA_GC_INDEX :: u16 where "VGA_GC_INDEX \<equiv> 0x3CE"
abbreviation VGA_GC_DATA :: u16 where "VGA_GC_DATA \<equiv> 0x3CF"
abbreviation VGA_CRTC_INDEX :: u16 where "VGA_CRTC_INDEX \<equiv> 0x3D4"
abbreviation VGA_CRTC_DATA :: u16 where "VGA_CRTC_DATA \<equiv> 0x3D5"
abbreviation VGA_INSTAT_READ :: u16 where "VGA_INSTAT_READ \<equiv> 0x3DA"

abbreviation VGA_NUM_SEQ_REGS :: nat where "VGA_NUM_SEQ_REGS \<equiv> 5"
abbreviation VGA_NUM_CRTC_REGS :: nat where "VGA_NUM_CRTC_REGS \<equiv> 25"
abbreviation VGA_NUM_GC_REGS :: nat where "VGA_NUM_GC_REGS \<equiv> 9"
abbreviation VGA_NUM_AC_REGS :: nat where "VGA_NUM_AC_REGS \<equiv> 21"

text \<open>A table: the miscellaneous register, then the sequencer, CRT controller, graphics controller
  and attribute controller.\<close>

definition registers_80x25_text :: "u8 list" where
  "registers_80x25_text =
    [0x67,
     0x03, 0x00, 0x03, 0x00, 0x02,
     0x5F, 0x4F, 0x50, 0x82, 0x55, 0x81, 0xBF, 0x1F,
     0x00, 0x4F, 0x0D, 0x0E, 0x00, 0x00, 0x00, 0x50,
     0x9C, 0x0E, 0x8F, 0x28, 0x1F, 0x96, 0xB9, 0xA3,
     0xFF,
     0x00, 0x00, 0x00, 0x00, 0x00, 0x10, 0x0E, 0x00,
     0xFF,
     0x00, 0x01, 0x02, 0x03, 0x04, 0x05, 0x14, 0x07,
     0x38, 0x39, 0x3A, 0x3B, 0x3C, 0x3D, 0x3E, 0x3F,
     0x0C, 0x00, 0x0F, 0x08, 0x00]"

definition registers_320x200x256 :: "u8 list" where
  "registers_320x200x256 =
    [0x63,
     0x03, 0x01, 0x0F, 0x00, 0x0E,
     0x5F, 0x4F, 0x50, 0x82, 0x54, 0x80, 0xBF, 0x1F,
     0x00, 0x41, 0x00, 0x00, 0x00, 0x00, 0x00, 0x00,
     0x9C, 0x0E, 0x8F, 0x28, 0x40, 0x96, 0xB9, 0xA3,
     0xFF,
     0x00, 0x00, 0x00, 0x00, 0x00, 0x40, 0x05, 0x0F,
     0xFF,
     0x00, 0x01, 0x02, 0x03, 0x04, 0x05, 0x06, 0x07,
     0x08, 0x09, 0x0A, 0x0B, 0x0C, 0x0D, 0x0E, 0x0F,
     0x41, 0x00, 0x0F, 0x00, 0x00]"

definition registers_640x480x16 :: "u8 list" where
  "registers_640x480x16 =
    [0xE3,
     0x03, 0x01, 0x08, 0x00, 0x06,
     0x5F, 0x4F, 0x50, 0x82, 0x54, 0x80, 0x0B, 0x3E,
     0x00, 0x40, 0x00, 0x00, 0x00, 0x00, 0x00, 0x00,
     0xEA, 0x0C, 0xDF, 0x28, 0x00, 0xE7, 0x04, 0xE3,
     0xFF,
     0x00, 0x00, 0x00, 0x00, 0x03, 0x00, 0x05, 0x0F,
     0xFF,
     0x00, 0x01, 0x02, 0x03, 0x04, 0x05, 0x14, 0x07,
     0x38, 0x39, 0x3A, 0x3B, 0x3C, 0x3D, 0x3E, 0x3F,
     0x01, 0x00, 0x0F, 0x00, 0x00]"

text \<open>Writing registers \<open>0, ..., n - 1\<close> of an indexed port pair.\<close>

definition write_regs :: "u16 \<Rightarrow> u16 \<Rightarrow> u8 list \<Rightarrow> nat \<Rightarrow> 'a hw_state_scheme \<Rightarrow> 'a hw_state_scheme" where
  "write_regs ip dp rs n s = fold (\<lambda>i s. outb dp (rs ! i) (outb ip (of_nat i) s)) [0..<n] s"

definition write_ac_regs :: "u8 list \<Rightarrow> nat \<Rightarrow> 'a hw_state_scheme \<Rightarrow> 'a hw_state_scheme" where
  "write_ac_regs rs n s =
     fold (\<lambda>i s. outb VGA_AC_WRITE (rs ! i) (outb VGA_AC_INDEX (of_nat i) (snd (inb VGA_INSTAT_READ s)))) [0..<n] s"

text \<open>The CRT controller's part of a table, with the two bits that keep it unlocked. The code
  stores them into the table; in all three tables they are already as it sets them
  (\<open>tables_unlocked\<close> below), so a table never changes.\<close>

definition unlocked :: "u8 list \<Rightarrow> u8 list" where
  "unlocked rs = (let rs = rs[0x03 := rs ! 0x03 OR 0x80] in rs[0x11 := rs ! 0x11 AND NOT 0x80])"

definition writeVideoRegisters :: "u8 list \<Rightarrow> 'a hw_state_scheme \<Rightarrow> 'a hw_state_scheme" where
  "writeVideoRegisters regs s =
     (let s = outb VGA_MISC_WRITE (regs ! 0) s;
          regs = drop 1 regs;
          s = write_regs VGA_SEQ_INDEX VGA_SEQ_DATA regs VGA_NUM_SEQ_REGS s;
          regs = drop VGA_NUM_SEQ_REGS regs;
          s = outb VGA_CRTC_INDEX 0x03 s;
          (v, s) = inb VGA_CRTC_DATA s;
          s = outb VGA_CRTC_DATA (v OR 0x80) s;
          s = outb VGA_CRTC_INDEX 0x11 s;
          (v, s) = inb VGA_CRTC_DATA s;
          s = outb VGA_CRTC_DATA (v AND NOT 0x80) s;
          regs = unlocked regs;
          s = write_regs VGA_CRTC_INDEX VGA_CRTC_DATA regs VGA_NUM_CRTC_REGS s;
          regs = drop VGA_NUM_CRTC_REGS regs;
          s = write_regs VGA_GC_INDEX VGA_GC_DATA regs VGA_NUM_GC_REGS s;
          regs = drop VGA_NUM_GC_REGS regs;
          s = write_ac_regs regs VGA_NUM_AC_REGS s;
          s = snd (inb VGA_INSTAT_READ s)
      in outb VGA_AC_INDEX 0x20 s)"

definition consolevgaplane :: "u8 \<Rightarrow> 'a hw_state_scheme \<Rightarrow> 'a hw_state_scheme" where
  "consolevgaplane plane s =
     (let plane = plane AND 3;
          planeMask = push_bit (unat plane) 1;
          s = outb VGA_GC_INDEX 4 s;
          s = outb VGA_GC_DATA plane s;
          s = outb VGA_SEQ_INDEX 2 s
      in outb VGA_SEQ_DATA planeMask s)"

section \<open>The font\<close>

definition write_bytes :: "u32 \<Rightarrow> u8 list \<Rightarrow> 'a hw_state_scheme \<Rightarrow> 'a hw_state_scheme" where
  "write_bytes a bs s = fold (\<lambda>j. vwrite (a + of_nat j) (bs ! j)) [0..<length bs] s"

definition writeFont :: "u8 list \<Rightarrow> nat \<Rightarrow> 'a hw_state_scheme \<Rightarrow> 'a hw_state_scheme" where
  "writeFont fontBuffer fontHeight s =
     (let s = outb VGA_SEQ_INDEX 2 s; (seq2, s) = inb VGA_SEQ_DATA s;
          s = outb VGA_SEQ_INDEX 4 s; (seq4, s) = inb VGA_SEQ_DATA s;
          s = outb VGA_SEQ_DATA (seq4 OR 0x04) s;
          s = outb VGA_GC_INDEX 4 s; (gc4, s) = inb VGA_GC_DATA s;
          s = outb VGA_GC_INDEX 5 s; (gc5, s) = inb VGA_GC_DATA s;
          s = outb VGA_GC_DATA (gc5 AND NOT 0x10) s;
          s = outb VGA_GC_INDEX 6 s; (gc6, s) = inb VGA_GC_DATA s;
          s = outb VGA_GC_DATA (gc6 AND NOT 0x02) s;
          s = consolevgaplane 2 s;
          s = fold (\<lambda>i. write_bytes (P2V 0xB8000 + 32 * of_nat i)
                          (take fontHeight (drop (i * fontHeight) fontBuffer))) [0..<256] s;
          s = outb VGA_SEQ_INDEX 2 s; s = outb VGA_SEQ_DATA seq2 s;
          s = outb VGA_SEQ_INDEX 4 s; s = outb VGA_SEQ_DATA seq4 s;
          s = outb VGA_GC_INDEX 4 s; s = outb VGA_GC_DATA gc4 s;
          s = outb VGA_GC_INDEX 5 s; s = outb VGA_GC_DATA gc5 s;
          s = outb VGA_GC_INDEX 6 s
      in outb VGA_GC_DATA gc6 s)"

section \<open>The snapshot and the modes\<close>

definition snapshotTextRestore :: "'a cons_state_scheme \<Rightarrow> 'a cons_state_scheme" where
  "snapshotTextRestore s =
     (let s = s\<lparr>crt := (\<lambda>i. if i < 2000 then (ucast (registerCopy s i) AND 0xff) OR 0x0700 else crt s i)\<rparr>
      in write_cursor (cursorPos s) s)"

definition snapshotTextTake :: "'a cons_state_scheme \<Rightarrow> 'a cons_state_scheme" where
  "snapshotTextTake s =
     (if currentvgamode s = 0x03 then
        let s = s\<lparr>registerCopy := (\<lambda>i. if i < 2000 then ucast (crt s i) else registerCopy s i)\<rparr>;
            (TempPos, s) = read_cursor s
        in s\<lparr>cursorPos := TempPos\<rparr>
      else s)"

definition consolevgamode :: "int \<Rightarrow> 'a cons_state_scheme \<Rightarrow> int \<times> 'a cons_state_scheme" where
  "consolevgamode vgamode s =
     (if vgamode = 0x03 then
        let s = writeVideoRegisters registers_80x25_text s;
            s = writeFont font_8x16 16 s;
            s = snapshotTextRestore s
        in (0, s\<lparr>currentvgamode := 0x03\<rparr>)
      else if vgamode = 0x12 then
        let s = snapshotTextTake s;
            s = writeVideoRegisters registers_640x480x16 s
        in (0, s\<lparr>currentvgamode := 0x12\<rparr>)
      else if vgamode = 0x13 then
        let s = snapshotTextTake s;
            s = writeVideoRegisters registers_320x200x256 s
        in (0, s\<lparr>currentvgamode := 0x13\<rparr>)
      else (- 1, s))"

definition consolevgabuffer :: "'a hw_state_scheme \<Rightarrow> u32 \<times> 'a hw_state_scheme" where
  "consolevgabuffer s =
     (let s = outb VGA_GC_INDEX 6 s;
          (plane, s) = inb VGA_GC_DATA s;
          plane = drop_bit 2 plane;
          plane = plane AND 3;
          base = (if plane = 0 \<or> plane = 1 then P2V 0xA0000
                  else if plane = 2 then P2V 0xB0000 else P2V 0xB8000)
      in (base, s))"

section \<open>Pixels\<close>

text \<open>Division and remainder of C, which round towards zero.\<close>

definition cdiv :: "int \<Rightarrow> int \<Rightarrow> int" where
  "cdiv a b = sgn a * (\<bar>a\<bar> div b)"

definition binaryStuff :: "u32 \<Rightarrow> u32" where
  "binaryStuff x_pos =
     (let r = sint x_pos - 8 * cdiv (sint x_pos) 8 in
      if r = 0 then 128 else if r = 1 then 64 else if r = 2 then 32 else if r = 3 then 16
      else if r = 4 then 8 else if r = 5 then 4 else if r = 6 then 2 else if r = 7 then 1
      else - 1)"

text \<open>Which of the four planes a colour sets: \<open>BIT0, BIT1, BIT2, BIT3\<close>.\<close>

definition colour_bits :: "int \<Rightarrow> bool \<times> bool \<times> bool \<times> bool" where
  "colour_bits colourAsInt =
     (let BIT0 = (colourAsInt - 8 \<ge> 0); c = (if BIT0 then colourAsInt - 8 else colourAsInt);
          BIT1 = (c - 4 \<ge> 0); c = (if BIT1 then c - 4 else c);
          BIT2 = (c - 2 \<ge> 0); c = (if BIT2 then c - 2 else c);
          BIT3 = (c - 1 \<ge> 0)
      in (BIT0, BIT1, BIT2, BIT3))"

text \<open>The \<open>n\<close> bytes from \<open>a\<close> on.\<close>

definition read_bytes :: "u32 \<Rightarrow> nat \<Rightarrow> 'a hw_state_scheme \<Rightarrow> u8 list \<times> 'a hw_state_scheme" where
  "read_bytes a n s =
     fold (\<lambda>j (bs, s). case vread (a + of_nat j) s of (b, s) \<Rightarrow> (bs @ [b], s)) [0..<n] ([], s)"

text \<open>The block of code for one plane.\<close>

definition plane_pixel :: "u8 \<Rightarrow> u32 \<Rightarrow> u32 \<Rightarrow> u32 \<Rightarrow> 'a hw_state_scheme \<Rightarrow> 'a hw_state_scheme" where
  "plane_pixel plane pos_x pos_y BitAddition s =
     (let s = consolevgaplane plane s;
          (memoryPointer, s) = consolevgabuffer s;
          targetByte = memoryPointer + of_int (cdiv (sint (640 * pos_y + pos_x)) 8);
          (bs, s) = read_bytes targetByte 8 s;
          byteFromMemory = ld32 (\<lambda>i. bs ! i) 0;
          byteFromMemory = byteFromMemory + BitAddition
      in vwrite targetByte (ucast byteFromMemory) s)"

definition setpixel :: "u32 \<Rightarrow> u32 \<Rightarrow> u32 \<Rightarrow> 'a cons_state_scheme \<Rightarrow> int \<times> 'a cons_state_scheme" where
  "setpixel pos_x pos_y VGA_COLOR s =
     (if currentvgamode s = 0x13 then
        (0, vwrite (P2V 0xA0000 + 320 * pos_y + pos_x) (ucast VGA_COLOR) s)
      else if currentvgamode s = 0x12 then
        let BitAddition = binaryStuff pos_x;
            (BIT0, BIT1, BIT2, BIT3) = colour_bits (sint VGA_COLOR);
            s = (if BIT3 then plane_pixel 0 pos_x pos_y BitAddition s else s);
            s = (if BIT2 then plane_pixel 1 pos_x pos_y BitAddition s else s);
            s = (if BIT1 then plane_pixel 2 pos_x pos_y BitAddition s else s);
            s = (if BIT0 then plane_pixel 3 pos_x pos_y BitAddition s else s)
        in (0, s)
      else (0, s))"

text \<open>A store of a zero \<open>ushort\<close> clears two bytes.\<close>

definition zeroFillScreen13h :: "'a hw_state_scheme \<Rightarrow> 'a hw_state_scheme" where
  "zeroFillScreen13h s =
     fold (\<lambda>i s. vwrite (P2V 0xA0000 + 2 * of_nat i + 1) 0 (vwrite (P2V 0xA0000 + 2 * of_nat i) 0 s)) [0..<64000] s"

text \<open>The body of the loop over the planes, and the loop.\<close>

definition zero_plane :: "nat \<Rightarrow> 'a hw_state_scheme \<Rightarrow> 'a hw_state_scheme" where
  "zero_plane planeNo s =
     (let s = consolevgaplane (of_nat planeNo) s;
          (memoryPointer, s) = consolevgabuffer s
      in fold (\<lambda>pos_X. fold (\<lambda>pos_Y. vwrite (memoryPointer + 640 * of_nat pos_Y + of_nat pos_X) 0) [0..<480])
           [0..<640] s)"

definition zeroFillScreen12h :: "'a hw_state_scheme \<Rightarrow> 'a hw_state_scheme" where
  "zeroFillScreen12h s = fold zero_plane [0..<4] s"

section \<open>What the registers hold\<close>

text \<open>The three port pairs; none of their ports is that of another.\<close>

lemma write_regs_Suc:
  "write_regs ip dp rs 0 s = s"
  "write_regs ip dp rs (Suc n) s = outb dp (rs ! n) (outb ip (of_nat n) (write_regs ip dp rs n s))"
  by (simp_all add: write_regs_def)

lemma write_ac_regs_Suc:
  "write_ac_regs rs 0 s = s"
  "write_ac_regs rs (Suc n) s =
     outb VGA_AC_WRITE (rs ! n) (outb VGA_AC_INDEX (of_nat n) (snd (inb VGA_INSTAT_READ (write_ac_regs rs n s))))"
  by (simp_all add: write_ac_regs_def)

lemma of_nat_u8_eq: "i < 256 \<Longrightarrow> j < 256 \<Longrightarrow> (of_nat i :: u8) = of_nat j \<longleftrightarrow> i = j"
  by (simp add: word_unat_eq_iff unat_of_nat)

lemma inb_simps [simp]:
  "io (snd (inb p s)) = In p # io s" "dev (snd (inb p s)) = dev s" "vmem (snd (inb p s)) = vmem s"
  "fst (inb p s) = dev s (io s) p"
  by (simp_all add: inb_def)

lemma write_regs_dev [simp]:
  "dev (write_regs ip dp rs n s) = dev s" "dev (write_ac_regs rs n s) = dev s"
  "vmem (write_regs ip dp rs n s) = vmem s" "vmem (write_ac_regs rs n s) = vmem s"
  by (induction n) (simp_all add: write_regs_Suc write_ac_regs_Suc)

lemma reg_val_write_regs:
  assumes "ip \<noteq> dp" and "i < n" and "n \<le> 256"
  shows "reg_val ip dp (of_nat i) (io (write_regs ip dp rs n s)) = Some (rs ! i)"
  using assms(2,3)
proof (induction n)
  case (Suc n)
  then show ?case using assms(1) by (auto simp: write_regs_Suc of_nat_u8_eq less_Suc_eq)
qed simp

lemma reg_val_write_regs_other [simp]:
  "dp' \<noteq> ip \<Longrightarrow> dp' \<noteq> dp \<Longrightarrow> reg_val ip' dp' i (io (write_regs ip dp rs n s)) = reg_val ip' dp' i (io s)"
  by (induction n) (simp_all add: write_regs_Suc)

lemma reg_val_write_ac_regs [simp]:
  "dp' \<noteq> VGA_AC_INDEX \<Longrightarrow> reg_val ip' dp' i (io (write_ac_regs rs n s)) = reg_val ip' dp' i (io s)"
  by (induction n) (simp_all add: write_ac_regs_Suc)

lemma nth_unlocked: "i < length rs \<Longrightarrow> unlocked rs ! i =
    (if i = 0x11 then rs ! i AND NOT 0x80 else if i = 0x03 then rs ! i OR 0x80 else rs ! i)"
  by (simp add: unlocked_def nth_list_update)

lemma length_unlocked [simp]: "length (unlocked rs) = length rs"
  by (simp add: unlocked_def)

lemma drop_unlocked: "drop 25 (unlocked rs) = drop 25 rs"
  by (simp add: unlocked_def)

lemma writeVideoRegisters_regs:
  assumes "length regs = 61"
  shows "i < 5 \<Longrightarrow> reg_val VGA_SEQ_INDEX VGA_SEQ_DATA (of_nat i) (io (writeVideoRegisters regs s)) = Some (regs ! (1 + i))"
    and "i < 25 \<Longrightarrow> reg_val VGA_CRTC_INDEX VGA_CRTC_DATA (of_nat i) (io (writeVideoRegisters regs s)) =
      Some (unlocked (drop 6 regs) ! i)"
    and "i < 9 \<Longrightarrow> reg_val VGA_GC_INDEX VGA_GC_DATA (of_nat i) (io (writeVideoRegisters regs s)) = Some (regs ! (31 + i))"
    and "dev (writeVideoRegisters regs s) = dev s"
  using assms
  by (simp_all add: writeVideoRegisters_def Let_def split_beta reg_val_write_regs drop_unlocked)

lemma tables_unlocked:
  assumes "T \<in> {registers_80x25_text, registers_320x200x256, registers_640x480x16}"
  shows "length T = 61" "unlocked (drop 6 T) = drop 6 T"
  using assms
  by (auto simp: unlocked_def registers_80x25_text_def registers_320x200x256_def registers_640x480x16_def)

lemma vwrite_simps [simp]:
  "io (vwrite a v s) = MW a v # io s" "dev (vwrite a v s) = dev s" "vmem (vwrite a v s) = vmem s"
  by (simp_all add: vwrite_def)

fun is_mw :: "ioev \<Rightarrow> bool" where
  "is_mw (MW a v) = True"
| "is_mw e = False"

lemma write_bytes_events:
  "\<exists>es. io (write_bytes a bs s) = es @ io s \<and> (\<forall>e\<in>set es. is_mw e) \<and> dev (write_bytes a bs s) = dev s"
proof -
  have "\<exists>es. io (fold (\<lambda>j. vwrite (a + of_nat j) (bs ! j)) js s) = es @ io s \<and> (\<forall>e\<in>set es. is_mw e) \<and>
      dev (fold (\<lambda>j. vwrite (a + of_nat j) (bs ! j)) js s) = dev s" for js
  proof (induction js arbitrary: s)
    case (Cons j js)
    from Cons [of "vwrite (a + of_nat j) (bs ! j) s"] show ?case by fastforce
  qed simp
  then show ?thesis by (simp add: write_bytes_def)
qed

lemma last_out_MW: "\<forall>e\<in>set es. is_mw e \<Longrightarrow> last_out p (es @ h) = last_out p h"
  by (induction es) (auto elim!: is_mw.elims)

lemma reg_val_MW: "\<forall>e\<in>set es. is_mw e \<Longrightarrow> reg_val ip dp i (es @ h) = reg_val ip dp i h"
  by (induction es) (auto elim!: is_mw.elims)

lemma write_bytes_regs [simp]:
  "last_out p (io (write_bytes a bs s)) = last_out p (io s)"
  "reg_val ip dp i (io (write_bytes a bs s)) = reg_val ip dp i (io s)" "dev (write_bytes a bs s) = dev s"
proof -
  from write_bytes_events obtain es where es: "io (write_bytes a bs s) = es @ io s" "\<forall>e\<in>set es. is_mw e"
    and "dev (write_bytes a bs s) = dev s" by blast
  then show "last_out p (io (write_bytes a bs s)) = last_out p (io s)"
    "reg_val ip dp i (io (write_bytes a bs s)) = reg_val ip dp i (io s)" "dev (write_bytes a bs s) = dev s"
    by (simp_all add: last_out_MW reg_val_MW)
qed

lemma fold_write_bytes_regs [simp]:
  "last_out p (io (fold (\<lambda>i. write_bytes (f i) (g i)) js s)) = last_out p (io s)"
  "reg_val ip dp i (io (fold (\<lambda>i. write_bytes (f i) (g i)) js s)) = reg_val ip dp i (io s)"
  "dev (fold (\<lambda>i. write_bytes (f i) (g i)) js s) = dev s"
  by (induction js arbitrary: s) simp_all

lemma indexed_portD:
  "indexed_port d ip dp \<Longrightarrow> last_out ip h = Some i \<Longrightarrow> reg_val ip dp i h = Some v \<Longrightarrow> d h dp = v"
  unfolding indexed_port_def by blast

lemma writeFont_restores:
  assumes seq: "indexed_port (dev s) VGA_SEQ_INDEX VGA_SEQ_DATA" and gc: "indexed_port (dev s) VGA_GC_INDEX VGA_GC_DATA"
    and old: "reg_val VGA_SEQ_INDEX VGA_SEQ_DATA 2 (io s) = Some seq2" "reg_val VGA_SEQ_INDEX VGA_SEQ_DATA 4 (io s) = Some seq4"
      "reg_val VGA_GC_INDEX VGA_GC_DATA 4 (io s) = Some gc4" "reg_val VGA_GC_INDEX VGA_GC_DATA 5 (io s) = Some gc5"
      "reg_val VGA_GC_INDEX VGA_GC_DATA 6 (io s) = Some gc6"
  shows "reg_val VGA_SEQ_INDEX VGA_SEQ_DATA i (io (writeFont f n s)) = reg_val VGA_SEQ_INDEX VGA_SEQ_DATA i (io s)"
    "reg_val VGA_GC_INDEX VGA_GC_DATA i (io (writeFont f n s)) = reg_val VGA_GC_INDEX VGA_GC_DATA i (io s)"
    "reg_val VGA_CRTC_INDEX VGA_CRTC_DATA i (io (writeFont f n s)) = reg_val VGA_CRTC_INDEX VGA_CRTC_DATA i (io s)"
    "dev (writeFont f n s) = dev s"
proof -
  note rs = indexed_portD [OF seq] and rg = indexed_portD [OF gc]
  show "reg_val VGA_SEQ_INDEX VGA_SEQ_DATA i (io (writeFont f n s)) = reg_val VGA_SEQ_INDEX VGA_SEQ_DATA i (io s)"
    using old(1,2)
    by (auto simp: writeFont_def Let_def split_beta consolevgaplane_def rs [where v = seq2] rs [where v = seq4])
  show "reg_val VGA_GC_INDEX VGA_GC_DATA i (io (writeFont f n s)) = reg_val VGA_GC_INDEX VGA_GC_DATA i (io s)"
    using old(3-5)
    by (auto simp: writeFont_def Let_def split_beta consolevgaplane_def rg [where v = gc4] rg [where v = gc5] rg [where v = gc6])
  show "reg_val VGA_CRTC_INDEX VGA_CRTC_DATA i (io (writeFont f n s)) = reg_val VGA_CRTC_INDEX VGA_CRTC_DATA i (io s)"
    "dev (writeFont f n s) = dev s"
    by (simp_all add: writeFont_def Let_def split_beta consolevgaplane_def)
qed

section \<open>Switching modes\<close>

text \<open>Everything but the history of accesses.\<close>

definition rest :: "'a hw_state_scheme \<Rightarrow> 'a hw_state_scheme" where
  "rest s = s\<lparr>io := []\<rparr>"

lemma rest_ops [simp]:
  "rest (outb p v s) = rest s" "rest (snd (inb p s)) = rest s" "rest (vwrite a v s) = rest s"
  by (simp_all add: rest_def outb_def inb_def vwrite_def)

lemma rest_loops [simp]:
  "rest (write_regs ip dp rs n s) = rest s" "rest (write_ac_regs rs n s) = rest s"
  by (induction n) (simp_all add: write_regs_Suc write_ac_regs_Suc)

lemma rest_write_bytes [simp]: "rest (write_bytes a bs s) = rest s"
proof -
  have "rest (fold (\<lambda>j. vwrite (a + of_nat j) (bs ! j)) js s) = rest s" for js
    by (induction js arbitrary: s) simp_all
  then show ?thesis by (simp add: write_bytes_def)
qed

lemma rest_fold_write_bytes [simp]: "rest (fold (\<lambda>i. write_bytes (f i) (g i)) js s) = rest s"
  by (induction js arbitrary: s) simp_all

lemma rest_video [simp]:
  "rest (writeVideoRegisters regs s) = rest s" "rest (writeFont f n s) = rest s"
  "rest (consolevgaplane p s) = rest s" "rest (snd (consolevgabuffer s)) = rest s" "rest (write_cursor pos s) = rest s"
  by (simp_all add: writeVideoRegisters_def writeFont_def consolevgaplane_def consolevgabuffer_def write_cursor_def
    Let_def split_beta)

lemma rest_fields:
  assumes "rest t = rest s"
  shows "crt t = crt s" "registerCopy t = registerCopy s" "cursorPos t = cursorPos s"
    "currentvgamode t = currentvgamode s" "panicked t = panicked s" "dev t = dev s" "vmem t = vmem s"
proof -
  have f: "crt (rest s) = crt s" "registerCopy (rest s) = registerCopy s" "cursorPos (rest s) = cursorPos s"
    "currentvgamode (rest s) = currentvgamode s" "panicked (rest s) = panicked s" "dev (rest s) = dev s"
    "vmem (rest s) = vmem s" for s :: "'a cons_state_scheme" by (simp_all add: rest_def)
  show "crt t = crt s" "registerCopy t = registerCopy s" "cursorPos t = cursorPos s"
    "currentvgamode t = currentvgamode s" "panicked t = panicked s" "dev t = dev s" "vmem t = vmem s"
    using assms by (metis f(1), metis f(2), metis f(3), metis f(4), metis f(5), metis f(6), metis f(7))
qed

definition mode_table :: "int \<Rightarrow> u8 list" where
  "mode_table m = (if m = 0x03 then registers_80x25_text
     else if m = 0x12 then registers_640x480x16 else registers_320x200x256)"

lemma mode_table_ok: "length (mode_table m) = 61" "unlocked (drop 6 (mode_table m)) = drop 6 (mode_table m)"
  using tables_unlocked [of "mode_table m"] by (auto simp: mode_table_def)

text \<open>Entering a graphics mode, and entering text mode.\<close>

lemma consolevgamode_graphics:
  "m \<in> {0x12, 0x13} \<Longrightarrow> consolevgamode m s =
     (0, (writeVideoRegisters (mode_table m) (snapshotTextTake s))\<lparr>currentvgamode := of_int m\<rparr>)"
  by (auto simp: consolevgamode_def mode_table_def)

lemma consolevgamode_text:
  "consolevgamode 0x03 s =
     (0, (snapshotTextRestore (writeFont font_8x16 16 (writeVideoRegisters (mode_table 3) s)))\<lparr>currentvgamode := 0x03\<rparr>)"
  by (simp add: consolevgamode_def mode_table_def)

lemma bit_255: "bit (0xff :: int) n \<longleftrightarrow> n < 8"
proof -
  have "(0xff :: int) = mask 8" by (simp add: mask_eq_exp_minus_1)
  then show ?thesis by (simp only: bit_mask_iff) auto
qed

lemma ucast_numeral700: "(ucast (0x0700 :: u16) :: u8) = 0x0700"
  by simp

lemma low_byte: "ucast ((ucast b AND 0xff) OR 0x0700 :: u16) = (b :: u8)"
proof -
  have "(0x0700 :: u8) = 0" by simp
  moreover have "(ucast (ucast b AND 0xff :: u16) :: u8) = b"
    by (rule bit_word_eqI) (auto simp: bit_simps bit_255)
  ultimately show ?thesis by (simp only: unsigned_or_eq ucast_numeral700 or.right_neutral)
qed

lemma crt_write_cursor [simp]: "crt (write_cursor pos s) = crt s"
  by (rule rest_fields) simp

lemma snapshotTextRestore_crt:
  "i < 2000 \<Longrightarrow> crt (snapshotTextRestore s) i = (ucast (registerCopy s i) AND 0xff) OR 0x0700"
  by (simp add: snapshotTextRestore_def)

lemma snapshotTextRestore_io: "io (snapshotTextRestore s) =
    [Out 0x3d5 (of_nat (cursorPos s)), Out 0x3d4 15, Out 0x3d5 (of_nat (cursorPos s div 256)), Out 0x3d4 14] @ io s"
  by (simp add: snapshotTextRestore_def write_cursor_def Let_def)


text \<open>Both port pairs as registers.\<close>

definition two_register_files :: "ioev list \<Rightarrow> u16 \<Rightarrow> u8" where
  "two_register_files h p =
     (if p = 0x3C5 then register_file 0x3C4 0x3C5 h p else if p = 0x3CF then register_file 0x3CE 0x3CF h p
      else register_file 0x3D4 0x3D5 h p)"

lemma two_register_files_indexed:
  "indexed_port two_register_files 0x3C4 0x3C5" "indexed_port two_register_files 0x3CE 0x3CF"
  "indexed_port two_register_files 0x3D4 0x3D5"
  by (auto simp: indexed_port_def two_register_files_def register_file_def)


text \<open>C16: Text survives the graphics modes: enter a graphics mode, print some text (no
  backspaces), go back to text mode. The screen shows what printing the text in text mode would
  have shown, and the cursor is where it would have been.\<close>

theorem mode_switch_keeps_text:
  assumes dev: "indexed_port (dev s) CRTPORT (CRTPORT + 1)" and s: "\<not> panicked s" "currentvgamode s = 0x03"
    and pos: "cursor_at s pos" "pos < 1920" and blank: "\<And>i. pos \<le> i \<Longrightarrow> i < 1920 \<Longrightarrow> shows_as (ucast (crt s i)) = 32"
    and m: "m \<in> {0x12, 0x13}" and cs: "BACKSPACE \<notin> set cs"
  shows "\<exists>t u. consputs cs s = Ret () t \<and> consputs cs (snd (consolevgamode m s)) = Ret () u \<and>
    (let v = snd (consolevgamode 0x03 u) in currentvgamode v = 0x03 \<and>
      (\<exists>p. cursor_at t p \<and> cursor_at v p) \<and>
      (\<forall>i<1920. shows_as (ucast (crt v i)) = shows_as (ucast (crt t i))))"
proof -
  let ?w = "writeVideoRegisters (mode_table m) (snapshotTextTake s)"
  let ?g = "?w\<lparr>currentvgamode := of_int m\<rparr>"
  have g: "snd (consolevgamode m s) = ?g" by (simp add: consolevgamode_graphics [OF m])
  note w = rest_fields [of ?w "snapshotTextTake s", simplified]
  let ?r = "\<lambda>i. if i < 2000 then ucast (crt s i) else registerCopy s i"
  have "cursor_at (s\<lparr>registerCopy := ?r\<rparr>) pos" using pos(1) by (simp add: cursor_at_def)
  then have k: "registerCopy ?w = ?r" "cursorPos ?w = pos" "panicked ?w = panicked s"
    using dev s(2) by (simp_all add: w) (simp_all add: snapshotTextTake_def read_cursor_at)
  have "of_int m \<noteq> (3 :: u32)" using m by auto
  then have "shadows s ?g" using dev s pos blank by (auto simp: shadows_def k same_text_def)
  from consputs_shadows [OF this cs] obtain t u where
    tu: "consputs cs s = Ret () t" "consputs cs ?g = Ret () u" "shadows t u" by blast
  let ?f = "writeFont font_8x16 16 (writeVideoRegisters (mode_table 3) u)"
  note f = rest_fields [of ?f u, simplified]
  let ?v = "snd (consolevgamode 0x03 u)"
  have v: "?v = (snapshotTextRestore ?f)\<lparr>currentvgamode := 0x03\<rparr>" by (simp add: consolevgamode_text)
  have pu: "cursor_at t (cursorPos u)" "cursorPos u < 1920" "same_text (crt t) (registerCopy u) (cursorPos u)"
    using tu(3) by (simp_all add: shadows_def)
  have "cursor_at ?v (cursorPos u)"
    using pu(2) by (simp add: v cursor_at_def snapshotTextRestore_io f)
  moreover have "shows_as (ucast (crt ?v i)) = shows_as (ucast (crt t i))" if "i < 1920" for i
    using pu(3) that by (simp add: v snapshotTextRestore_crt same_text_def f low_byte)
  ultimately show ?thesis using tu(1,2) pu(1) unfolding g by (auto simp: v Let_def)
qed

theorem mode_switch_keeps_text_witness:
  "\<exists>t u. consputs [104, 105] cons_start = Ret () t \<and> consputs [104, 105] (snd (consolevgamode 0x13 cons_start)) = Ret () u \<and>
    (\<forall>i<1920. shows_as (ucast (crt (snd (consolevgamode 0x03 u)) i)) = shows_as (ucast (crt t i)))"
proof -
  have "\<exists>t u. consputs [104, 105] cons_start = Ret () t \<and> consputs [104, 105] (snd (consolevgamode 0x13 cons_start)) = Ret () u \<and>
    (let v = snd (consolevgamode 0x03 u) in currentvgamode v = 0x03 \<and> (\<exists>p. cursor_at t p \<and> cursor_at v p) \<and>
      (\<forall>i<1920. shows_as (ucast (crt v i)) = shows_as (ucast (crt t i))))"
    by (rule mode_switch_keeps_text [OF _ _ _ cons_start_ok(1)])
      (use register_file_indexed [of "0x3d4" "0x3d5"] in \<open>simp_all add: shows_as_def\<close>)
  then show ?thesis by (auto simp: Let_def)
qed

end
