(* ===== verification/Pixels.thy ===== *)
theory Pixels
  imports Video
begin

text \<open>
  What the pixel routines of \<open>console.c\<close> do to the picture. In the 640x480 mode the video memory
  is four planes; a byte written goes to the planes selected by sequencer register 2, a byte
  read comes from the plane selected by graphics controller register 4 (\<open>planar_memory\<close>). A
  pixel is one bit in each plane. In the 320x200 mode a pixel is one byte.
\<close>

section \<open>Planar memory\<close>

definition write_mask :: "ioev list \<Rightarrow> u8" where
  "write_mask h = (case reg_val VGA_SEQ_INDEX VGA_SEQ_DATA 2 h of None \<Rightarrow> 0 | Some m \<Rightarrow> m)"

fun plane_byte :: "nat \<Rightarrow> u32 \<Rightarrow> ioev list \<Rightarrow> u8 option" where
  "plane_byte p a [] = None"
| "plane_byte p a (MW b v # h) = (if b = a \<and> bit (write_mask h) p then Some v else plane_byte p a h)"
| "plane_byte p a (e # h) = plane_byte p a h"

definition planar_memory :: "(ioev list \<Rightarrow> u32 \<Rightarrow> u8) \<Rightarrow> bool" where
  "planar_memory v \<longleftrightarrow>
     (\<forall>h a p b. reg_val VGA_GC_INDEX VGA_GC_DATA 4 h = Some p \<longrightarrow> plane_byte (unat p) a h = Some b \<longrightarrow> v h a = b)"

text \<open>Memory that behaves so.\<close>

definition planar_ram :: "ioev list \<Rightarrow> u32 \<Rightarrow> u8" where
  "planar_ram h a = (case reg_val VGA_GC_INDEX VGA_GC_DATA 4 h of None \<Rightarrow> 0
     | Some p \<Rightarrow> (case plane_byte (unat p) a h of None \<Rightarrow> 0 | Some b \<Rightarrow> b))"

lemma planar_ram_planar: "planar_memory planar_ram"
  by (simp add: planar_memory_def planar_ram_def)

text \<open>The byte and the bit of a pixel, and its value in a plane.\<close>

definition pixel_addr :: "nat \<Rightarrow> nat \<Rightarrow> u32" where
  "pixel_addr x y = P2V 0xA0000 + of_nat ((640 * y + x) div 8)"

definition plane_bit :: "nat \<Rightarrow> nat \<Rightarrow> nat \<Rightarrow> ioev list \<Rightarrow> bool" where
  "plane_bit p x y h = (case plane_byte p (pixel_addr x y) h of None \<Rightarrow> False | Some b \<Rightarrow> bit b (7 - x mod 8))"

section \<open>One plane of a pixel\<close>

lemma read_bytes_eq:
  "read_bytes a n s = (map (\<lambda>j. vmem s (map (\<lambda>i. MR (a + of_nat i)) (rev [0..<j]) @ io s) (a + of_nat j)) [0..<n],
     s\<lparr>io := map (\<lambda>i. MR (a + of_nat i)) (rev [0..<n]) @ io s\<rparr>)"
proof (induction n)
  case (Suc n)
  have "read_bytes a (Suc n) s = (case read_bytes a n s of (bs, s) \<Rightarrow>
      case vread (a + of_nat n) s of (b, s) \<Rightarrow> (bs @ [b], s))" by (simp add: read_bytes_def)
  with Suc show ?case by (simp add: vread_def)
qed (simp add: read_bytes_def)

lemma plane_byte_MR [simp]: "plane_byte p a (map (\<lambda>i. MR (f i)) is @ h) = plane_byte p a h"
  by (induction "is") simp_all

lemma reg_val_MR [simp]: "reg_val ip dp j (map (\<lambda>i. MR (f i)) is @ h) = reg_val ip dp j h"
  by (induction "is") simp_all

lemma ucast_add8: "(ucast (a + b :: u32) :: u8) = ucast a + ucast b"
  by (simp add: word_unat_eq_iff unat_word_ariths unsigned_ucast_eq take_bit_eq_mod mod_mod_cancel mod_simps)

lemma ucast_ld32: "(ucast (ld32 f a) :: u8) = f a"
  by (rule bit_word_eqI) (auto simp: ld32_def bit_simps)

lemma pixel_offset:
  assumes "x < 640" and "y < 480"
  shows "of_int (cdiv (sint (640 * of_nat y + of_nat x :: u32)) 8) = (of_nat ((640 * y + x) div 8) :: u32)"
proof -
  let ?n = "640 * y + x"
  have n: "?n < 640 * 480" using assms by linarith
  have "(640 * of_nat y + of_nat x :: u32) = of_nat ?n" by simp
  moreover have "sint (of_nat ?n :: u32) = int ?n"
    using n by (simp only: sint32 unat_of_nat) simp
  ultimately have "sint (640 * of_nat y + of_nat x :: u32) = int ?n" by simp
  moreover have "cdiv (int ?n) 8 = int (?n div 8)"
    by (cases "?n = 0") (simp_all add: cdiv_def sgn_if zdiv_int)
  ultimately show ?thesis by (simp only: of_int_of_nat_eq)
qed

definition video12 :: "'a cons_state_scheme \<Rightarrow> bool" where
  "video12 s \<longleftrightarrow> currentvgamode s = 0x12 \<and> indexed_port (dev s) VGA_GC_INDEX VGA_GC_DATA \<and>
     planar_memory (vmem s) \<and> reg_val VGA_GC_INDEX VGA_GC_DATA 6 (io s) = Some 0x05"

lemma plane_cases: "p < 4 \<Longrightarrow> p = 0 \<or> p = 1 \<or> p = 2 \<or> p = (3 :: nat)"
  by linarith

text \<open>The accesses that \<open>plane_pixel\<close> makes before its last one.\<close>

definition plane_events :: "nat \<Rightarrow> u32 \<Rightarrow> ioev list" where
  "plane_events p a = map (\<lambda>i. MR (a + of_nat i)) (rev [0..<8]) @
     [In VGA_GC_DATA, Out VGA_GC_INDEX 6,
      Out VGA_SEQ_DATA (push_bit p 1), Out VGA_SEQ_INDEX 2, Out VGA_GC_DATA (of_nat p), Out VGA_GC_INDEX 4]"

lemma plane_events_skip:
  "plane_byte q a (plane_events p c @ h) = plane_byte q a h"
  "write_mask (plane_events p c @ h) = push_bit p 1"
  "i \<noteq> 4 \<Longrightarrow> reg_val VGA_GC_INDEX VGA_GC_DATA i (plane_events p c @ h) = reg_val VGA_GC_INDEX VGA_GC_DATA i h"
  by (simp_all add: plane_events_def write_mask_def)

lemma plane_pixel_eq:
  assumes v: "video12 s" and xy: "x < 640" "y < 480" and p: "p < 4"
    and b: "plane_byte p (pixel_addr x y) (io s) = Some b"
  shows "plane_pixel (of_nat p) (of_nat x) (of_nat y) BA s =
    s\<lparr>io := MW (pixel_addr x y) (b + ucast BA) # plane_events p (pixel_addr x y) @ io s\<rparr>"
proof -
  let ?a = "pixel_addr x y"
  let ?h1 = "[Out VGA_SEQ_DATA (push_bit p 1), Out VGA_SEQ_INDEX 2, Out VGA_GC_DATA (of_nat p), Out VGA_GC_INDEX 4] @ io s"
  have pl: "(of_nat p AND 3 :: u8) = of_nat p" "unat (of_nat p :: u8) = p"
    using plane_cases [OF p] by auto
  have c: "consolevgaplane (of_nat p) s = s\<lparr>io := ?h1\<rparr>"
    by (simp add: consolevgaplane_def pl outb_def)
  have "dev s (Out VGA_GC_INDEX 6 # ?h1) VGA_GC_DATA = 5"
    using v by (intro indexed_portD) (auto simp: video12_def)
  then have buf: "consolevgabuffer (s\<lparr>io := ?h1\<rparr>) = (P2V 0xA0000, s\<lparr>io := In VGA_GC_DATA # Out VGA_GC_INDEX 6 # ?h1\<rparr>)"
    by (simp add: consolevgabuffer_def inb_def outb_def Let_def)
  have "vmem s (In VGA_GC_DATA # Out VGA_GC_INDEX 6 # ?h1) ?a = b"
  proof -
    have "planar_memory (vmem s)" using v by (simp add: video12_def)
    then show ?thesis unfolding planar_memory_def using b pl by simp
  qed
  then have first: "fst (read_bytes ?a 8 (s\<lparr>io := In VGA_GC_DATA # Out VGA_GC_INDEX 6 # ?h1\<rparr>)) ! 0 = b"
    by (simp add: read_bytes_eq nth_map del: upt_Suc)
  have "P2V 0xA0000 + of_int (cdiv (sint (640 * of_nat y + of_nat x :: u32)) 8) = ?a"
    by (simp add: pixel_offset [OF xy] pixel_addr_def)
  then show ?thesis unfolding plane_pixel_def c buf Let_def split_beta fst_conv snd_conv
    using first by (simp add: ucast_add8 ucast_ld32 vwrite_def plane_events_def) (simp add: read_bytes_eq)
qed

lemma plane_pixel_byte:
  assumes v: "video12 s" and xy: "x < 640" "y < 480" and p: "p < 4"
    and b: "plane_byte p (pixel_addr x y) (io s) = Some b"
    and t: "t = plane_pixel (of_nat p) (of_nat x) (of_nat y) BA s"
  shows "plane_byte q a (io t) = (if q = p \<and> a = pixel_addr x y then Some (b + ucast BA) else plane_byte q a (io s))"
    and "video12 t"
proof -
  have k: "bit (2 ^ p :: u8) q' \<longleftrightarrow> q' = p" for q' using p by (auto simp: bit_simps)
  show "plane_byte q a (io t) = (if q = p \<and> a = pixel_addr x y then Some (b + ucast BA) else plane_byte q a (io s))"
    by (auto simp: t plane_pixel_eq [OF v xy p b] plane_events_skip k)
  show "video12 t" using v by (simp add: t plane_pixel_eq [OF v xy p b] plane_events_skip video12_def)
qed

section \<open>A pixel\<close>

lemma binaryStuff_eq:
  assumes "x < 640"
  shows "(ucast (binaryStuff (of_nat x)) :: u8) = 2 ^ (7 - x mod 8)"
proof -
  have "sint (of_nat x :: u32) = int x" using assms by (simp only: sint32 unat_of_nat) simp
  moreover have "cdiv (int x) 8 = int (x div 8)" by (cases "x = 0") (simp_all add: cdiv_def sgn_if zdiv_int)
  moreover have "int x - 8 * int (x div 8) = int (x mod 8)" by (simp add: zmod_int zdiv_int minus_mult_div_eq_mod)
  ultimately have r: "sint (of_nat x :: u32) - 8 * cdiv (sint (of_nat x :: u32)) 8 = int (x mod 8)" by simp
  have "x mod 8 < 8" by simp
  then have "x mod 8 = 0 \<or> x mod 8 = 1 \<or> x mod 8 = 2 \<or> x mod 8 = 3 \<or> x mod 8 = 4 \<or> x mod 8 = 5 \<or> x mod 8 = 6 \<or> x mod 8 = 7"
    by linarith
  then show ?thesis by (auto simp: binaryStuff_def r Let_def)
qed

lemma colour_bits_eq:
  assumes "c < 16"
  shows "colour_bits (int c) = (bit c 3, bit c 2, bit c 1, bit c 0)"
proof -
  have "c = 0 \<or> c = 1 \<or> c = 2 \<or> c = 3 \<or> c = 4 \<or> c = 5 \<or> c = 6 \<or> c = 7 \<or> c = 8 \<or> c = 9 \<or> c = 10 \<or>
      c = 11 \<or> c = 12 \<or> c = 13 \<or> c = 14 \<or> c = 15" using assms by presburger
  then show ?thesis by (elim disjE; simp add: colour_bits_def bit_0)
qed

definition pixel_step :: "nat \<Rightarrow> nat \<Rightarrow> nat \<Rightarrow> nat \<Rightarrow> 'a hw_state_scheme \<Rightarrow> 'a hw_state_scheme" where
  "pixel_step x y c p s =
     (if bit c p then plane_pixel (of_nat p) (of_nat x) (of_nat y) (binaryStuff (of_nat x)) s else s)"

lemma setpixel_steps:
  assumes "currentvgamode s = 0x12" and "c < 16"
  shows "setpixel (of_nat x) (of_nat y) (of_nat c) s = (0, fold (pixel_step x y c) [0, 1, 2, 3] s)"
proof -
  have "sint (of_nat c :: u32) = int c" using assms(2) by (simp only: sint32 unat_of_nat) simp
  then show ?thesis using assms by (simp add: setpixel_def colour_bits_eq Let_def pixel_step_def)
qed

lemma pixel_steps_bytes:
  assumes "video12 s" and xy: "x < 640" "y < 480" and "distinct ps" and "set ps \<subseteq> {..<4}"
    and "\<And>p. p \<in> set ps \<Longrightarrow> plane_byte p (pixel_addr x y) (io s) = Some (B p)"
  shows "plane_byte q a (io (fold (pixel_step x y c) ps s)) =
    (if a = pixel_addr x y \<and> q \<in> set ps \<and> bit c q then Some (B q + 2 ^ (7 - x mod 8)) else plane_byte q a (io s))"
  using assms(1,4-)
proof (induction ps arbitrary: s)
  case (Cons p ps)
  then have p: "p < 4" and b: "plane_byte p (pixel_addr x y) (io s) = Some (B p)" by auto
  let ?t = "pixel_step x y c p s"
  have t: "video12 ?t" "plane_byte q a (io ?t) = (if a = pixel_addr x y \<and> q = p \<and> bit c p
      then Some (B p + 2 ^ (7 - x mod 8)) else plane_byte q a (io s))" for q a
    using plane_pixel_byte [OF Cons.prems(1) xy p b refl] Cons.prems(1)
    by (auto simp: pixel_step_def binaryStuff_eq [OF xy(1)])
  have "plane_byte q a (io (fold (pixel_step x y c) ps ?t)) =
      (if a = pixel_addr x y \<and> q \<in> set ps \<and> bit c q then Some (B q + 2 ^ (7 - x mod 8)) else plane_byte q a (io ?t))"
    by (rule Cons.IH) (use Cons.prems t in auto)
  with Cons.prems(2) show ?case by (auto simp: t(2))
qed simp

lemma bit_add_clear:
  assumes "\<not> bit b k" and "k < 8" and "j < 8"
  shows "bit (b + 2 ^ k :: u8) j \<longleftrightarrow> bit b j \<or> j = k"
proof -
  have "b + 2 ^ k = b OR 2 ^ k"
    using assms(1) by (intro disjunctive_add_eq_or) (auto simp: bit_simps intro!: bit_word_eqI)
  then show ?thesis using assms by (auto simp: bit_simps)
qed

lemma pixel_addr_eq:
  assumes "x < 640" "y < 480" "x' < 640" "y' < 480"
  shows "pixel_addr x y = pixel_addr x' y' \<and> x mod 8 = x' mod 8 \<longleftrightarrow> x = x' \<and> y = y'"
proof
  assume eq: "pixel_addr x y = pixel_addr x' y' \<and> x mod 8 = x' mod 8"
  have b: "(640 * y + x) div 8 < 4294967296" "(640 * y' + x') div 8 < 4294967296" using assms by simp_all
  from eq have "(of_nat ((640 * y + x) div 8) :: u32) = of_nat ((640 * y' + x') div 8)" by (simp add: pixel_addr_def)
  then have "(640 * y + x) div 8 = (640 * y' + x') div 8"
    using b by (simp only: word_unat_eq_iff unat_of_nat) simp
  moreover have "(640 * y + x) div 8 = 80 * y + x div 8" "(640 * y' + x') div 8 = 80 * y' + x' div 8"
    using div_mult_self4 [of 8 "80 * y" x] div_mult_self4 [of 8 "80 * y'" x'] by (simp_all add: mult.assoc [symmetric])
  ultimately have row: "80 * y + x div 8 = 80 * y' + x' div 8" by simp
  moreover have "x div 8 < 80" "x' div 8 < 80" using assms by simp_all
  ultimately have "y = y'" by linarith
  with row have "y = y'" "x div 8 = x' div 8" by simp_all
  with eq show "x = x' \<and> y = y'" by (metis div_mult_mod_eq)
qed simp

lemma setpixel_bytes:
  assumes v: "video12 s" and xy: "x < 640" "y < 480" and c: "c < 16"
    and B: "\<And>p. p < 4 \<Longrightarrow> plane_byte p (pixel_addr x y) (io s) = Some (B p)"
    and t: "setpixel (of_nat x) (of_nat y) (of_nat c) s = (r, t)"
  shows "plane_byte q a (io t) =
    (if a = pixel_addr x y \<and> q < 4 \<and> bit c q then Some (B q + 2 ^ (7 - x mod 8)) else plane_byte q a (io s))"
proof -
  have "currentvgamode s = 0x12" using v by (simp add: video12_def)
  from setpixel_steps [OF this c] t have t': "t = fold (pixel_step x y c) [0, 1, 2, 3] s" by simp
  have "plane_byte q a (io (fold (pixel_step x y c) [0, 1, 2, 3] s)) =
    (if a = pixel_addr x y \<and> q \<in> set [0, 1, 2, 3] \<and> bit c q then Some (B q + 2 ^ (7 - x mod 8)) else plane_byte q a (io s))"
    by (rule pixel_steps_bytes [OF v xy]) (use B in auto)
  moreover have "q \<in> set [0, 1, 2, 3] \<longleftrightarrow> q < 4" using plane_cases [of q] by auto
  ultimately show ?thesis by (simp add: t')
qed

text \<open>C23: In the 640x480 mode \<open>setpixel\<close> on a black pixel gives it the colour asked for (0 to 15,
  bit \<open>p\<close> of the colour in plane \<open>p\<close>) and leaves every other pixel of the picture as it was.\<close>

theorem setpixel_paints:
  assumes v: "video12 s" and xy: "x < 640" "y < 480" and c: "c < 16"
    and B: "\<And>p. p < 4 \<Longrightarrow> plane_byte p (pixel_addr x y) (io s) = Some (B p)"
    and black: "\<And>p. p < 4 \<Longrightarrow> \<not> plane_bit p x y (io s)"
    and t: "setpixel (of_nat x) (of_nat y) (of_nat c) s = (r, t)"
    and p: "p < 4" and xy': "x' < 640" "y' < 480"
  shows "plane_bit p x' y' (io t) = (if x' = x \<and> y' = y then bit c p else plane_bit p x' y' (io s))"
proof -
  note bytes = setpixel_bytes [OF v xy c B t]
  have clear: "\<not> bit (B p) (7 - x mod 8)" using black [OF p] B [OF p] by (simp add: plane_bit_def)
  have add: "bit (B p + 2 ^ (7 - x mod 8)) j \<longleftrightarrow> bit (B p) j \<or> j = 7 - x mod 8" if "j < 8" for j
    by (rule bit_add_clear [OF clear _ that]) simp
  have same: "7 - x' mod 8 = 7 - x mod 8 \<longleftrightarrow> x' mod 8 = x mod 8"
    using mod_less_divisor [of 8 x] mod_less_divisor [of 8 x'] by linarith
  show ?thesis
  proof (cases "pixel_addr x' y' = pixel_addr x y \<and> bit c p")
    case True
    then show ?thesis using p clear B [OF p] pixel_addr_eq [OF xy' xy] same
      by (auto simp: plane_bit_def bytes add)
  next
    case False
    then have "plane_byte p (pixel_addr x' y') (io t) = plane_byte p (pixel_addr x' y') (io s)" by (auto simp: bytes)
    moreover have "\<not> bit c p" if "x' = x" "y' = y" using False that by simp
    ultimately show ?thesis using black [OF p] by (auto simp: plane_bit_def)
  qed
qed

text \<open>A screen for the witnesses: the 640x480 mode with the byte \<open>b\<close> in all planes at the top left.\<close>

definition video_start :: "u8 \<Rightarrow> cons_state" where
  "video_start b = cons_start\<lparr>currentvgamode := 0x12, dev := two_register_files, vmem := planar_ram,
     io := [MW (pixel_addr 0 0) b, Out VGA_SEQ_DATA 0xF, Out VGA_SEQ_INDEX 2, Out VGA_GC_DATA 5, Out VGA_GC_INDEX 6]\<rparr>"

lemma video_start_ok: "video12 (video_start b)" "p < 4 \<Longrightarrow> plane_byte p (pixel_addr 0 0) (io (video_start b)) = Some b"
proof -
  show "video12 (video_start b)"
    using planar_ram_planar two_register_files_indexed by (simp add: video12_def video_start_def)
  have "bit (0xF :: int) p" if "p < 4" using plane_cases [OF that] by auto
  then show "p < 4 \<Longrightarrow> plane_byte p (pixel_addr 0 0) (io (video_start b)) = Some b"
    by (simp add: video_start_def write_mask_def)
qed

theorem setpixel_paints_witness:
  "plane_bit 3 0 0 (io (snd (setpixel 0 0 9 (video_start 0)))) \<and> \<not> plane_bit 3 1 0 (io (snd (setpixel 0 0 9 (video_start 0))))"
proof -
  let ?s = "video_start 0"
  obtain r t where t: "setpixel (of_nat 0) (of_nat 0) (of_nat 9) ?s = (r, t)" by fastforce
  have black: "\<not> plane_bit p 0 0 (io ?s)" if "p < 4" for p
    using video_start_ok(2) [OF that] by (simp add: plane_bit_def)
  have "plane_bit 3 x 0 (io t) = (if x = 0 \<and> 0 = 0 then bit (9 :: nat) 3 else plane_bit 3 x 0 (io ?s))" if "x < 640" for x
    using setpixel_paints [OF video_start_ok(1) _ _ _ video_start_ok(2) black t, of 3 x 0] that by simp
  from this [of 0] this [of 1] t video_start_ok(2) [of 3 0] show ?thesis
    by (simp add: plane_bit_def pixel_addr_def bit_0)
qed

lemma bit_add_set:
  assumes "bit b k" and "\<not> bit b (Suc k)" and "Suc k < 8"
  shows "\<not> bit (b + 2 ^ k :: u8) k \<and> bit (b + 2 ^ k) (Suc k)"
proof -
  define d where "d = b AND NOT (2 ^ k)"
  have d: "\<not> bit d k" "\<not> bit d (Suc k)" using assms by (auto simp: d_def bit_simps)
  have "d OR 2 ^ k = b" using assms(1) by (intro bit_word_eqI) (auto simp: d_def bit_simps)
  moreover have "d + 2 ^ k = d OR 2 ^ k"
    using d(1) by (intro disjunctive_add_eq_or) (auto simp: bit_simps intro!: bit_word_eqI)
  ultimately have "b = d + 2 ^ k" by simp
  then have b: "b + 2 ^ k = d + 2 ^ Suc k" by simp
  show ?thesis unfolding b using bit_add_clear [OF d(2) assms(3), of k] bit_add_clear [OF d(2) assms(3), of "Suc k"] assms(3) d
    by auto
qed

text \<open>C35: Painting a pixel that already has the colour ruins it: \<open>setpixel\<close> adds the pixel's bit
  instead of setting it, so the second time the sum carries over, the pixel turns black and the
  pixel to its left (here black before) is painted instead.\<close>

theorem setpixel_repaint_carries:
  assumes v: "video12 s" and xy: "x < 640" "y < 480" and c: "c < 16"
    and B: "\<And>p. p < 4 \<Longrightarrow> plane_byte p (pixel_addr x y) (io s) = Some (B p)"
    and t: "setpixel (of_nat x) (of_nat y) (of_nat c) s = (r, t)"
    and p: "p < 4" "bit c p" and left: "x mod 8 \<noteq> 0"
    and "plane_bit p x y (io s)" and "\<not> plane_bit p (x - 1) y (io s)"
  shows "\<not> plane_bit p x y (io t) \<and> plane_bit p (x - 1) y (io t)"
proof -
  let ?k = "7 - x mod 8"
  obtain q m where x: "x = 8 * q + Suc m" and m: "Suc m < 8"
  proof
    show "x = 8 * (x div 8) + Suc (x mod 8 - 1)" using left by simp
    show "Suc (x mod 8 - 1) < 8" using left by simp
  qed
  have k: "Suc ?k < 8" "Suc ?k = 7 - (x - 1) mod 8" using m by (simp_all add: x)
  have e: "640 * y + x = Suc m + 8 * (80 * y + q)" "640 * y + (x - 1) = m + 8 * (80 * y + q)" by (simp_all add: x)
  have l: "(640 * y + (x - 1)) div 8 = (640 * y + x) div 8" unfolding e using m by (simp only: div_mult_self2)
  have addr: "pixel_addr (x - 1) y = pixel_addr x y" by (simp only: pixel_addr_def l)
  have b: "bit (B p) ?k" "\<not> bit (B p) (Suc ?k)"
    using assms(10,11) unfolding plane_bit_def addr k(2) [symmetric] B [OF p(1)] by simp_all
  have "plane_byte p (pixel_addr x y) (io t) = Some (B p + 2 ^ ?k)"
    using p by (simp add: setpixel_bytes [OF v xy c B t])
  then show ?thesis using bit_add_set [OF b k(1)] unfolding plane_bit_def addr k(2) [symmetric] by simp
qed

theorem setpixel_repaint_carries_witness:
  "\<not> plane_bit 0 1 0 (io (snd (setpixel 1 0 1 (video_start 0x40)))) \<and> plane_bit 0 0 0 (io (snd (setpixel 1 0 1 (video_start 0x40))))"
proof -
  let ?s = "video_start 0x40"
  obtain r t where t: "setpixel (of_nat 1) (of_nat 0) (of_nat 1) ?s = (r, t)" by fastforce
  have a: "pixel_addr 1 0 = pixel_addr 0 0" by (simp add: pixel_addr_def)
  have B: "plane_byte p (pixel_addr 1 0) (io ?s) = Some 0x40" if "p < 4" for p
    using video_start_ok(2) [OF that] by (simp only: a)
  have "plane_bit 0 1 0 (io ?s)" "\<not> plane_bit 0 (1 - 1) 0 (io ?s)"
    using B [of 0] video_start_ok(2) [of 0 "0x40"] by (simp_all only: plane_bit_def a) simp_all
  from setpixel_repaint_carries [OF video_start_ok(1) _ _ _ B t, of 0] this t show ?thesis by (simp add: bit_0)
qed



section \<open>Clearing the screen\<close>

definition zeroes :: "u32 list \<Rightarrow> ioev list" where
  "zeroes as = map (\<lambda>a. MW a 0) (rev as)"

lemma zeroes_regs [simp]: "reg_val ip dp i (zeroes as @ h) = reg_val ip dp i h"
  by (rule reg_val_MW) (auto simp: zeroes_def)

lemma zeroes_append: "zeroes (as @ bs) @ h = zeroes bs @ zeroes as @ h"
  by (simp add: zeroes_def)

lemma plane_byte_zeroes:
  "plane_byte p a (zeroes as @ h) = (if a \<in> set as \<and> bit (write_mask h) p then Some 0 else plane_byte p a h)"
proof (induction as rule: rev_induct)
  case (snoc b bs)
  have "zeroes (bs @ [b]) @ h = MW b 0 # zeroes bs @ h" by (simp add: zeroes_def)
  moreover have "write_mask (zeroes bs @ h) = write_mask h" by (simp add: write_mask_def)
  ultimately show ?case using snoc by auto
qed (simp add: zeroes_def)

lemma fold_zero: "fold (\<lambda>j. vwrite (f j) 0) js s = s\<lparr>io := zeroes (map f js) @ io s\<rparr>"
  by (induction js arbitrary: s) (simp_all add: zeroes_def vwrite_def)

lemma fold_fold_zero:
  "fold (\<lambda>i. fold (\<lambda>j. vwrite (f i j) 0) js) is s = s\<lparr>io := zeroes (concat (map (\<lambda>i. map (f i) js) is)) @ io s\<rparr>"
proof (induction "is" arbitrary: s)
  case Nil
  then show ?case by (simp add: zeroes_def)
next
  case (Cons i "is")
  then show ?case by (simp add: fold_zero zeroes_append [symmetric])
qed

definition plane_offsets :: "u32 list" where
  "plane_offsets = concat (map (\<lambda>X. map (\<lambda>Y. P2V 0xA0000 + 640 * of_nat Y + of_nat X) [0..<480]) [0..<640])"

definition clear_events :: "nat \<Rightarrow> ioev list" where
  "clear_events p = zeroes plane_offsets @ [In VGA_GC_DATA, Out VGA_GC_INDEX 6,
     Out VGA_SEQ_DATA (push_bit (unat (of_nat p AND 3 :: u8)) 1), Out VGA_SEQ_INDEX 2,
     Out VGA_GC_DATA (of_nat p AND 3), Out VGA_GC_INDEX 4]"

lemma clear_plane:
  assumes gc: "indexed_port (dev s) VGA_GC_INDEX VGA_GC_DATA" "reg_val VGA_GC_INDEX VGA_GC_DATA 6 (io s) = Some 5"
  shows "zero_plane p s = s\<lparr>io := clear_events p @ io s\<rparr>"
proof -
  let ?h1 = "[Out VGA_SEQ_DATA (push_bit (unat (of_nat p AND 3 :: u8)) 1), Out VGA_SEQ_INDEX 2,
     Out VGA_GC_DATA (of_nat p AND 3), Out VGA_GC_INDEX 4] @ io s"
  have c: "consolevgaplane (of_nat p) s = s\<lparr>io := ?h1\<rparr>"
    by (simp add: consolevgaplane_def outb_def Let_def)
  have "dev s (Out VGA_GC_INDEX 6 # ?h1) VGA_GC_DATA = 5"
    using gc by (intro indexed_portD) auto
  then have buf: "consolevgabuffer (s\<lparr>io := ?h1\<rparr>) = (P2V 0xA0000, s\<lparr>io := In VGA_GC_DATA # Out VGA_GC_INDEX 6 # ?h1\<rparr>)"
    by (simp add: consolevgabuffer_def inb_def outb_def Let_def)
  show ?thesis unfolding zero_plane_def c Let_def buf prod.case fold_fold_zero
    by (simp add: clear_events_def plane_offsets_def)
qed

lemma clear_events_regs:
  "reg_val VGA_GC_INDEX VGA_GC_DATA 6 (clear_events p @ h) = reg_val VGA_GC_INDEX VGA_GC_DATA 6 h"
  by (simp add: clear_events_def)

lemma clear_events_bytes:
  assumes "p < 4"
  shows "plane_byte q a (clear_events p @ h) = (if a \<in> set plane_offsets \<and> q = p then Some 0 else plane_byte q a h)"
proof -
  have pl: "(of_nat p AND 3 :: u8) = of_nat p" "unat (of_nat p :: u8) = p"
    using plane_cases [OF assms] by auto
  have "bit (2 ^ p :: u8) q \<longleftrightarrow> q = p" using assms by (auto simp: bit_simps)
  then show ?thesis by (simp add: clear_events_def plane_byte_zeroes write_mask_def pl)
qed

lemma zeroFillScreen12h_eq:
  assumes gc: "indexed_port (dev s) VGA_GC_INDEX VGA_GC_DATA" "reg_val VGA_GC_INDEX VGA_GC_DATA 6 (io s) = Some 5"
  shows "zeroFillScreen12h s = s\<lparr>io := clear_events 3 @ clear_events 2 @ clear_events 1 @ clear_events 0 @ io s\<rparr>"
proof -
  have four: "[0..<4] = [0, 1, 2, 3 :: nat]" by (simp add: upt_rec)
  show ?thesis unfolding zeroFillScreen12h_def four using gc
    by (simp add: clear_plane clear_events_regs)
qed

lemma plane_offsetsI:
  "Y < 480 \<Longrightarrow> X < 640 \<Longrightarrow> P2V 0xA0000 + 640 * of_nat Y + of_nat X \<in> set plane_offsets"
  unfolding plane_offsets_def set_concat set_map by (intro UN_I [of "map f [0..<480]" for f] imageI) auto

lemma pixel_in_plane:
  assumes "x < 640" and "y < 480"
  shows "pixel_addr x y \<in> set plane_offsets"
proof -
  let ?o = "(640 * y + x) div 8"
  have "?o < 38400" using assms by (simp add: less_mult_imp_div_less)
  then have "?o div 640 < 480" "?o mod 640 < 640" by simp_all
  moreover have "pixel_addr x y = P2V 0xA0000 + 640 * of_nat (?o div 640) + of_nat (?o mod 640)"
  proof -
    have "(of_nat ?o :: u32) = of_nat (640 * (?o div 640) + ?o mod 640)" by simp
    then show ?thesis by (simp only: pixel_addr_def of_nat_add of_nat_mult of_nat_numeral add.assoc)
  qed
  ultimately show ?thesis by (simp only: plane_offsetsI)
qed

text \<open>C29: \<open>zeroFillScreen12h\<close> makes every pixel of the 640x480 picture black.\<close>

theorem zero_fill_clears:
  assumes "indexed_port (dev s) VGA_GC_INDEX VGA_GC_DATA" and "reg_val VGA_GC_INDEX VGA_GC_DATA 6 (io s) = Some 5"
    and "p < 4" and "x < 640" and "y < 480"
  shows "plane_byte p (pixel_addr x y) (io (zeroFillScreen12h s)) = Some 0"
proof -
  have "p = 0 \<or> p = 1 \<or> p = 2 \<or> p = 3" by (rule plane_cases [OF assms(3)])
  then show ?thesis using pixel_in_plane [OF assms(4,5)]
    by (auto simp: zeroFillScreen12h_eq [OF assms(1,2)] clear_events_bytes)
qed

theorem zero_fill_clears_witness: "plane_byte 2 (pixel_addr 639 479) (io (zeroFillScreen12h (video_start 1))) = Some 0"
  using zero_fill_clears [of "video_start 1" 2 639 479] video_start_ok(1) [of 1] by (simp add: video12_def)

fun last_byte :: "u32 \<Rightarrow> ioev list \<Rightarrow> u8 option" where
  "last_byte a [] = None"
| "last_byte a (MW b v # h) = (if b = a then Some v else last_byte a h)"
| "last_byte a (e # h) = last_byte a h"

text \<open>C37: \<open>zeroFillScreen13h\<close> clears twice as much as it should: 128000 bytes from \<open>0xA0000\<close> on,
  where the picture has 64000 and the window of the adapter 65536.\<close>

theorem zero_fill_overruns:
  assumes "j < 128000"
  shows "last_byte (P2V 0xA0000 + of_nat j) (io (zeroFillScreen13h s)) = Some 0"
proof -
  have "last_byte (P2V 0xA0000 + of_nat j)
      (io (fold (\<lambda>i s. vwrite (P2V 0xA0000 + 2 * of_nat i + 1) 0 (vwrite (P2V 0xA0000 + 2 * of_nat i) 0 s)) [0..<n] s)) = Some 0"
    if "j < 2 * n" for n
    using that
  proof (induction n)
    case (Suc n)
    show ?case
    proof (cases "j < 2 * n")
      case True
      with Suc show ?thesis by simp
    next
      case False
      then have "j = 2 * n \<or> j = 2 * n + 1" using Suc.prems by auto
      then show ?thesis by (auto simp: add.assoc)
    qed
  qed simp
  from this [of 64000] assms show ?thesis by (simp add: zeroFillScreen13h_def)
qed

theorem zero_fill_overruns_witness:
  "last_byte (P2V 0xA0000 + 65536) (io (zeroFillScreen13h cons_start)) = Some 0"
  using zero_fill_overruns [of 65536 cons_start] by simp

end
