(* ===== verification/Bio.thy ===== *)
theory Bio
  imports Lineedit
begin

text \<open>
  The buffer cache (\<open>bio.c\<close>, \<open>buf.h\<close>) on the disk driver that keeps the blocks in memory
  (\<open>memide.c\<close>); the driver for a real disk is in the theory \<open>Ide\<close>. A buffer is its index in
  \<open>bcache.buf\<close>; index \<open>NBUF\<close> is \<open>bcache.head\<close>. The list through \<open>prev\<close> and \<open>next\<close> is kept as
  in the code, and the searches along it get as much fuel as there are buffers.

  A block is a function of which the first \<open>BSIZE\<close> bytes are the block. The image of the disk is
  \<open>dimage\<close> with the writes \<open>dwrites\<close> (newest first) applied, so that a crash between two writes
  can be described.
\<close>

section \<open>State\<close>

abbreviation BSIZE :: nat where "BSIZE \<equiv> 512"
abbreviation NBUF :: nat where "NBUF \<equiv> 30"
abbreviation B_VALID :: u32 where "B_VALID \<equiv> 0x2"
abbreviation B_DIRTY :: u32 where "B_DIRTY \<equiv> 0x4"

record buf =
  b_flags :: u32
  b_dev :: u32
  b_blockno :: u32
  b_refcnt :: u32
  b_prev :: nat
  b_next :: nat
  b_qnext :: "nat option"
  b_data :: bytes

record bio_state = cons_state +
  bufs :: "nat \<Rightarrow> buf"
  disksize :: u32
  dimage :: "u32 \<Rightarrow> bytes"
  dwrites :: "(u32 \<times> bytes) list"

definition upd_buf :: "nat \<Rightarrow> (buf \<Rightarrow> buf) \<Rightarrow> 'a bio_state_scheme \<Rightarrow> 'a bio_state_scheme" where
  "upd_buf i f s = s\<lparr>bufs := (bufs s)(i := f (bufs s i))\<rparr>"

definition disk_of :: "(u32 \<Rightarrow> bytes) \<Rightarrow> (u32 \<times> bytes) list \<Rightarrow> u32 \<Rightarrow> bytes" where
  "disk_of img ws b = (case map_of ws b of None \<Rightarrow> img b | Some d \<Rightarrow> d)"

abbreviation disk :: "'a bio_state_scheme \<Rightarrow> u32 \<Rightarrow> bytes" where
  "disk s \<equiv> disk_of (dimage s) (dwrites s)"

section \<open>The disk in memory\<close>

definition ideinit_mem :: "(u32 \<Rightarrow> bytes) \<Rightarrow> u32 \<Rightarrow> 'a bio_state_scheme \<Rightarrow> 'a bio_state_scheme" where
  "ideinit_mem img sz s = s\<lparr>dimage := img, dwrites := [], disksize := sz div 512\<rparr>"

definition iderw :: "nat \<Rightarrow> 'a bio_state_scheme \<Rightarrow> ('a bio_state_scheme, unit) kres" where
  "iderw i s =
     kbind (holdingsleep (BufLk i) s) (\<lambda>h s.
     let b = bufs s i in
     if \<not> h then Panic ''iderw: buf not locked''
     else if b_flags b AND (B_VALID OR B_DIRTY) = B_VALID then Panic ''iderw: nothing to do''
     else if b_dev b \<noteq> 1 then Panic ''iderw: request not for disk 1''
     else if b_blockno b \<ge> disksize s then Panic ''iderw: block out of range''
     else
       let s = (if b_flags b AND B_DIRTY \<noteq> 0
                then (upd_buf i (\<lambda>b. b\<lparr>b_flags := b_flags b AND NOT B_DIRTY\<rparr>) s)
                       \<lparr>dwrites := (b_blockno b, b_data b) # dwrites s\<rparr>
                else upd_buf i (\<lambda>b. b\<lparr>b_data := disk s (b_blockno b)\<rparr>) s)
       in Ret () (upd_buf i (\<lambda>b. b\<lparr>b_flags := b_flags b OR B_VALID\<rparr>) s))"

section \<open>The cache\<close>

text \<open>Inserting buffer \<open>i\<close> behind the head, as \<open>binit\<close> and \<open>brelse\<close> do, and taking it out.\<close>

definition link_front :: "nat \<Rightarrow> 'a bio_state_scheme \<Rightarrow> 'a bio_state_scheme" where
  "link_front i s =
     (let s = upd_buf i (\<lambda>b. b\<lparr>b_next := b_next (bufs s NBUF)\<rparr>) s;
          s = upd_buf i (\<lambda>b. b\<lparr>b_prev := NBUF\<rparr>) s;
          s = upd_buf (b_next (bufs s NBUF)) (\<lambda>b. b\<lparr>b_prev := i\<rparr>) s
      in upd_buf NBUF (\<lambda>b. b\<lparr>b_next := i\<rparr>) s)"

definition unlink_buf :: "nat \<Rightarrow> 'a bio_state_scheme \<Rightarrow> 'a bio_state_scheme" where
  "unlink_buf i s =
     (let s = upd_buf (b_next (bufs s i)) (\<lambda>b. b\<lparr>b_prev := b_prev (bufs s i)\<rparr>) s
      in upd_buf (b_prev (bufs s i)) (\<lambda>b. b\<lparr>b_next := b_next (bufs s i)\<rparr>) s)"

definition binit :: "'a bio_state_scheme \<Rightarrow> 'a bio_state_scheme" where
  "binit s =
     (let s = lk_init BcacheLock s;
          s = upd_buf NBUF (\<lambda>b. b\<lparr>b_prev := NBUF, b_next := NBUF\<rparr>) s
      in fold (\<lambda>i s. link_front i (initsleeplock (BufLk i) s)) [0..<NBUF] s)"

text \<open>The first buffer from \<open>i\<close> on along \<open>nx\<close> that satisfies \<open>P\<close>, before the head.\<close>

fun buf_find :: "(buf \<Rightarrow> nat) \<Rightarrow> (buf \<Rightarrow> bool) \<Rightarrow> nat \<Rightarrow> nat \<Rightarrow> (nat \<Rightarrow> buf) \<Rightarrow> nat option" where
  "buf_find nx P 0 i bs = None"
| "buf_find nx P (Suc n) i bs =
     (if i = NBUF then None else if P (bs i) then Some i else buf_find nx P n (nx (bs i)) bs)"

definition bget :: "u32 \<Rightarrow> u32 \<Rightarrow> 'a bio_state_scheme \<Rightarrow> ('a bio_state_scheme, nat) kres" where
  "bget dv blockno s =
     kbind (lk_acquire BcacheLock s) (\<lambda>_ s.
     case buf_find b_next (\<lambda>b. b_dev b = dv \<and> b_blockno b = blockno) NBUF (b_next (bufs s NBUF)) (bufs s) of
       Some i \<Rightarrow>
         let s = upd_buf i (\<lambda>b. b\<lparr>b_refcnt := b_refcnt b + 1\<rparr>) s
         in kbind (lk_release BcacheLock s) (\<lambda>_ s.
            kbind (acquiresleep (BufLk i) s) (\<lambda>_ s. Ret i s))
     | None \<Rightarrow>
         (case buf_find b_prev (\<lambda>b. b_refcnt b = 0 \<and> b_flags b AND B_DIRTY = 0) NBUF (b_prev (bufs s NBUF)) (bufs s) of
            Some i \<Rightarrow>
              let s = upd_buf i (\<lambda>b. b\<lparr>b_dev := dv, b_blockno := blockno, b_flags := 0, b_refcnt := 1\<rparr>) s
              in kbind (lk_release BcacheLock s) (\<lambda>_ s.
                 kbind (acquiresleep (BufLk i) s) (\<lambda>_ s. Ret i s))
          | None \<Rightarrow> Panic ''bget: no buffers''))"

definition bread :: "u32 \<Rightarrow> u32 \<Rightarrow> 'a bio_state_scheme \<Rightarrow> ('a bio_state_scheme, nat) kres" where
  "bread dv blockno s =
     kbind (bget dv blockno s) (\<lambda>i s.
     kbind (if b_flags (bufs s i) AND B_VALID = 0 then iderw i s else Ret () s) (\<lambda>_ s. Ret i s))"

definition bwrite :: "nat \<Rightarrow> 'a bio_state_scheme \<Rightarrow> ('a bio_state_scheme, unit) kres" where
  "bwrite i s =
     kbind (holdingsleep (BufLk i) s) (\<lambda>h s.
     if \<not> h then Panic ''bwrite''
     else iderw i (upd_buf i (\<lambda>b. b\<lparr>b_flags := b_flags b OR B_DIRTY\<rparr>) s))"

definition brelse :: "nat \<Rightarrow> 'a bio_state_scheme \<Rightarrow> ('a bio_state_scheme, unit) kres" where
  "brelse i s =
     kbind (holdingsleep (BufLk i) s) (\<lambda>h s.
     if \<not> h then Panic ''brelse''
     else
       kbind (releasesleep (BufLk i) s) (\<lambda>_ s.
       kbind (lk_acquire BcacheLock s) (\<lambda>_ s.
       let s = upd_buf i (\<lambda>b. b\<lparr>b_refcnt := b_refcnt b - 1\<rparr>) s;
           s = (if b_refcnt (bufs s i) = 0 then link_front i (unlink_buf i s) else s)
       in lk_release BcacheLock s)))"

end
