(* ===== verification/Log.thy ===== *)
theory Log
  imports Bio Kstring
begin

text \<open>
  The log (\<open>log.c\<close>). The header block of the log on disk is read and written word by word at its
  place in the block. The counters are \<open>int\<close>, far from overflow. \<open>sizeof(struct logheader)\<close> is 124 and
  less than \<open>BSIZE\<close>, so \<open>initlog\<close> cannot panic there.
\<close>

section \<open>State\<close>

abbreviation MAXOPBLOCKS :: int where "MAXOPBLOCKS \<equiv> 10"
abbreviation LOGSIZE :: int where "LOGSIZE \<equiv> 30"

record superblock =
  sb_size :: u32
  sb_nblocks :: u32
  sb_ninodes :: u32
  sb_nlog :: u32
  sb_logstart :: u32
  sb_inodestart :: u32
  sb_bmapstart :: u32

record log_state = bio_state +
  log_start :: u32
  log_size :: u32
  log_outstanding :: int
  log_committing :: bool
  log_dev :: u32
  lh_n :: int
  lh_block :: "nat \<Rightarrow> u32"

section \<open>Reading the super block\<close>

definition sb_decode :: "bytes \<Rightarrow> superblock" where
  "sb_decode d = \<lparr>sb_size = ld32 d 0, sb_nblocks = ld32 d 4, sb_ninodes = ld32 d 8, sb_nlog = ld32 d 12,
     sb_logstart = ld32 d 16, sb_inodestart = ld32 d 20, sb_bmapstart = ld32 d 24\<rparr>"

definition readsb :: "u32 \<Rightarrow> 'a bio_state_scheme \<Rightarrow> ('a bio_state_scheme, superblock) kres" where
  "readsb dv s =
     kbind (bread dv 1 s) (\<lambda>i s.
     let sb = sb_decode (b_data (bufs s i)) in
     kbind (brelse i s) (\<lambda>_ s. Ret sb s))"

section \<open>The header and the log blocks\<close>

text \<open>Entry \<open>i\<close> of the array \<open>block\<close> is at offset \<open>4 + 4 * i\<close> of the header block.\<close>

definition hb_encode :: "int \<Rightarrow> (nat \<Rightarrow> u32) \<Rightarrow> bytes \<Rightarrow> bytes" where
  "hb_encode n blk d = fold (\<lambda>i d. st32 d (4 + 4 * i) (blk i)) [0..<nat n] (st32 d 0 (of_int n))"

definition read_head :: "'a log_state_scheme \<Rightarrow> ('a log_state_scheme, unit) kres" where
  "read_head s =
     kbind (bread (log_dev s) (log_start s) s) (\<lambda>i s.
     let d = b_data (bufs s i);
         n = sint (ld32 d 0);
         s = s\<lparr>lh_n := n, lh_block := (\<lambda>k. if int k < n then ld32 d (4 + 4 * k) else lh_block s k)\<rparr>
     in brelse i s)"

definition write_head :: "'a log_state_scheme \<Rightarrow> ('a log_state_scheme, unit) kres" where
  "write_head s =
     kbind (bread (log_dev s) (log_start s) s) (\<lambda>i s.
     let s = upd_buf i (\<lambda>b. b\<lparr>b_data := hb_encode (lh_n s) (lh_block s) (b_data b)\<rparr>) s
     in kbind (bwrite i s) (\<lambda>_ s. brelse i s))"

text \<open>The loops of \<open>install_trans\<close> and \<open>write_log\<close>, from \<open>tail\<close> on with \<open>m\<close> rounds left.\<close>

fun install_loop :: "nat \<Rightarrow> nat \<Rightarrow> 'a log_state_scheme \<Rightarrow> ('a log_state_scheme, unit) kres" where
  "install_loop 0 tail s = Ret () s"
| "install_loop (Suc m) tail s =
     kbind (bread (log_dev s) (log_start s + of_nat tail + 1) s) (\<lambda>lbuf s.
     kbind (bread (log_dev s) (lh_block s tail) s) (\<lambda>dbuf s.
     let s = upd_buf dbuf (\<lambda>b. b\<lparr>b_data := b_data (bufs s lbuf)\<rparr>) s
     in kbind (bwrite dbuf s) (\<lambda>_ s.
        kbind (brelse lbuf s) (\<lambda>_ s.
        kbind (brelse dbuf s) (\<lambda>_ s. install_loop m (Suc tail) s)))))"

definition install_trans :: "'a log_state_scheme \<Rightarrow> ('a log_state_scheme, unit) kres" where
  "install_trans s = install_loop (nat (lh_n s)) 0 s"

fun write_log_loop :: "nat \<Rightarrow> nat \<Rightarrow> 'a log_state_scheme \<Rightarrow> ('a log_state_scheme, unit) kres" where
  "write_log_loop 0 tail s = Ret () s"
| "write_log_loop (Suc m) tail s =
     kbind (bread (log_dev s) (log_start s + of_nat tail + 1) s) (\<lambda>to s.
     kbind (bread (log_dev s) (lh_block s tail) s) (\<lambda>from s.
     let s = upd_buf to (\<lambda>b. b\<lparr>b_data := b_data (bufs s from)\<rparr>) s
     in kbind (bwrite to s) (\<lambda>_ s.
        kbind (brelse from s) (\<lambda>_ s.
        kbind (brelse to s) (\<lambda>_ s. write_log_loop m (Suc tail) s)))))"

definition write_log :: "'a log_state_scheme \<Rightarrow> ('a log_state_scheme, unit) kres" where
  "write_log s = write_log_loop (nat (lh_n s)) 0 s"

definition recover_from_log :: "'a log_state_scheme \<Rightarrow> ('a log_state_scheme, unit) kres" where
  "recover_from_log s =
     kbind (read_head s) (\<lambda>_ s.
     kbind (install_trans s) (\<lambda>_ s. write_head (s\<lparr>lh_n := 0\<rparr>)))"

definition initlog :: "u32 \<Rightarrow> 'a log_state_scheme \<Rightarrow> ('a log_state_scheme, unit) kres" where
  "initlog dv s =
     (let s = lk_init LogLock s in
      kbind (readsb dv s) (\<lambda>sb s.
      recover_from_log (s\<lparr>log_start := sb_logstart sb, log_size := sb_nlog sb, log_dev := dv\<rparr>)))"

definition commit :: "'a log_state_scheme \<Rightarrow> ('a log_state_scheme, unit) kres" where
  "commit s =
     (if lh_n s > 0 then
        kbind (write_log s) (\<lambda>_ s.
        kbind (write_head s) (\<lambda>_ s.
        kbind (install_trans s) (\<lambda>_ s. write_head (s\<lparr>lh_n := 0\<rparr>))))
      else Ret () s)"

section \<open>Transactions\<close>

text \<open>The loop of \<open>begin_op\<close>; a sleeping call continues with \<open>begin_op_resume\<close>.\<close>

definition begin_op_loop :: "'a log_state_scheme \<Rightarrow> ('a log_state_scheme, unit) kres" where
  "begin_op_loop s =
     (if log_committing s then sleep ChLog LogLock s
      else if lh_n s + (log_outstanding s + 1) * MAXOPBLOCKS > LOGSIZE then sleep ChLog LogLock s
      else lk_release LogLock (s\<lparr>log_outstanding := log_outstanding s + 1\<rparr>))"

definition begin_op :: "'a log_state_scheme \<Rightarrow> ('a log_state_scheme, unit) kres" where
  "begin_op s = kbind (lk_acquire LogLock s) (\<lambda>_. begin_op_loop)"

definition begin_op_resume :: "'a log_state_scheme \<Rightarrow> ('a log_state_scheme, unit) kres" where
  "begin_op_resume s = kbind (sleep_return LogLock s) (\<lambda>_. begin_op_loop)"

definition end_op :: "'a log_state_scheme \<Rightarrow> ('a log_state_scheme, unit) kres" where
  "end_op s =
     kbind (lk_acquire LogLock s) (\<lambda>_ s.
     let s = s\<lparr>log_outstanding := log_outstanding s - 1\<rparr> in
     if log_committing s then Panic ''log.committing''
     else
       let do_commit = (log_outstanding s = 0) in
       kbind (if do_commit then Ret () (s\<lparr>log_committing := True\<rparr>) else wakeup ChLog s) (\<lambda>_ s.
       kbind (lk_release LogLock s) (\<lambda>_ s.
       if do_commit then
         kbind (commit s) (\<lambda>_ s.
         kbind (lk_acquire LogLock s) (\<lambda>_ s.
         kbind (wakeup ChLog (s\<lparr>log_committing := False\<rparr>)) (\<lambda>_ s.
         lk_release LogLock s)))
       else Ret () s)))"

text \<open>The search of \<open>log_write\<close> ends at the first entry for the block, or at \<open>lh_n\<close>.\<close>

definition log_write :: "nat \<Rightarrow> 'a log_state_scheme \<Rightarrow> ('a log_state_scheme, unit) kres" where
  "log_write i s =
     (if lh_n s \<ge> LOGSIZE \<or> lh_n s \<ge> sint (log_size s) - 1 then Panic ''too big a transaction''
      else if log_outstanding s < 1 then Panic ''log_write outside of trans''
      else
        kbind (lk_acquire LogLock s) (\<lambda>_ s.
        let k = (case scan (\<lambda>k. lh_block s k = b_blockno (bufs s i)) (nat (lh_n s)) 0 of
              None \<Rightarrow> nat (lh_n s) | Some k \<Rightarrow> k);
            s = s\<lparr>lh_block := (lh_block s)(k := b_blockno (bufs s i))\<rparr>;
            s = (if int k = lh_n s then s\<lparr>lh_n := lh_n s + 1\<rparr> else s);
            s = upd_buf i (\<lambda>b. b\<lparr>b_flags := b_flags b OR B_DIRTY\<rparr>) s
        in lk_release LogLock s))"

end
