(* ===== verification/Fs.thy ===== *)
theory Fs
  imports Log
begin

text \<open>
  The file system (\<open>fs.c\<close>): blocks, inodes, file contents, directories and path names, and the
  console as a device file (\<open>consoleread\<close>, \<open>consolewrite\<close> and \<open>consoleinit\<close> of \<open>console.c\<close>,
  which lock and unlock the inode). An inode is its index in \<open>icache.inode\<close>. Structures on
  disk are read and written at their offsets in the block. A C string is the list of its bytes
  without the final NUL; a name of a directory entry has at most \<open>DIRSIZ\<close> bytes. What is read
  into a buffer of the caller is part of the result.

  The only functions ever stored in \<open>devsw\<close> are the console's, so \<open>devsw_read\<close> and
  \<open>devsw_write\<close> say for which devices they are stored.
\<close>

section \<open>State\<close>

abbreviation NINODE :: nat where "NINODE \<equiv> 50"
abbreviation NDEV :: int where "NDEV \<equiv> 10"
abbreviation ROOTDEV :: u32 where "ROOTDEV \<equiv> 1"
abbreviation ROOTINO :: u32 where "ROOTINO \<equiv> 1"
abbreviation NDIRECT :: nat where "NDIRECT \<equiv> 12"
abbreviation NINDIRECT :: nat where "NINDIRECT \<equiv> 128"
abbreviation MAXFILE :: nat where "MAXFILE \<equiv> 140"
abbreviation IPB :: u32 where "IPB \<equiv> 8"
abbreviation BPB :: nat where "BPB \<equiv> 4096"
abbreviation DIRSIZ :: nat where "DIRSIZ \<equiv> 14"
abbreviation CONSOLE :: nat where "CONSOLE \<equiv> 1"
abbreviation T_DIR :: u16 where "T_DIR \<equiv> 1"
abbreviation T_FILE :: u16 where "T_FILE \<equiv> 2"
abbreviation T_DEV :: u16 where "T_DEV \<equiv> 3"

record inode =
  i_dev :: u32
  i_inum :: u32
  i_ref :: int
  i_valid :: bool
  i_type :: u16
  i_major :: u16
  i_minor :: u16
  i_nlink :: u16
  i_size :: u32
  i_addrs :: "nat \<Rightarrow> u32"

record fs_state = log_state +
  sblk :: superblock
  inodes :: "nat \<Rightarrow> inode"
  devsw_read :: "nat \<Rightarrow> bool"
  devsw_write :: "nat \<Rightarrow> bool"

definition upd_inode :: "nat \<Rightarrow> (inode \<Rightarrow> inode) \<Rightarrow> 'a fs_state_scheme \<Rightarrow> 'a fs_state_scheme" where
  "upd_inode i f s = s\<lparr>inodes := (inodes s)(i := f (inodes s i))\<rparr>"

definition IBLOCK :: "u32 \<Rightarrow> superblock \<Rightarrow> u32" where
  "IBLOCK i sb = i div IPB + sb_inodestart sb"

definition BBLOCK :: "u32 \<Rightarrow> superblock \<Rightarrow> u32" where
  "BBLOCK b sb = b div 4096 + sb_bmapstart sb"

definition upd_data :: "nat \<Rightarrow> (bytes \<Rightarrow> bytes) \<Rightarrow> 'a bio_state_scheme \<Rightarrow> 'a bio_state_scheme" where
  "upd_data i f s = upd_buf i (\<lambda>b. b\<lparr>b_data := f (b_data b)\<rparr>) s"

section \<open>Blocks\<close>

definition bzero :: "u32 \<Rightarrow> u32 \<Rightarrow> 'a log_state_scheme \<Rightarrow> ('a log_state_scheme, unit) kres" where
  "bzero dv bno s =
     kbind (bread dv bno s) (\<lambda>bp s.
     kbind (log_write bp (upd_data bp (\<lambda>_ _. 0) s)) (\<lambda>_ s. brelse bp s))"

definition bit_free :: "bytes \<Rightarrow> nat \<Rightarrow> bool" where
  "bit_free d bi \<longleftrightarrow> d (bi div 8) AND push_bit (bi mod 8) 1 = 0"

text \<open>The outer loop of \<open>balloc\<close>, with \<open>m\<close> bitmap blocks left and \<open>b\<close> the first block that the next
  one describes.\<close>

fun balloc_loop :: "u32 \<Rightarrow> nat \<Rightarrow> nat \<Rightarrow> 'a fs_state_scheme \<Rightarrow> ('a fs_state_scheme, u32) kres" where
  "balloc_loop dv 0 b s = Panic ''balloc: out of blocks''"
| "balloc_loop dv (Suc m) b s =
     kbind (bread dv (BBLOCK (of_nat b) (sblk s)) s) (\<lambda>bp s.
     case scan (bit_free (b_data (bufs s bp))) (min BPB (unat (sb_size (sblk s)) - b)) 0 of
       Some bi \<Rightarrow>
         let s = upd_data bp (\<lambda>d. d(bi div 8 := d (bi div 8) OR push_bit (bi mod 8) 1)) s
         in kbind (log_write bp s) (\<lambda>_ s.
            kbind (brelse bp s) (\<lambda>_ s.
            kbind (bzero dv (of_nat (b + bi)) s) (\<lambda>_ s. Ret (of_nat (b + bi)) s)))
     | None \<Rightarrow> kbind (brelse bp s) (\<lambda>_ s. balloc_loop dv m (b + BPB) s))"

definition balloc :: "u32 \<Rightarrow> 'a fs_state_scheme \<Rightarrow> ('a fs_state_scheme, u32) kres" where
  "balloc dv s = balloc_loop dv ((unat (sb_size (sblk s)) + 4095) div 4096) 0 s"

definition bfree :: "u32 \<Rightarrow> u32 \<Rightarrow> 'a fs_state_scheme \<Rightarrow> ('a fs_state_scheme, unit) kres" where
  "bfree dv b s =
     kbind (bread dv (BBLOCK b (sblk s)) s) (\<lambda>bp s.
     let bi = unat b mod BPB in
     if bit_free (b_data (bufs s bp)) bi then Panic ''freeing free block''
     else
       let s = upd_data bp (\<lambda>d. d(bi div 8 := d (bi div 8) AND NOT (push_bit (bi mod 8) 1))) s
       in kbind (log_write bp s) (\<lambda>_ s. brelse bp s))"

section \<open>Inodes on disk\<close>

text \<open>An on-disk inode takes 64 bytes; \<open>o\<close> is its offset in the block.\<close>

definition dinode_off :: "u32 \<Rightarrow> nat" where
  "dinode_off inum = unat (inum mod IPB) * 64"

definition dinode_load :: "bytes \<Rightarrow> nat \<Rightarrow> inode \<Rightarrow> inode" where
  "dinode_load d off ip = ip\<lparr>i_type := ld16 d off, i_major := ld16 d (off + 2), i_minor := ld16 d (off + 4),
     i_nlink := ld16 d (off + 6), i_size := ld32 d (off + 8),
     i_addrs := (\<lambda>k. if k < NDIRECT + 1 then ld32 d (off + 12 + 4 * k) else i_addrs ip k)\<rparr>"

definition dinode_store :: "inode \<Rightarrow> nat \<Rightarrow> bytes \<Rightarrow> bytes" where
  "dinode_store ip off d =
     (let d = st16 d off (i_type ip); d = st16 d (off + 2) (i_major ip); d = st16 d (off + 4) (i_minor ip);
          d = st16 d (off + 6) (i_nlink ip); d = st32 d (off + 8) (i_size ip)
      in fold (\<lambda>k d. st32 d (off + 12 + 4 * k) (i_addrs ip k)) [0..<NDIRECT + 1] d)"

definition iupdate :: "nat \<Rightarrow> 'a fs_state_scheme \<Rightarrow> ('a fs_state_scheme, unit) kres" where
  "iupdate i s =
     (let ip = inodes s i in
      kbind (bread (i_dev ip) (IBLOCK (i_inum ip) (sblk s)) s) (\<lambda>bp s.
      kbind (log_write bp (upd_data bp (dinode_store ip (dinode_off (i_inum ip))) s)) (\<lambda>_ s.
      brelse bp s)))"

section \<open>The inode cache\<close>

definition iget :: "u32 \<Rightarrow> u32 \<Rightarrow> 'a fs_state_scheme \<Rightarrow> ('a fs_state_scheme, nat) kres" where
  "iget dv inum s =
     kbind (lk_acquire IcacheLock s) (\<lambda>_ s.
     case scan (\<lambda>i. i_ref (inodes s i) > 0 \<and> i_dev (inodes s i) = dv \<and> i_inum (inodes s i) = inum) NINODE 0 of
       Some i \<Rightarrow>
         kbind (lk_release IcacheLock (upd_inode i (\<lambda>ip. ip\<lparr>i_ref := i_ref ip + 1\<rparr>) s)) (\<lambda>_ s. Ret i s)
     | None \<Rightarrow>
         (case scan (\<lambda>i. i_ref (inodes s i) = 0) NINODE 0 of
            None \<Rightarrow> Panic ''iget: no inodes''
          | Some i \<Rightarrow>
              kbind (lk_release IcacheLock
                (upd_inode i (\<lambda>ip. ip\<lparr>i_dev := dv, i_inum := inum, i_ref := 1, i_valid := False\<rparr>) s)) (\<lambda>_ s. Ret i s)))"

text \<open>The loop of \<open>ialloc\<close>, from inode \<open>inum\<close> on with \<open>m\<close> inodes left.\<close>

fun ialloc_loop :: "u32 \<Rightarrow> u16 \<Rightarrow> nat \<Rightarrow> u32 \<Rightarrow> 'a fs_state_scheme \<Rightarrow> ('a fs_state_scheme, nat) kres" where
  "ialloc_loop dv ty 0 inum s = Panic ''ialloc: no inodes''"
| "ialloc_loop dv ty (Suc m) inum s =
     kbind (bread dv (IBLOCK inum (sblk s)) s) (\<lambda>bp s.
     let off = dinode_off inum in
     if ld16 (b_data (bufs s bp)) off = 0 then
       let s = upd_data bp (\<lambda>d. st16 (\<lambda>k. if off \<le> k \<and> k < off + 64 then 0 else d k) off ty) s
       in kbind (log_write bp s) (\<lambda>_ s.
          kbind (brelse bp s) (\<lambda>_ s. iget dv inum s))
     else kbind (brelse bp s) (\<lambda>_ s. ialloc_loop dv ty m (inum + 1) s))"

definition ialloc :: "u32 \<Rightarrow> u16 \<Rightarrow> 'a fs_state_scheme \<Rightarrow> ('a fs_state_scheme, nat) kres" where
  "ialloc dv ty s = ialloc_loop dv ty (unat (sb_ninodes (sblk s)) - 1) 1 s"

definition idup :: "nat \<Rightarrow> 'a fs_state_scheme \<Rightarrow> ('a fs_state_scheme, nat) kres" where
  "idup i s =
     kbind (lk_acquire IcacheLock s) (\<lambda>_ s.
     kbind (lk_release IcacheLock (upd_inode i (\<lambda>ip. ip\<lparr>i_ref := i_ref ip + 1\<rparr>) s)) (\<lambda>_ s. Ret i s))"

definition ilock :: "nat \<Rightarrow> 'a fs_state_scheme \<Rightarrow> ('a fs_state_scheme, unit) kres" where
  "ilock i s =
     (if i_ref (inodes s i) < 1 then Panic ''ilock''
      else
        kbind (acquiresleep (InodeLk i) s) (\<lambda>_ s.
        let ip = inodes s i in
        if i_valid ip then Ret () s
        else
          kbind (bread (i_dev ip) (IBLOCK (i_inum ip) (sblk s)) s) (\<lambda>bp s.
          let s = upd_inode i (dinode_load (b_data (bufs s bp)) (dinode_off (i_inum ip))) s
          in kbind (brelse bp s) (\<lambda>_ s.
             let s = upd_inode i (\<lambda>ip. ip\<lparr>i_valid := True\<rparr>) s
             in if i_type (inodes s i) = 0 then Panic ''ilock: no type'' else Ret () s))))"

definition iunlock :: "nat \<Rightarrow> 'a fs_state_scheme \<Rightarrow> ('a fs_state_scheme, unit) kres" where
  "iunlock i s =
     kbind (holdingsleep (InodeLk i) s) (\<lambda>h s.
     if \<not> h \<or> i_ref (inodes s i) < 1 then Panic ''iunlock'' else releasesleep (InodeLk i) s)"

definition iinit :: "u32 \<Rightarrow> 'a fs_state_scheme \<Rightarrow> ('a fs_state_scheme, unit) kres" where
  "iinit dv s =
     (let s = lk_init IcacheLock s;
          s = fold (\<lambda>i. initsleeplock (InodeLk i)) [0..<NINODE] s
      in kbind (readsb dv s) (\<lambda>sb s.
         let s = s\<lparr>sblk := sb\<rparr> in
         cprintf (Some (cstr ''sb: size %d nblocks %d ninodes %d nlog %d logstart %d inodestart %d bmap start %d''
             @ [10]))
           (\<lambda>k. [sb_size sb, sb_nblocks sb, sb_ninodes sb, sb_nlog sb, sb_logstart sb, sb_inodestart sb,
              sb_bmapstart sb] ! k) (\<lambda>_. None) s))"

section \<open>The blocks of a file\<close>

definition set_addr :: "nat \<Rightarrow> nat \<Rightarrow> u32 \<Rightarrow> 'a fs_state_scheme \<Rightarrow> 'a fs_state_scheme" where
  "set_addr i k a s = upd_inode i (\<lambda>ip. ip\<lparr>i_addrs := (i_addrs ip)(k := a)\<rparr>) s"

definition bmap :: "nat \<Rightarrow> nat \<Rightarrow> 'a fs_state_scheme \<Rightarrow> ('a fs_state_scheme, u32) kres" where
  "bmap i bn s =
     (let dv = i_dev (inodes s i) in
      if bn < NDIRECT then
        let addr = i_addrs (inodes s i) bn in
        if addr = 0 then kbind (balloc dv s) (\<lambda>addr s. Ret addr (set_addr i bn addr s))
        else Ret addr s
      else
        let bn = bn - NDIRECT in
        if bn < NINDIRECT then
          kbind (if i_addrs (inodes s i) NDIRECT = 0
                 then kbind (balloc dv s) (\<lambda>addr s. Ret addr (set_addr i NDIRECT addr s))
                 else Ret (i_addrs (inodes s i) NDIRECT) s) (\<lambda>addr s.
          kbind (bread dv addr s) (\<lambda>bp s.
          let addr = ld32 (b_data (bufs s bp)) (4 * bn) in
          if addr = 0 then
            kbind (balloc dv s) (\<lambda>addr s.
            kbind (log_write bp (upd_data bp (\<lambda>d. st32 d (4 * bn) addr) s)) (\<lambda>_ s.
            kbind (brelse bp s) (\<lambda>_ s. Ret addr s)))
          else kbind (brelse bp s) (\<lambda>_ s. Ret addr s)))
        else Panic ''bmap: out of range'')"

fun itrunc_direct :: "nat \<Rightarrow> nat \<Rightarrow> nat \<Rightarrow> 'a fs_state_scheme \<Rightarrow> ('a fs_state_scheme, unit) kres" where
  "itrunc_direct i 0 k s = Ret () s"
| "itrunc_direct i (Suc m) k s =
     (if i_addrs (inodes s i) k \<noteq> 0 then
        kbind (bfree (i_dev (inodes s i)) (i_addrs (inodes s i) k) s) (\<lambda>_ s.
        itrunc_direct i m (Suc k) (set_addr i k 0 s))
      else itrunc_direct i m (Suc k) s)"

fun itrunc_indirect :: "u32 \<Rightarrow> nat \<Rightarrow> nat \<Rightarrow> nat \<Rightarrow> 'a fs_state_scheme \<Rightarrow> ('a fs_state_scheme, unit) kres" where
  "itrunc_indirect dv bp 0 j s = Ret () s"
| "itrunc_indirect dv bp (Suc m) j s =
     (let a = ld32 (b_data (bufs s bp)) (4 * j) in
      if a \<noteq> 0 then kbind (bfree dv a s) (\<lambda>_. itrunc_indirect dv bp m (Suc j))
      else itrunc_indirect dv bp m (Suc j) s)"

definition itrunc :: "nat \<Rightarrow> 'a fs_state_scheme \<Rightarrow> ('a fs_state_scheme, unit) kres" where
  "itrunc i s =
     kbind (itrunc_direct i NDIRECT 0 s) (\<lambda>_ s.
     let dv = i_dev (inodes s i); a = i_addrs (inodes s i) NDIRECT in
     kbind (if a \<noteq> 0 then
              kbind (bread dv a s) (\<lambda>bp s.
              kbind (itrunc_indirect dv bp NINDIRECT 0 s) (\<lambda>_ s.
              kbind (brelse bp s) (\<lambda>_ s.
              kbind (bfree dv a s) (\<lambda>_ s. Ret () (set_addr i NDIRECT 0 s)))))
            else Ret () s) (\<lambda>_ s.
     iupdate i (upd_inode i (\<lambda>ip. ip\<lparr>i_size := 0\<rparr>) s)))"

definition iput :: "nat \<Rightarrow> 'a fs_state_scheme \<Rightarrow> ('a fs_state_scheme, unit) kres" where
  "iput i s =
     kbind (acquiresleep (InodeLk i) s) (\<lambda>_ s.
     kbind (if i_valid (inodes s i) \<and> i_nlink (inodes s i) = 0 then
              kbind (lk_acquire IcacheLock s) (\<lambda>_ s.
              let r = i_ref (inodes s i) in
              kbind (lk_release IcacheLock s) (\<lambda>_ s.
              if r = 1 then
                kbind (itrunc i s) (\<lambda>_ s.
                kbind (iupdate i (upd_inode i (\<lambda>ip. ip\<lparr>i_type := 0\<rparr>) s)) (\<lambda>_ s.
                Ret () (upd_inode i (\<lambda>ip. ip\<lparr>i_valid := False\<rparr>) s)))
              else Ret () s))
            else Ret () s) (\<lambda>_ s.
     kbind (releasesleep (InodeLk i) s) (\<lambda>_ s.
     kbind (lk_acquire IcacheLock s) (\<lambda>_ s.
     lk_release IcacheLock (upd_inode i (\<lambda>ip. ip\<lparr>i_ref := i_ref ip - 1\<rparr>) s)))))"

definition iunlockput :: "nat \<Rightarrow> 'a fs_state_scheme \<Rightarrow> ('a fs_state_scheme, unit) kres" where
  "iunlockput i s = kbind (iunlock i s) (\<lambda>_. iput i)"

end
