(* ===== verification/Dir.thy ===== *)
theory Dir
  imports Fs
begin

text \<open>
  File contents, directories and path names (second half of \<open>fs.c\<close>), and the console as a device
  file. A directory entry takes 16 bytes: the inode number and 14 bytes of name.
\<close>

section \<open>The console as a device\<close>

definition consoleread :: "nat \<Rightarrow> int \<Rightarrow> 'a fs_state_scheme \<Rightarrow> ('a fs_state_scheme, int \<times> u8 list) kres" where
  "consoleread i n s =
     kbind (iunlock i s) (\<lambda>_ s.
     kbind (lk_acquire ConsLock s) (\<lambda>_ s.
     kbind (consoleread_loop (nat n) (nat n) [] s) (\<lambda>r s.
     kbind (ilock i s) (\<lambda>_ s. Ret r s))))"

definition consolewrite :: "nat \<Rightarrow> u8 list \<Rightarrow> 'a fs_state_scheme \<Rightarrow> ('a fs_state_scheme, int) kres" where
  "consolewrite i bs s =
     kbind (iunlock i s) (\<lambda>_ s.
     kbind (consolewrite_body bs s) (\<lambda>r s.
     kbind (ilock i s) (\<lambda>_ s. Ret r s)))"

text \<open>\<open>enable\<close> is \<open>ioapicenable(IRQ_KBD, 0)\<close>.\<close>

definition consoleinit :: "('a fs_state_scheme \<Rightarrow> 'a fs_state_scheme) \<Rightarrow> 'a fs_state_scheme \<Rightarrow> 'a fs_state_scheme" where
  "consoleinit enable s =
     (let s = lk_init ConsLock s;
          s = s\<lparr>devsw_write := (devsw_write s)(CONSOLE := True), devsw_read := (devsw_read s)(CONSOLE := True),
                cons_locking := True\<rparr>
      in enable s)"

section \<open>File contents\<close>

record stat =
  st_type :: u16
  st_dev :: u32
  st_ino :: u32
  st_nlink :: u16
  st_size :: u32

definition stati :: "nat \<Rightarrow> 'a fs_state_scheme \<Rightarrow> stat" where
  "stati i s = (let ip = inodes s i in
     \<lparr>st_type = i_type ip, st_dev = i_dev ip, st_ino = i_inum ip, st_nlink = i_nlink ip, st_size = i_size ip\<rparr>)"

definition no_dev :: "(nat \<Rightarrow> bool) \<Rightarrow> u16 \<Rightarrow> bool" where
  "no_dev sw major \<longleftrightarrow> sint major < 0 \<or> sint major \<ge> NDEV \<or> \<not> sw (unat major)"

text \<open>The loop of \<open>readi\<close> with \<open>r = n - tot\<close> bytes left to read at offset \<open>off\<close>.\<close>

function readi_loop :: "nat \<Rightarrow> nat \<Rightarrow> nat \<Rightarrow> 'a fs_state_scheme \<Rightarrow> ('a fs_state_scheme, u8 list) kres" where
  "readi_loop i r off s =
     (if r = 0 then Ret [] s
      else
        kbind (bmap i (off div BSIZE) s) (\<lambda>addr s.
        kbind (bread (i_dev (inodes s i)) addr s) (\<lambda>bp s.
        let m = min r (BSIZE - off mod BSIZE);
            bs = map (\<lambda>k. b_data (bufs s bp) (off mod BSIZE + k)) [0..<m]
        in kbind (brelse bp s) (\<lambda>_ s.
           kbind (readi_loop i (r - m) (off + m) s) (\<lambda>rest s. Ret (bs @ rest) s)))))"
  by pat_completeness auto

termination
  by (relation "measure (\<lambda>(i, r, off, s). r)") auto

declare readi_loop.simps [simp del]

definition readi :: "nat \<Rightarrow> u32 \<Rightarrow> u32 \<Rightarrow> 'a fs_state_scheme \<Rightarrow> ('a fs_state_scheme, int \<times> u8 list) kres" where
  "readi i off n s =
     (let ip = inodes s i in
      if i_type ip = T_DEV then
        (if no_dev (devsw_read s) (i_major ip) then Ret (- 1, []) s
         else consoleread i (sint n) s)
      else if off > i_size ip \<or> off + n < off then Ret (- 1, []) s
      else
        let n = (if off + n > i_size ip then i_size ip - off else n)
        in kbind (readi_loop i (unat n) (unat off) s) (\<lambda>bs s. Ret (sint n, bs) s))"

text \<open>The loop of \<open>writei\<close>, with the bytes of the caller still to be written.\<close>

function writei_loop :: "nat \<Rightarrow> u8 list \<Rightarrow> nat \<Rightarrow> 'a fs_state_scheme \<Rightarrow> ('a fs_state_scheme, unit) kres" where
  "writei_loop i src off s =
     (if src = [] then Ret () s
      else
        kbind (bmap i (off div BSIZE) s) (\<lambda>addr s.
        kbind (bread (i_dev (inodes s i)) addr s) (\<lambda>bp s.
        let m = min (length src) (BSIZE - off mod BSIZE);
            s = upd_data bp (\<lambda>d k. if off mod BSIZE \<le> k \<and> k < off mod BSIZE + m then src ! (k - off mod BSIZE) else d k) s
        in kbind (log_write bp s) (\<lambda>_ s.
           kbind (brelse bp s) (\<lambda>_ s. writei_loop i (drop m src) (off + m) s)))))"
  by pat_completeness auto

termination
  by (relation "measure (\<lambda>(i, src, off, s). length src)") auto

declare writei_loop.simps [simp del]

definition writei :: "nat \<Rightarrow> u8 list \<Rightarrow> u32 \<Rightarrow> 'a fs_state_scheme \<Rightarrow> ('a fs_state_scheme, int) kres" where
  "writei i src off s =
     (let ip = inodes s i; n = of_nat (length src) in
      if i_type ip = T_DEV then
        (if no_dev (devsw_write s) (i_major ip) then Ret (- 1) s
         else consolewrite i src s)
      else if off > i_size ip \<or> off + n < off then Ret (- 1) s
      else if unat (off + n) > MAXFILE * BSIZE then Ret (- 1) s
      else
        kbind (writei_loop i src (unat off) s) (\<lambda>_ s.
        kbind (if src \<noteq> [] \<and> off + n > i_size (inodes s i)
               then iupdate i (upd_inode i (\<lambda>ip. ip\<lparr>i_size := off + n\<rparr>) s)
               else Ret () s) (\<lambda>_ s. Ret (int (length src)) s)))"

section \<open>Directories\<close>

text \<open>\<open>strncmp\<close> on two strings of which the missing rest is NUL.\<close>

definition chr0 :: "u8 list \<Rightarrow> u8" where
  "chr0 s = (case s of [] \<Rightarrow> 0 | c # _ \<Rightarrow> c)"

fun namecmp_n :: "nat \<Rightarrow> u8 list \<Rightarrow> u8 list \<Rightarrow> int" where
  "namecmp_n 0 s t = 0"
| "namecmp_n (Suc n) s t =
     (if chr0 s \<noteq> 0 \<and> chr0 s = chr0 t then namecmp_n n (tl s) (tl t) else uint (chr0 s) - uint (chr0 t))"

definition namecmp :: "u8 list \<Rightarrow> u8 list \<Rightarrow> int" where
  "namecmp s t = namecmp_n DIRSIZ s t"

definition de_inum :: "u8 list \<Rightarrow> u16" where
  "de_inum de = ld16 (\<lambda>k. de ! k) 0"

definition de_name :: "u8 list \<Rightarrow> u8 list" where
  "de_name de = drop 2 de"

text \<open>\<open>strncpy(de.name, name, DIRSIZ)\<close> pads with NUL.\<close>

definition de_make :: "u16 \<Rightarrow> u8 list \<Rightarrow> u8 list" where
  "de_make inum name =
     [ucast inum, ucast (drop_bit 8 inum)] @ take DIRSIZ name @ replicate (DIRSIZ - length name) 0"

text \<open>The loop of \<open>dirlookup\<close> from offset \<open>off\<close> on, with \<open>m\<close> entries left; the result is the inode
  and the offset of the entry.\<close>

fun dirlookup_loop :: "nat \<Rightarrow> u8 list \<Rightarrow> nat \<Rightarrow> u32 \<Rightarrow> 'a fs_state_scheme \<Rightarrow>
    ('a fs_state_scheme, (nat \<times> u32) option) kres" where
  "dirlookup_loop dp name 0 off s = Ret None s"
| "dirlookup_loop dp name (Suc m) off s =
     kbind (readi dp off 16 s) (\<lambda>rd s. let de = snd rd in
     if fst rd \<noteq> 16 then Panic ''dirlookup read''
     else if de_inum de = 0 then dirlookup_loop dp name m (off + 16) s
     else if namecmp name (de_name de) = 0 then
       kbind (iget (i_dev (inodes s dp)) (ucast (de_inum de)) s) (\<lambda>i s. Ret (Some (i, off)) s)
     else dirlookup_loop dp name m (off + 16) s)"

definition entries :: "u32 \<Rightarrow> nat" where
  "entries sz = (unat sz + 15) div 16"

definition dirlookup :: "nat \<Rightarrow> u8 list \<Rightarrow> 'a fs_state_scheme \<Rightarrow> ('a fs_state_scheme, (nat \<times> u32) option) kres" where
  "dirlookup dp name s =
     (if i_type (inodes s dp) \<noteq> T_DIR then Panic ''dirlookup not DIR''
      else dirlookup_loop dp name (entries (i_size (inodes s dp))) 0 s)"

fun dirlink_free :: "nat \<Rightarrow> nat \<Rightarrow> u32 \<Rightarrow> 'a fs_state_scheme \<Rightarrow> ('a fs_state_scheme, u32) kres" where
  "dirlink_free dp 0 off s = Ret off s"
| "dirlink_free dp (Suc m) off s =
     kbind (readi dp off 16 s) (\<lambda>rd s. let de = snd rd in
     if fst rd \<noteq> 16 then Panic ''dirlink read''
     else if de_inum de = 0 then Ret off s
     else dirlink_free dp m (off + 16) s)"

definition dirlink :: "nat \<Rightarrow> u8 list \<Rightarrow> u32 \<Rightarrow> 'a fs_state_scheme \<Rightarrow> ('a fs_state_scheme, int) kres" where
  "dirlink dp name inum s =
     kbind (dirlookup dp name s) (\<lambda>found s.
     case found of
       Some (i, off) \<Rightarrow> kbind (iput i s) (\<lambda>_ s. Ret (- 1) s)
     | None \<Rightarrow>
         kbind (dirlink_free dp (entries (i_size (inodes s dp))) 0 s) (\<lambda>off s.
         kbind (writei dp (de_make (ucast inum) name) off s) (\<lambda>r s.
         if r \<noteq> 16 then Panic ''dirlink'' else Ret 0 s)))"

section \<open>Paths\<close>

abbreviation slash :: u8 where "slash \<equiv> 47"

text \<open>The next element (cut to \<open>DIRSIZ\<close> bytes) and the rest of the path, \<open>None\<close> if there is no
  element.\<close>

definition skipelem :: "u8 list \<Rightarrow> (u8 list \<times> u8 list) option" where
  "skipelem path =
     (let path = dropWhile (\<lambda>c. c = slash) path in
      if path = [] then None
      else Some (take DIRSIZ (takeWhile (\<lambda>c. c \<noteq> slash) path),
             dropWhile (\<lambda>c. c = slash) (dropWhile (\<lambda>c. c \<noteq> slash) path)))"

lemma length_skip:
  assumes "dropWhile P xs \<noteq> []"
  shows "length (dropWhile P (dropWhile (\<lambda>c. \<not> P c) (dropWhile P xs))) < length xs"
proof -
  obtain y ys where y: "dropWhile P xs = y # ys" using assms by (cases "dropWhile P xs") auto
  then have "\<not> P y" using hd_dropWhile [OF assms] by simp
  then have "length (dropWhile P (dropWhile (\<lambda>c. \<not> P c) (y # ys))) \<le> length ys"
    using length_dropWhile_le [of P "dropWhile (\<lambda>c. \<not> P c) ys"] length_dropWhile_le [of "\<lambda>c. \<not> P c" ys] by simp
  moreover have "length (y # ys) \<le> length xs" unfolding y [symmetric] by (rule length_dropWhile_le)
  ultimately show ?thesis unfolding y by simp
qed

lemma skipelem_shorter: "skipelem path = Some (name, rest) \<Longrightarrow> length rest < length path"
  using length_skip [of "\<lambda>c. c = slash" path] unfolding skipelem_def Let_def by (simp split: if_splits)

text \<open>The loop of \<open>namex\<close>; the result is the inode and the content of \<open>name\<close>.\<close>

function namex_loop :: "bool \<Rightarrow> u8 list \<Rightarrow> u8 list \<Rightarrow> nat \<Rightarrow> 'a fs_state_scheme \<Rightarrow>
    ('a fs_state_scheme, (nat \<times> u8 list) option) kres" where
  "namex_loop parent path name i s =
     (case skipelem path of
        None \<Rightarrow> if parent then kbind (iput i s) (\<lambda>_ s. Ret None s) else Ret (Some (i, name)) s
      | Some (name, path) \<Rightarrow>
          kbind (ilock i s) (\<lambda>_ s.
          if i_type (inodes s i) \<noteq> T_DIR then kbind (iunlockput i s) (\<lambda>_ s. Ret None s)
          else if parent \<and> path = [] then kbind (iunlock i s) (\<lambda>_ s. Ret (Some (i, name)) s)
          else
            kbind (dirlookup i name s) (\<lambda>next s.
            case next of
              None \<Rightarrow> kbind (iunlockput i s) (\<lambda>_ s. Ret None s)
            | Some (j, off) \<Rightarrow> kbind (iunlockput i s) (\<lambda>_ s. namex_loop parent path name j s))))"
  by pat_completeness auto

termination
  by (relation "measure (\<lambda>(parent, path, name, i, s). length path)") (auto intro: skipelem_shorter)

declare namex_loop.simps [simp del]

definition namex :: "u8 list \<Rightarrow> bool \<Rightarrow> 'a fs_state_scheme \<Rightarrow> ('a fs_state_scheme, (nat \<times> u8 list) option) kres" where
  "namex path parent s =
     kbind (if chr0 path = slash then iget ROOTDEV ROOTINO s
            else with_proc s (\<lambda>p. case p_cwd (procs s p) of None \<Rightarrow> null_deref | Some i \<Rightarrow> idup i s)) (\<lambda>i s.
     namex_loop parent path [] i s)"

definition namei :: "u8 list \<Rightarrow> 'a fs_state_scheme \<Rightarrow> ('a fs_state_scheme, nat option) kres" where
  "namei path s = kbind (namex path False s) (\<lambda>r s. Ret (map_option fst r) s)"

definition nameiparent :: "u8 list \<Rightarrow> 'a fs_state_scheme \<Rightarrow> ('a fs_state_scheme, (nat \<times> u8 list) option) kres" where
  "nameiparent path s = namex path True s"

end
