(* ===== verification/Vm.thy ===== *)
theory Vm
  imports Dir
begin

text \<open>
  Page tables and user memory (\<open>vm.c\<close>, \<open>mmu.h\<close>). A page of physical memory is the entry of
  \<open>pages\<close> at its kernel address, an array of 1024 words, and a page directory or a page table is
  such a page. A page table entry is named by the kernel address of its table and its index. The
  addresses that the linker fixes are in \<open>ksyms\<close>.

  A loop over pages gets as many rounds as there are pages in its range; \<open>deallocuvm\<close>, which
  skips ahead over missing page tables, gets one round per page of its range and \<open>Panic ''loop''\<close>
  if these are used up, which does not happen (\<open>dealloc_loop_ends\<close> below). \<open>seginit\<close> and the
  segment descriptors are not modelled; of the task state segment only \<open>esp0\<close> is.
\<close>

section \<open>State\<close>

abbreviation PTE_P :: u32 where "PTE_P \<equiv> 0x001"
abbreviation PTE_W :: u32 where "PTE_W \<equiv> 0x002"
abbreviation PTE_U :: u32 where "PTE_U \<equiv> 0x004"

record ksyms =
  k_end :: u32
  k_data :: u32
  k_forkret :: u32
  k_trapret :: u32
  k_initcode :: "u8 list"

record vm_state = fs_state +
  kpgdir :: u32
  cr3 :: u32
  ts_esp0 :: u32

definition PDX :: "u32 \<Rightarrow> nat" where
  "PDX va = unat (drop_bit 22 va AND 0x3FF)"

definition PTX :: "u32 \<Rightarrow> nat" where
  "PTX va = unat (drop_bit 12 va AND 0x3FF)"

definition PGADDR :: "u32 \<Rightarrow> u32 \<Rightarrow> u32 \<Rightarrow> u32" where
  "PGADDR d t off = push_bit 22 d OR push_bit 12 t OR off"

definition PTE_ADDR :: "u32 \<Rightarrow> u32" where
  "PTE_ADDR pte = pte AND NOT 0xFFF"

definition PTE_FLAGS :: "u32 \<Rightarrow> u32" where
  "PTE_FLAGS pte = pte AND 0xFFF"

definition set_word :: "u32 \<Rightarrow> nat \<Rightarrow> u32 \<Rightarrow> 'a kmem_state_scheme \<Rightarrow> 'a kmem_state_scheme" where
  "set_word pg k w s = s\<lparr>pages := (pages s)(pg := (pages s pg)(k := w))\<rparr>"

definition zero_page :: "u32 \<Rightarrow> 'a kmem_state_scheme \<Rightarrow> 'a kmem_state_scheme" where
  "zero_page pg s = s\<lparr>pages := (pages s)(pg := (\<lambda>_. 0))\<rparr>"

section \<open>Page tables\<close>

definition walkpgdir :: "u32 \<Rightarrow> u32 \<Rightarrow> bool \<Rightarrow> 'a kmem_state_scheme \<Rightarrow>
    ('a kmem_state_scheme, (u32 \<times> nat) option) kres" where
  "walkpgdir pgdir va alloc s =
     (let pde = pages s pgdir (PDX va) in
      if pde AND PTE_P \<noteq> 0 then Ret (Some (P2V (PTE_ADDR pde), PTX va)) s
      else if \<not> alloc then Ret None s
      else
        kbind (kalloc s) (\<lambda>pgtab s.
        if pgtab = 0 then Ret None s
        else
          let s = zero_page pgtab s;
              s = set_word pgdir (PDX va) (V2P pgtab OR PTE_P OR PTE_W OR PTE_U) s
          in Ret (Some (pgtab, PTX va)) s))"

text \<open>The loop of \<open>mappages\<close>, with \<open>m\<close> pages left after the one at \<open>a\<close>.\<close>

fun mappages_loop :: "u32 \<Rightarrow> nat \<Rightarrow> u32 \<Rightarrow> u32 \<Rightarrow> u32 \<Rightarrow> 'a kmem_state_scheme \<Rightarrow> ('a kmem_state_scheme, int) kres" where
  "mappages_loop pgdir m a pa perm s =
     kbind (walkpgdir pgdir a True s) (\<lambda>pte s.
     case pte of
       None \<Rightarrow> Ret (- 1) s
     | Some (pg, k) \<Rightarrow>
         if pages s pg k AND PTE_P \<noteq> 0 then Panic ''remap''
         else
           let s = set_word pg k (pa OR perm OR PTE_P) s in
           case m of 0 \<Rightarrow> Ret 0 s | Suc m \<Rightarrow> mappages_loop pgdir m (a + PGSIZE) (pa + PGSIZE) perm s)"

declare mappages_loop.simps [simp del]

definition mappages :: "u32 \<Rightarrow> u32 \<Rightarrow> u32 \<Rightarrow> u32 \<Rightarrow> u32 \<Rightarrow> 'a kmem_state_scheme \<Rightarrow> ('a kmem_state_scheme, int) kres" where
  "mappages pgdir va sz pa perm s =
     (let a = PGROUNDDOWN va; last = PGROUNDDOWN (va + sz - 1)
      in mappages_loop pgdir (unat (last - a) div 4096) a pa perm s)"

text \<open>The loop of \<open>deallocuvm\<close>, with \<open>n\<close> rounds left.\<close>

fun dealloc_loop :: "u32 \<Rightarrow> u32 \<Rightarrow> u32 \<Rightarrow> nat \<Rightarrow> u32 \<Rightarrow> 'a kmem_state_scheme \<Rightarrow> ('a kmem_state_scheme, unit) kres" where
  "dealloc_loop kend pgdir oldsz 0 a s = (if a < oldsz then Panic ''loop'' else Ret () s)"
| "dealloc_loop kend pgdir oldsz (Suc n) a s =
     (if a < oldsz then
        kbind (walkpgdir pgdir a False s) (\<lambda>pte s.
        case pte of
          None \<Rightarrow> dealloc_loop kend pgdir oldsz n (PGADDR (of_nat (PDX a) + 1) 0 0 - PGSIZE + PGSIZE) s
        | Some (pg, k) \<Rightarrow>
            if pages s pg k AND PTE_P \<noteq> 0 then
              let pa = PTE_ADDR (pages s pg k) in
              if pa = 0 then Panic ''kfree''
              else
                kbind (kfree kend (P2V pa) s) (\<lambda>_ s.
                dealloc_loop kend pgdir oldsz n (a + PGSIZE) (set_word pg k 0 s))
            else dealloc_loop kend pgdir oldsz n (a + PGSIZE) s)
      else Ret () s)"

definition deallocuvm :: "u32 \<Rightarrow> u32 \<Rightarrow> u32 \<Rightarrow> u32 \<Rightarrow> 'a kmem_state_scheme \<Rightarrow> ('a kmem_state_scheme, u32) kres" where
  "deallocuvm kend pgdir oldsz newsz s =
     (if newsz \<ge> oldsz then Ret oldsz s
      else
        kbind (dealloc_loop kend pgdir oldsz (unat oldsz div 4096 + 1) (PGROUNDUP newsz) s) (\<lambda>_ s.
        Ret newsz s))"

text \<open>The second loop of \<open>freevm\<close>, over the page directory.\<close>

fun freevm_loop :: "u32 \<Rightarrow> u32 \<Rightarrow> nat \<Rightarrow> nat \<Rightarrow> 'a kmem_state_scheme \<Rightarrow> ('a kmem_state_scheme, unit) kres" where
  "freevm_loop kend pgdir 0 i s = Ret () s"
| "freevm_loop kend pgdir (Suc n) i s =
     (if pages s pgdir i AND PTE_P \<noteq> 0
      then kbind (kfree kend (P2V (PTE_ADDR (pages s pgdir i))) s) (\<lambda>_. freevm_loop kend pgdir n (Suc i))
      else freevm_loop kend pgdir n (Suc i) s)"

definition freevm :: "u32 \<Rightarrow> u32 \<Rightarrow> 'a kmem_state_scheme \<Rightarrow> ('a kmem_state_scheme, unit) kres" where
  "freevm kend pgdir s =
     (if pgdir = 0 then Panic ''freevm: no pgdir''
      else
        kbind (deallocuvm kend pgdir KERNBASE 0 s) (\<lambda>_ s.
        kbind (freevm_loop kend pgdir 1024 0 s) (\<lambda>_ s. kfree kend pgdir s)))"

text \<open>The table \<open>kmap\<close>: virtual address, physical start and end, permissions.\<close>

definition kmap :: "u32 \<Rightarrow> (u32 \<times> u32 \<times> u32 \<times> u32) list" where
  "kmap kdata =
     [(KERNBASE, 0, EXTMEM, PTE_W),
      (KERNLINK, V2P KERNLINK, V2P kdata, 0),
      (kdata, V2P kdata, PHYSTOP, PTE_W),
      (DEVSPACE, DEVSPACE, 0, PTE_W)]"

fun setupkvm_loop :: "ksyms \<Rightarrow> u32 \<Rightarrow> (u32 \<times> u32 \<times> u32 \<times> u32) list \<Rightarrow> 'a kmem_state_scheme \<Rightarrow>
    ('a kmem_state_scheme, u32) kres" where
  "setupkvm_loop K pgdir [] s = Ret pgdir s"
| "setupkvm_loop K pgdir ((virt, start, stop, perm) # ks) s =
     kbind (mappages pgdir virt (stop - start) start perm s) (\<lambda>r s.
     if r < 0 then kbind (freevm (k_end K) pgdir s) (\<lambda>_ s. Ret 0 s)
     else setupkvm_loop K pgdir ks s)"

definition setupkvm :: "ksyms \<Rightarrow> 'a kmem_state_scheme \<Rightarrow> ('a kmem_state_scheme, u32) kres" where
  "setupkvm K s =
     kbind (kalloc s) (\<lambda>pgdir s.
     if pgdir = 0 then Ret 0 s
     else
       let s = zero_page pgdir s in
       if P2V PHYSTOP > DEVSPACE then Panic ''PHYSTOP too high''
       else setupkvm_loop K pgdir (kmap (k_data K)) s)"

section \<open>Switching address spaces\<close>

definition switchkvm :: "'a vm_state_scheme \<Rightarrow> 'a vm_state_scheme" where
  "switchkvm s = s\<lparr>cr3 := V2P (kpgdir s)\<rparr>"

definition kvmalloc :: "ksyms \<Rightarrow> 'a vm_state_scheme \<Rightarrow> ('a vm_state_scheme, unit) kres" where
  "kvmalloc K s = kbind (setupkvm K s) (\<lambda>pgdir s. Ret () (switchkvm (s\<lparr>kpgdir := pgdir\<rparr>)))"

definition switchuvm :: "nat \<Rightarrow> 'a vm_state_scheme \<Rightarrow> ('a vm_state_scheme, unit) kres" where
  "switchuvm p s =
     (if p_kstack (procs s p) = 0 then Panic ''switchuvm: no kstack''
      else if p_pgdir (procs s p) = 0 then Panic ''switchuvm: no pgdir''
      else Ret () (s\<lparr>ts_esp0 := p_kstack (procs s p) + KSTACKSIZE, cr3 := V2P (p_pgdir (procs s p))\<rparr>))"

section \<open>Bytes of pages\<close>

text \<open>The byte at kernel address \<open>a\<close>, and the machine's view of memory through a page directory: the
  kernel address that user address \<open>va\<close> is mapped to.\<close>

definition kbyte :: "'a kmem_state_scheme \<Rightarrow> u32 \<Rightarrow> u8" where
  "kbyte s a = ucast (drop_bit (8 * unat (a AND 3)) (kword s a))"

definition set_byte :: "u32 \<Rightarrow> u8 \<Rightarrow> 'a kmem_state_scheme \<Rightarrow> 'a kmem_state_scheme" where
  "set_byte a v s =
     (let sh = 8 * unat (a AND 3)
      in set_word (PGROUNDDOWN a) (unat (a AND 0xFFF) div 4)
           ((kword s a AND NOT (push_bit sh 0xFF)) OR push_bit sh (ucast v)) s)"

fun set_bytes :: "u32 \<Rightarrow> u8 list \<Rightarrow> 'a kmem_state_scheme \<Rightarrow> 'a kmem_state_scheme" where
  "set_bytes a [] s = s"
| "set_bytes a (b # bs) s = set_bytes (a + 1) bs (set_byte a b s)"

definition translate :: "'a kmem_state_scheme \<Rightarrow> u32 \<Rightarrow> u32 \<Rightarrow> u32 option" where
  "translate s pgdir va =
     (let pde = pages s pgdir (PDX va) in
      if pde AND PTE_P = 0 then None
      else let pte = pages s (P2V (PTE_ADDR pde)) (PTX va) in
        if pte AND PTE_P = 0 then None else Some (P2V (PTE_ADDR pte) + (va AND 0xFFF)))"

section \<open>User memory\<close>

definition inituvm :: "u32 \<Rightarrow> u8 list \<Rightarrow> 'a kmem_state_scheme \<Rightarrow> ('a kmem_state_scheme, unit) kres" where
  "inituvm pgdir init s =
     (if length init \<ge> 4096 then Panic ''inituvm: more than a page''
      else
        kbind (kalloc s) (\<lambda>mem s.
        kbind (mappages pgdir 0 PGSIZE (V2P mem) (PTE_W OR PTE_U) (zero_page mem s)) (\<lambda>_ s.
        Ret () (set_bytes mem init s))))"

text \<open>The loop of \<open>loaduvm\<close> from \<open>i\<close> on, with \<open>m\<close> pages left.\<close>

fun loaduvm_loop :: "u32 \<Rightarrow> u32 \<Rightarrow> nat \<Rightarrow> u32 \<Rightarrow> u32 \<Rightarrow> nat \<Rightarrow> u32 \<Rightarrow> 'a fs_state_scheme \<Rightarrow>
    ('a fs_state_scheme, int) kres" where
  "loaduvm_loop pgdir addr ip off sz 0 i s = Ret 0 s"
| "loaduvm_loop pgdir addr ip off sz (Suc m) i s =
     kbind (walkpgdir pgdir (addr + i) False s) (\<lambda>pte s.
     case pte of
       None \<Rightarrow> Panic ''loaduvm: address should exist''
     | Some (pg, k) \<Rightarrow>
         let pa = PTE_ADDR (pages s pg k);
             n = (if sz - i < PGSIZE then sz - i else PGSIZE)
         in kbind (readi ip (off + i) n s) (\<lambda>rd s.
            let s = set_bytes (P2V pa) (snd rd) s in
            if fst rd \<noteq> sint n then Ret (- 1) s
            else loaduvm_loop pgdir addr ip off sz m (i + PGSIZE) s))"

definition loaduvm :: "u32 \<Rightarrow> u32 \<Rightarrow> nat \<Rightarrow> u32 \<Rightarrow> u32 \<Rightarrow> 'a fs_state_scheme \<Rightarrow> ('a fs_state_scheme, int) kres" where
  "loaduvm pgdir addr ip off sz s =
     (if addr mod PGSIZE \<noteq> 0 then Panic ''loaduvm: addr must be page aligned''
      else loaduvm_loop pgdir addr ip off sz ((unat sz + 4095) div 4096) 0 s)"

text \<open>The loop of \<open>allocuvm\<close> from \<open>a\<close> on, with \<open>m\<close> pages left.\<close>

fun allocuvm_loop :: "u32 \<Rightarrow> u32 \<Rightarrow> u32 \<Rightarrow> u32 \<Rightarrow> nat \<Rightarrow> u32 \<Rightarrow> 'a cons_state_scheme \<Rightarrow> ('a cons_state_scheme, u32) kres" where
  "allocuvm_loop kend pgdir oldsz newsz 0 a s = Ret newsz s"
| "allocuvm_loop kend pgdir oldsz newsz (Suc m) a s =
     kbind (kalloc s) (\<lambda>mem s.
     if mem = 0 then
       kbind (cprintf (Some (cstr ''allocuvm out of memory'' @ [10])) (\<lambda>_. 0) (\<lambda>_. None) s) (\<lambda>_ s.
       kbind (deallocuvm kend pgdir newsz oldsz s) (\<lambda>_ s. Ret 0 s))
     else
       kbind (mappages pgdir a PGSIZE (V2P mem) (PTE_W OR PTE_U) (zero_page mem s)) (\<lambda>r s.
       if r < 0 then
         kbind (cprintf (Some (cstr ''allocuvm out of memory (2)'' @ [10])) (\<lambda>_. 0) (\<lambda>_. None) s) (\<lambda>_ s.
         kbind (deallocuvm kend pgdir newsz oldsz s) (\<lambda>_ s.
         kbind (kfree kend mem s) (\<lambda>_ s. Ret 0 s)))
       else allocuvm_loop kend pgdir oldsz newsz m (a + PGSIZE) s))"

definition allocuvm :: "u32 \<Rightarrow> u32 \<Rightarrow> u32 \<Rightarrow> u32 \<Rightarrow> 'a cons_state_scheme \<Rightarrow> ('a cons_state_scheme, u32) kres" where
  "allocuvm kend pgdir oldsz newsz s =
     (if newsz \<ge> KERNBASE then Ret 0 s
      else if newsz < oldsz then Ret oldsz s
      else
        let a = PGROUNDUP oldsz
        in allocuvm_loop kend pgdir oldsz newsz ((unat newsz - unat a + 4095) div 4096) a s)"

definition clearpteu :: "u32 \<Rightarrow> u32 \<Rightarrow> 'a kmem_state_scheme \<Rightarrow> ('a kmem_state_scheme, unit) kres" where
  "clearpteu pgdir uva s =
     kbind (walkpgdir pgdir uva False s) (\<lambda>pte s.
     case pte of None \<Rightarrow> Panic ''clearpteu''
     | Some (pg, k) \<Rightarrow> Ret () (set_word pg k (pages s pg k AND NOT PTE_U) s))"

fun copyuvm_loop :: "ksyms \<Rightarrow> u32 \<Rightarrow> u32 \<Rightarrow> nat \<Rightarrow> u32 \<Rightarrow> 'a kmem_state_scheme \<Rightarrow> ('a kmem_state_scheme, u32) kres" where
  "copyuvm_loop K pgdir d 0 i s = Ret d s"
| "copyuvm_loop K pgdir d (Suc m) i s =
     kbind (walkpgdir pgdir i False s) (\<lambda>pte s.
     case pte of
       None \<Rightarrow> Panic ''copyuvm: pte should exist''
     | Some (pg, k) \<Rightarrow>
         let pte = pages s pg k in
         if pte AND PTE_P = 0 then Panic ''copyuvm: page not present''
         else
           let pa = PTE_ADDR pte; flags = PTE_FLAGS pte in
           kbind (kalloc s) (\<lambda>mem s.
           if mem = 0 then kbind (freevm (k_end K) d s) (\<lambda>_ s. Ret 0 s)
           else
             let s = s\<lparr>pages := (pages s)(mem := pages s (P2V pa))\<rparr>
             in kbind (mappages d i PGSIZE (V2P mem) flags s) (\<lambda>r s.
                if r < 0 then
                  kbind (kfree (k_end K) mem s) (\<lambda>_ s.
                  kbind (freevm (k_end K) d s) (\<lambda>_ s. Ret 0 s))
                else copyuvm_loop K pgdir d m (i + PGSIZE) s)))"

definition copyuvm :: "ksyms \<Rightarrow> u32 \<Rightarrow> u32 \<Rightarrow> 'a kmem_state_scheme \<Rightarrow> ('a kmem_state_scheme, u32) kres" where
  "copyuvm K pgdir sz s =
     kbind (setupkvm K s) (\<lambda>d s.
     if d = 0 then Ret 0 s else copyuvm_loop K pgdir d ((unat sz + 4095) div 4096) 0 s)"

text \<open>\<open>uva2ka\<close> reads the entry that \<open>walkpgdir\<close> returns without checking for the null pointer; that
  read is the word at address 0 of the current address space.\<close>

definition uva2ka :: "u32 \<Rightarrow> u32 \<Rightarrow> 'a vm_state_scheme \<Rightarrow> ('a vm_state_scheme, u32) kres" where
  "uva2ka pgdir uva s =
     kbind (walkpgdir pgdir uva False s) (\<lambda>pte s.
     case (case pte of Some (pg, k) \<Rightarrow> Some (pages s pg k)
           | None \<Rightarrow> map_option (kword s) (translate s (P2V (cr3 s)) 0)) of
       None \<Rightarrow> null_deref
     | Some e \<Rightarrow>
         if e AND PTE_P = 0 then Ret 0 s
         else if e AND PTE_U = 0 then Ret 0 s
         else Ret (P2V (PTE_ADDR e)) s)"

lemma page_offset: "unat (va - PGROUNDDOWN va) = unat va mod 4096"
proof -
  have "PGROUNDDOWN va \<le> va" by (simp add: word_le_nat_alt unat_PGROUNDDOWN)
  then have "unat (va - PGROUNDDOWN va) = unat va - unat va div 4096 * 4096"
    by (simp add: unat_sub unat_PGROUNDDOWN)
  also have "\<dots> = unat va mod 4096" by (rule minus_div_mult_eq_mod)
  finally show ?thesis .
qed

function copyout :: "u32 \<Rightarrow> u32 \<Rightarrow> u8 list \<Rightarrow> 'a vm_state_scheme \<Rightarrow> ('a vm_state_scheme, int) kres" where
  "copyout pgdir va buf s =
     (if buf = [] then Ret 0 s
      else
        let va0 = PGROUNDDOWN va in
        kbind (uva2ka pgdir va0 s) (\<lambda>pa0 s.
        if pa0 = 0 then Ret (- 1) s
        else
          let n = 4096 - unat (va - va0);
              n = (if n > length buf then length buf else n)
          in copyout pgdir (va0 + PGSIZE) (drop n buf) (set_bytes (pa0 + (va - va0)) (take n buf) s)))"
  by pat_completeness auto

termination
  by (relation "measure (\<lambda>(pgdir, va, buf, s). length buf)") (auto simp: page_offset)

declare copyout.simps [simp del]

section \<open>The loop of deallocuvm ends\<close>

lemma unat_PDX: "PDX a = unat a div 4194304"
proof -
  have "unat a < 4294967296" using unsigned_less [of a, where ?'a = nat] by simp
  then have "unat a div 4194304 < 1024" by (simp add: div_less_iff_less_mult)
  moreover have "drop_bit 22 a AND 0x3FF = take_bit 10 (drop_bit 22 a)"
    by (simp add: take_bit_eq_mask mask_eq_exp_minus_1)
  ultimately show ?thesis by (simp add: PDX_def take_bit_eq_mod unat_mod drop_bit_eq_div unat_div)
qed

text \<open>The start of the next page directory entry.\<close>

lemma next_pde:
  assumes "unat a < 0x80000000"
  shows "unat (PGADDR (of_nat (PDX a) + 1) 0 0) = (unat a div 4194304 + 1) * 4194304"
proof -
  have "unat a div 4194304 < 512" using assms by (simp add: div_less_iff_less_mult)
  then show ?thesis by (simp add: PGADDR_def unat_PDX push_bit_eq_mult unat_word_ariths unat_of_nat)
qed

lemma kfree_outcome:
  assumes "KmemLock \<notin> held s"
  shows "kfree kend v s = Panic ''kfree'' \<or> (\<exists>t. kfree kend v s = Ret () t \<and> KmemLock \<notin> held t)"
  using assms by (simp add: kfree_def Let_def)

lemma page_before_table:
  assumes "x mod 4096 = 0"
  shows "x + 4096 \<le> (x div 4194304 + 1) * (4194304 :: nat)" and "(x div 4194304 + 1) * 4194304 mod 4096 = (0 :: nat)"
proof -
  obtain q where q: "x = 4096 * q" using assms by (auto elim: dvdE)
  have "q < (q div 1024 + 1) * 1024" by (metis add.commute dividend_less_div_times mult.commute mult_Suc_right Suc_eq_plus1 zero_less_numeral)
  moreover have "x div 4194304 = q div 1024" using div_mult2_eq [of x 4096 1024] by (simp add: q)
  ultimately show "x + 4096 \<le> (x div 4194304 + 1) * 4194304" by (simp add: q)
  have "(x div 4194304 + 1) * 4194304 = 4096 * (1024 * (x div 4194304 + 1))" by simp
  then show "(x div 4194304 + 1) * 4194304 mod 4096 = 0" by (metis mod_mult_self1_is_0)
qed

text \<open>\<open>n\<close> rounds suffice when they cover the pages between \<open>a\<close> and \<open>oldsz\<close>, and more change nothing.\<close>

lemma dealloc_loop_ends:
  assumes "unat a mod 4096 = 0" and "unat oldsz \<le> unat a + 4096 * n" and "oldsz \<le> KERNBASE" and "KmemLock \<notin> held s"
  shows "((\<exists>t. dealloc_loop kend pgdir oldsz n a s = Ret () t) \<or> dealloc_loop kend pgdir oldsz n a s = Panic ''kfree'') \<and>
    dealloc_loop kend pgdir oldsz (n + k) a s = dealloc_loop kend pgdir oldsz n a s"
  using assms(1,2,4)
proof (induction n arbitrary: a s)
  case 0
  then show ?case by (cases k) (simp_all add: word_less_nat_alt)
next
  case (Suc n)
  show ?case
  proof (cases "a < oldsz")
    case True
    then have lt: "unat a < 0x80000000" using assms(3) by (simp add: word_less_nat_alt word_le_nat_alt)
    then have "unat (a + PGSIZE) = unat a + 4096" by (simp add: unat_word_ariths)
    then have st: "unat oldsz \<le> unat (PGADDR (of_nat (PDX a) + 1) 0 0) + 4096 * n"
        "unat (PGADDR (of_nat (PDX a) + 1) 0 0) mod 4096 = 0"
        "unat oldsz \<le> unat (a + PGSIZE) + 4096 * n" "unat (a + PGSIZE) mod 4096 = 0"
      using Suc.prems page_before_table [of "unat a"] next_pde [OF lt] by simp_all
    note IH = Suc.IH [OF st(2,1)] Suc.IH [OF st(4,3)]
    let ?pg = "P2V (PTE_ADDR (pages s pgdir (PDX a)))"
    have w: "walkpgdir pgdir a False s = Ret (if pages s pgdir (PDX a) AND PTE_P \<noteq> 0 then Some (?pg, PTX a) else None) s"
      by (simp add: walkpgdir_def)
    consider "kfree kend (P2V (PTE_ADDR (pages s ?pg (PTX a)))) s = Panic ''kfree''"
      | t where "kfree kend (P2V (PTE_ADDR (pages s ?pg (PTX a)))) s = Ret () t" "KmemLock \<notin> held (set_word ?pg (PTX a) 0 t)"
      using kfree_outcome [OF Suc.prems(3)] by (auto simp: set_word_def)
    then show ?thesis
    proof cases
      case 1
      then show ?thesis using True IH(1,2) [OF Suc.prems(3)] by (auto simp: w Let_def)
    next
      case 2
      then show ?thesis using True IH(1,2) [OF Suc.prems(3)] IH(2) [OF 2(2)] by (auto simp: w Let_def)
    qed
  qed simp
qed

text \<open>C8: freeing user memory always ends. For sizes up to the start of the kernel, \<open>deallocuvm\<close>, which
  walks over the pages and skips the ranges of missing page tables, returns the new size or stops with
  the panic of \<open>kfree\<close>; the number of rounds given to its loop is enough, since any larger number has
  the same outcome.\<close>

theorem deallocuvm_ends:
  assumes "oldsz \<le> KERNBASE" and "KmemLock \<notin> held s"
  shows "((\<exists>t. deallocuvm kend pgdir oldsz newsz s = Ret (if newsz < oldsz then newsz else oldsz) t) \<or>
      deallocuvm kend pgdir oldsz newsz s = Panic ''kfree'') \<and>
    (newsz < oldsz \<longrightarrow> (\<forall>n \<ge> unat oldsz div 4096 + 1. dealloc_loop kend pgdir oldsz n (PGROUNDUP newsz) s =
      dealloc_loop kend pgdir oldsz (unat oldsz div 4096 + 1) (PGROUNDUP newsz) s))"
proof (cases "newsz < oldsz")
  case True
  let ?m = "unat oldsz div 4096 + 1"
  have up: "unat (PGROUNDUP newsz) = (unat newsz + 4095) div 4096 * 4096"
    using True assms(1) by (intro unat_PGROUNDUP) (simp add: word_less_nat_alt word_le_nat_alt)
  have "unat oldsz < 4096 + 4096 * (unat oldsz div 4096)"
    using div_mult_mod_eq [of "unat oldsz" 4096] mod_less_divisor [of 4096 "unat oldsz"] by linarith
  then have b: "unat oldsz \<le> unat (PGROUNDUP newsz) + 4096 * ?m" by simp
  have al: "unat (PGROUNDUP newsz) mod 4096 = 0" unfolding up by simp
  note e = dealloc_loop_ends [OF al b assms, of kend pgdir]
  have "dealloc_loop kend pgdir oldsz n (PGROUNDUP newsz) s = dealloc_loop kend pgdir oldsz ?m (PGROUNDUP newsz) s"
    if "?m \<le> n" for n using e [of "n - ?m"] that by simp
  with e [of 0] True show ?thesis by (auto simp: deallocuvm_def)
next
  case False
  then have "oldsz \<le> newsz" by simp
  then show ?thesis using False by (simp add: deallocuvm_def)
qed

theorem deallocuvm_ends_witness:
  "(\<exists>t. deallocuvm 0x80200000 0x80400000 KERNBASE 0 sched_start = Ret 0 t) \<or>
   deallocuvm 0x80200000 0x80400000 KERNBASE 0 sched_start = Panic ''kfree''"
  using deallocuvm_ends [of KERNBASE sched_start "0x80200000" "0x80400000" 0] by (simp add: sched_start_def)

end
