(* ===== verification/File.thy ===== *)
theory File
  imports Vm
begin

text \<open>
  Open files (\<open>file.c\<close>, \<open>file.h\<close>) and \<open>pipealloc\<close> of \<open>pipe.c\<close>. A file is its index in
  \<open>ftable.file\<close>. The bytes to be written are an argument and the bytes read are part of the
  result; the system calls copy them from and to user memory.
\<close>

section \<open>State\<close>

abbreviation NFILE :: nat where "NFILE \<equiv> 100"

datatype fdtype = FD_NONE | FD_PIPE | FD_INODE

record ofile =
  f_type :: fdtype
  f_ref :: int
  f_readable :: bool
  f_writable :: bool
  f_pipe :: u32
  f_ip :: nat
  f_off :: u32

record file_state = vm_state +
  files :: "nat \<Rightarrow> ofile"

definition upd_file :: "nat \<Rightarrow> (ofile \<Rightarrow> ofile) \<Rightarrow> 'a file_state_scheme \<Rightarrow> 'a file_state_scheme" where
  "upd_file i f s = s\<lparr>files := (files s)(i := f (files s i))\<rparr>"

section \<open>The file table\<close>

definition fileinit :: "'a file_state_scheme \<Rightarrow> 'a file_state_scheme" where
  "fileinit s = lk_init FtableLock s"

definition filealloc :: "'a file_state_scheme \<Rightarrow> ('a file_state_scheme, nat option) kres" where
  "filealloc s =
     kbind (lk_acquire FtableLock s) (\<lambda>_ s.
     case scan (\<lambda>i. f_ref (files s i) = 0) NFILE 0 of
       Some i \<Rightarrow> kbind (lk_release FtableLock (upd_file i (\<lambda>f. f\<lparr>f_ref := 1\<rparr>) s)) (\<lambda>_ s. Ret (Some i) s)
     | None \<Rightarrow> kbind (lk_release FtableLock s) (\<lambda>_ s. Ret None s))"

definition filedup :: "nat \<Rightarrow> 'a file_state_scheme \<Rightarrow> ('a file_state_scheme, nat) kres" where
  "filedup i s =
     kbind (lk_acquire FtableLock s) (\<lambda>_ s.
     if f_ref (files s i) < 1 then Panic ''filedup''
     else kbind (lk_release FtableLock (upd_file i (\<lambda>f. f\<lparr>f_ref := f_ref f + 1\<rparr>) s)) (\<lambda>_ s. Ret i s))"

definition fileclose :: "ksyms \<Rightarrow> nat \<Rightarrow> 'a file_state_scheme \<Rightarrow> ('a file_state_scheme, unit) kres" where
  "fileclose K i s =
     kbind (lk_acquire FtableLock s) (\<lambda>_ s.
     if f_ref (files s i) < 1 then Panic ''fileclose''
     else
       let s = upd_file i (\<lambda>f. f\<lparr>f_ref := f_ref f - 1\<rparr>) s in
       if f_ref (files s i) > 0 then lk_release FtableLock s
       else
         let ff = files s i;
             s = upd_file i (\<lambda>f. f\<lparr>f_ref := 0, f_type := FD_NONE\<rparr>) s
         in kbind (lk_release FtableLock s) (\<lambda>_ s.
            case f_type ff of
              FD_PIPE \<Rightarrow> pipeclose (k_end K) (f_pipe ff) (f_writable ff) s
            | FD_INODE \<Rightarrow>
                kbind (begin_op s) (\<lambda>_ s.
                kbind (iput (f_ip ff) s) (\<lambda>_ s. end_op s))
            | FD_NONE \<Rightarrow> Ret () s))"

definition filestat :: "nat \<Rightarrow> 'a file_state_scheme \<Rightarrow> ('a file_state_scheme, stat option) kres" where
  "filestat i s =
     (if f_type (files s i) = FD_INODE then
        kbind (ilock (f_ip (files s i)) s) (\<lambda>_ s.
        let st = stati (f_ip (files s i)) s
        in kbind (iunlock (f_ip (files s i)) s) (\<lambda>_ s. Ret (Some st) s))
      else Ret None s)"

section \<open>Reading and writing\<close>

definition fileread :: "nat \<Rightarrow> int \<Rightarrow> 'a file_state_scheme \<Rightarrow> ('a file_state_scheme, int \<times> u8 list) kres" where
  "fileread i n s =
     (let f = files s i in
      if \<not> f_readable f then Ret (- 1, []) s
      else case f_type f of
        FD_PIPE \<Rightarrow> piperead (f_pipe f) n s
      | FD_INODE \<Rightarrow>
          kbind (ilock (f_ip f) s) (\<lambda>_ s.
          kbind (readi (f_ip f) (f_off (files s i)) (of_int n) s) (\<lambda>rd s.
          let s = (if fst rd > 0 then upd_file i (\<lambda>f. f\<lparr>f_off := f_off f + of_int (fst rd)\<rparr>) s else s)
          in kbind (iunlock (f_ip f) s) (\<lambda>_ s. Ret rd s)))
      | FD_NONE \<Rightarrow> Panic ''fileread'')"

text \<open>\<open>max\<close> of \<open>filewrite\<close> is \<open>((MAXOPBLOCKS-1-1-2) / 2) * 512\<close>.\<close>

abbreviation max_write :: nat where "max_write \<equiv> 1536"

text \<open>The loop of \<open>filewrite\<close>: \<open>src\<close> is what is left to write; the result says whether all of it
  was written.\<close>

function filewrite_loop :: "nat \<Rightarrow> u8 list \<Rightarrow> 'a file_state_scheme \<Rightarrow> ('a file_state_scheme, bool) kres" where
  "filewrite_loop i src s =
     (if src = [] then Ret True s
      else
        let n1 = (if length src > max_write then max_write else length src);
            ip = f_ip (files s i)
        in kbind (begin_op s) (\<lambda>_ s.
           kbind (ilock ip s) (\<lambda>_ s.
           kbind (writei ip (take n1 src) (f_off (files s i)) s) (\<lambda>r s.
           let s = (if r > 0 then upd_file i (\<lambda>f. f\<lparr>f_off := f_off f + of_int r\<rparr>) s else s)
           in kbind (iunlock ip s) (\<lambda>_ s.
              kbind (end_op s) (\<lambda>_ s.
              if r < 0 then Ret False s
              else if r \<noteq> int n1 then Panic ''short filewrite''
              else filewrite_loop i (drop n1 src) s))))))"
  by pat_completeness auto

termination
  by (relation "measure (\<lambda>(i, src, s). length src)") auto

declare filewrite_loop.simps [simp del]

definition filewrite :: "nat \<Rightarrow> u8 list \<Rightarrow> 'a file_state_scheme \<Rightarrow> ('a file_state_scheme, int) kres" where
  "filewrite i src s =
     (let f = files s i in
      if \<not> f_writable f then Ret (- 1) s
      else case f_type f of
        FD_PIPE \<Rightarrow> pipewrite (f_pipe f) (\<lambda>k. src ! k) (int (length src)) s
      | FD_INODE \<Rightarrow> kbind (filewrite_loop i src s) (\<lambda>ok s. Ret (if ok then int (length src) else - 1) s)
      | FD_NONE \<Rightarrow> Panic ''filewrite'')"

section \<open>Pipes\<close>

definition cleanuppipealloc :: "ksyms \<Rightarrow> u32 \<Rightarrow> nat option \<Rightarrow> nat option \<Rightarrow> 'a file_state_scheme \<Rightarrow>
    ('a file_state_scheme, unit) kres" where
  "cleanuppipealloc K p f0 f1 s =
     kbind (if p \<noteq> 0 then kfree (k_end K) p s else Ret () s) (\<lambda>_ s.
     kbind (case f0 of Some f \<Rightarrow> fileclose K f s | None \<Rightarrow> Ret () s) (\<lambda>_ s.
     case f1 of Some f \<Rightarrow> fileclose K f s | None \<Rightarrow> Ret () s))"

definition pipe_file :: "u32 \<Rightarrow> bool \<Rightarrow> ofile \<Rightarrow> ofile" where
  "pipe_file p writable f = f\<lparr>f_type := FD_PIPE, f_readable := \<not> writable, f_writable := writable, f_pipe := p\<rparr>"

definition pipealloc :: "ksyms \<Rightarrow> 'a file_state_scheme \<Rightarrow> ('a file_state_scheme, (nat \<times> nat) option) kres" where
  "pipealloc K s =
     kbind (filealloc s) (\<lambda>f0 s.
     case f0 of
       None \<Rightarrow> kbind (cleanuppipealloc K 0 None None s) (\<lambda>_ s. Ret None s)
     | Some i0 \<Rightarrow>
         kbind (filealloc s) (\<lambda>f1 s.
         case f1 of
           None \<Rightarrow> kbind (cleanuppipealloc K 0 f0 None s) (\<lambda>_ s. Ret None s)
         | Some i1 \<Rightarrow>
             kbind (kalloc s) (\<lambda>p s.
             if p = 0 then kbind (cleanuppipealloc K p f0 f1 s) (\<lambda>_ s. Ret None s)
             else
               let s = upd_pipe p (\<lambda>q. q\<lparr>readopen := True, writeopen := True, nwrite := 0, nread := 0\<rparr>) s;
                   s = lk_init (PipeLock p) s;
                   s = upd_file i0 (pipe_file p False) s;
                   s = upd_file i1 (pipe_file p True) s
               in Ret (Some (i0, i1)) s)))"

end
