(* ===== verification/Proc.thy ===== *)
theory Proc
  imports File
begin

text \<open>
  Processes (rest of \<open>proc.c\<close>): \<open>userinit\<close>, \<open>growproc\<close>, \<open>fork\<close>, \<open>exit\<close>, \<open>wait\<close> and \<open>forkret\<close>, on top
  of the process table of the theory \<open>Sched\<close>. \<open>exit\<close> ends in the scheduler and does not come
  back: its outcome is the state in which the CPU has no process. A \<open>wait\<close> that sleeps continues
  with \<open>wait_resume\<close>.
\<close>

section \<open>The first process\<close>

abbreviation DPL_USER :: u16 where "DPL_USER \<equiv> 3"
abbreviation SEG_UCODE :: u16 where "SEG_UCODE \<equiv> 3"
abbreviation SEG_UDATA :: u16 where "SEG_UDATA \<equiv> 4"
abbreviation FL_INT :: u32 where "FL_INT \<equiv> 0x200"

record proc_state = file_state +
  forkret_first :: bool

definition set_tf :: "nat \<Rightarrow> (trapframe \<Rightarrow> trapframe) \<Rightarrow> 'a sched_state_scheme \<Rightarrow> 'a sched_state_scheme" where
  "set_tf p f s = upd_proc p (\<lambda>q. q\<lparr>p_tf := f (p_tf q)\<rparr>) s"

definition init_tf :: trapframe where
  "init_tf = tf_zero\<lparr>tf_cs := push_bit 3 SEG_UCODE OR DPL_USER, tf_ds := push_bit 3 SEG_UDATA OR DPL_USER,
     tf_es := push_bit 3 SEG_UDATA OR DPL_USER, tf_ss := push_bit 3 SEG_UDATA OR DPL_USER,
     tf_eflags := FL_INT, tf_esp := PGSIZE, tf_eip := 0\<rparr>"

definition userinit :: "ksyms \<Rightarrow> 'a vm_state_scheme \<Rightarrow> ('a vm_state_scheme, unit) kres" where
  "userinit K s =
     kbind (allocproc (k_forkret K) (k_trapret K) s) (\<lambda>p s.
     let s = s\<lparr>initproc := p\<rparr> in
     case p of
       None \<Rightarrow> null_deref
     | Some p \<Rightarrow>
         kbind (setupkvm K s) (\<lambda>pgdir s.
         let s = upd_proc p (\<lambda>q. q\<lparr>p_pgdir := pgdir\<rparr>) s in
         if pgdir = 0 then Panic ''userinit: out of memory?''
         else
           kbind (inituvm pgdir (k_initcode K) s) (\<lambda>_ s.
           let s = upd_proc p (\<lambda>q. q\<lparr>p_sz := PGSIZE, p_tf := init_tf, p_name := ''initcode''\<rparr>) s
           in kbind (namei [slash] s) (\<lambda>ip s.
              let s = upd_proc p (\<lambda>q. q\<lparr>p_cwd := ip\<rparr>) s
              in kbind (lk_acquire PtableLock s) (\<lambda>_ s.
                 lk_release PtableLock (upd_proc p (\<lambda>q. q\<lparr>p_state := RUNNABLE\<rparr>) s))))))"

text \<open>A round of the scheduler with the switch to the address space of the chosen process.\<close>

definition scheduler_round :: "nat \<Rightarrow> 'a vm_state_scheme \<Rightarrow> ('a vm_state_scheme, nat option) kres" where
  "scheduler_round i s =
     kbind (scheduler i s) (\<lambda>p s.
     case p of None \<Rightarrow> Ret None s
     | Some q \<Rightarrow> kbind (switchuvm q s) (\<lambda>_ s. Ret p s))"

definition forkret :: "'a proc_state_scheme \<Rightarrow> ('a proc_state_scheme, unit) kres" where
  "forkret s =
     kbind (lk_release PtableLock s) (\<lambda>_ s.
     if forkret_first s then
       kbind (iinit ROOTDEV (s\<lparr>forkret_first := False\<rparr>)) (\<lambda>_ s. initlog ROOTDEV s)
     else Ret () s)"

section \<open>Memory of a process\<close>

definition growproc :: "u32 \<Rightarrow> int \<Rightarrow> 'a vm_state_scheme \<Rightarrow> ('a vm_state_scheme, int) kres" where
  "growproc kend n s =
     with_proc s (\<lambda>p.
       let sz = p_sz (procs s p); pgdir = p_pgdir (procs s p) in
       kbind (if n > 0 then allocuvm kend pgdir sz (sz + of_int n) s
              else if n < 0 then deallocuvm kend pgdir sz (sz + of_int n) s
              else Ret sz s) (\<lambda>sz s.
       if n \<noteq> 0 \<and> sz = 0 then Ret (- 1) s
       else kbind (switchuvm p (upd_proc p (\<lambda>q. q\<lparr>p_sz := sz\<rparr>) s)) (\<lambda>_ s. Ret 0 s)))"

section \<open>fork\<close>

text \<open>The loop over the descriptors, from \<open>fd\<close> on with \<open>m\<close> left.\<close>

fun fork_files :: "nat \<Rightarrow> nat \<Rightarrow> nat \<Rightarrow> nat \<Rightarrow> 'a file_state_scheme \<Rightarrow> ('a file_state_scheme, unit) kres" where
  "fork_files np c 0 fd s = Ret () s"
| "fork_files np c (Suc m) fd s =
     (case p_ofile (procs s c) fd of
        None \<Rightarrow> fork_files np c m (Suc fd) s
      | Some f \<Rightarrow>
          kbind (filedup f s) (\<lambda>f s.
          fork_files np c m (Suc fd) (upd_proc np (\<lambda>q. q\<lparr>p_ofile := (p_ofile q)(fd := Some f)\<rparr>) s)))"

definition fork :: "ksyms \<Rightarrow> 'a file_state_scheme \<Rightarrow> ('a file_state_scheme, int) kres" where
  "fork K s =
     with_proc s (\<lambda>c.
       kbind (allocproc (k_forkret K) (k_trapret K) s) (\<lambda>np s.
       case np of
         None \<Rightarrow> Ret (- 1) s
       | Some np \<Rightarrow>
           kbind (copyuvm K (p_pgdir (procs s c)) (p_sz (procs s c)) s) (\<lambda>pgdir s.
           let s = upd_proc np (\<lambda>q. q\<lparr>p_pgdir := pgdir\<rparr>) s in
           if pgdir = 0 then
             kbind (kfree (k_end K) (p_kstack (procs s np)) s) (\<lambda>_ s.
             Ret (- 1) (upd_proc np (\<lambda>q. q\<lparr>p_kstack := 0, p_state := UNUSED\<rparr>) s))
           else
             let cp = procs s c;
                 s = upd_proc np (\<lambda>q. q\<lparr>p_sz := p_sz cp, p_parent := Some c, p_tf := (p_tf cp)\<lparr>tf_eax := 0\<rparr>\<rparr>) s
             in kbind (fork_files np c NOFILE 0 s) (\<lambda>_ s.
                case p_cwd (procs s c) of
                  None \<Rightarrow> null_deref
                | Some i \<Rightarrow>
                    kbind (idup i s) (\<lambda>i s.
                    let s = upd_proc np (\<lambda>q. q\<lparr>p_cwd := Some i, p_name := take 15 (p_name (procs s c))\<rparr>) s;
                        pid = p_pid (procs s np)
                    in kbind (lk_acquire PtableLock s) (\<lambda>_ s.
                       kbind (lk_release PtableLock (upd_proc np (\<lambda>q. q\<lparr>p_state := RUNNABLE\<rparr>) s)) (\<lambda>_ s.
                       Ret pid s)))))))"

section \<open>exit\<close>

fun exit_files :: "ksyms \<Rightarrow> nat \<Rightarrow> nat \<Rightarrow> nat \<Rightarrow> 'a file_state_scheme \<Rightarrow> ('a file_state_scheme, unit) kres" where
  "exit_files K c 0 fd s = Ret () s"
| "exit_files K c (Suc m) fd s =
     (case p_ofile (procs s c) fd of
        None \<Rightarrow> exit_files K c m (Suc fd) s
      | Some f \<Rightarrow>
          kbind (fileclose K f s) (\<lambda>_ s.
          exit_files K c m (Suc fd) (upd_proc c (\<lambda>q. q\<lparr>p_ofile := (p_ofile q)(fd := None)\<rparr>) s)))"

text \<open>Waking whoever sleeps on a process; nobody sleeps on the null pointer.\<close>

definition wake_proc :: "nat option \<Rightarrow> 'a sched_state_scheme \<Rightarrow> 'a sched_state_scheme" where
  "wake_proc p s = (case p of None \<Rightarrow> s | Some q \<Rightarrow> wakeup1 (ChProc q) s)"

definition reparent1 :: "nat \<Rightarrow> nat \<Rightarrow> 'a sched_state_scheme \<Rightarrow> 'a sched_state_scheme" where
  "reparent1 c i s =
     (if p_parent (procs s i) = Some c then
        let s = upd_proc i (\<lambda>q. q\<lparr>p_parent := initproc s\<rparr>) s
        in if p_state (procs s i) = ZOMBIE then wake_proc (initproc s) s else s
      else s)"

definition reparent :: "nat \<Rightarrow> nat \<Rightarrow> 'a sched_state_scheme \<Rightarrow> 'a sched_state_scheme" where
  "reparent c n s = fold (reparent1 c) [0..<n] s"

definition exit :: "ksyms \<Rightarrow> 'a file_state_scheme \<Rightarrow> ('a file_state_scheme, unit) kres" where
  "exit K s =
     with_proc s (\<lambda>c.
       if Some c = initproc s then Panic ''init exiting''
       else
         kbind (exit_files K c NOFILE 0 s) (\<lambda>_ s.
         kbind (begin_op s) (\<lambda>_ s.
         case p_cwd (procs s c) of
           None \<Rightarrow> null_deref
         | Some i \<Rightarrow>
             kbind (iput i s) (\<lambda>_ s.
             kbind (end_op s) (\<lambda>_ s.
             let s = upd_proc c (\<lambda>q. q\<lparr>p_cwd := None\<rparr>) s
             in kbind (lk_acquire PtableLock s) (\<lambda>_ s.
                let s = wake_proc (p_parent (procs s c)) s;
                    s = reparent c NPROC s;
                    s = upd_proc c (\<lambda>q. q\<lparr>p_state := ZOMBIE\<rparr>) s
                in sched s))))))"

section \<open>wait\<close>

definition reap :: "u32 \<Rightarrow> nat \<Rightarrow> 'a sched_state_scheme \<Rightarrow> ('a sched_state_scheme, int) kres" where
  "reap kend i s =
     (let pid = p_pid (procs s i) in
      kbind (kfree kend (p_kstack (procs s i)) s) (\<lambda>_ s.
      let s = upd_proc i (\<lambda>q. q\<lparr>p_kstack := 0\<rparr>) s
      in kbind (freevm kend (p_pgdir (procs s i)) s) (\<lambda>_ s.
         let s = upd_proc i (\<lambda>q. q\<lparr>p_pid := 0, p_parent := None, p_name := [], p_killed := False, p_state := UNUSED\<rparr>) s
         in kbind (lk_release PtableLock s) (\<lambda>_ s. Ret pid s))))"

definition wait_loop :: "u32 \<Rightarrow> 'a sched_state_scheme \<Rightarrow> ('a sched_state_scheme, int) kres" where
  "wait_loop kend s =
     with_proc s (\<lambda>c.
       case scan (\<lambda>i. p_parent (procs s i) = Some c \<and> p_state (procs s i) = ZOMBIE) NPROC 0 of
         Some i \<Rightarrow> reap kend i s
       | None \<Rightarrow>
           let havekids = (scan (\<lambda>i. p_parent (procs s i) = Some c) NPROC 0 \<noteq> None) in
           if \<not> havekids \<or> p_killed (procs s c) then kbind (lk_release PtableLock s) (\<lambda>_ s. Ret (- 1) s)
           else sleep (ChProc c) PtableLock s)"

definition wait :: "u32 \<Rightarrow> 'a sched_state_scheme \<Rightarrow> ('a sched_state_scheme, int) kres" where
  "wait kend s = kbind (lk_acquire PtableLock s) (\<lambda>_. wait_loop kend)"

definition wait_resume :: "u32 \<Rightarrow> 'a sched_state_scheme \<Rightarrow> ('a sched_state_scheme, int) kres" where
  "wait_resume kend s = kbind (sleep_return PtableLock s) (\<lambda>_. wait_loop kend)"

end
