(* ===== verification/Syscall.thy ===== *)
theory Syscall
  imports Proc
begin

text \<open>
  Fetching the arguments of a system call (\<open>syscall.c\<close>) from user memory. The kernel reads and
  writes user memory through the page directory in \<open>cr3\<close>, which is that of the current process;
  an access to an address that is not mapped traps, and \<open>trap\<close> panics because the fault is in the
  kernel. All pages below \<open>sz\<close> are writable for the kernel. An argument that is a pointer is an
  address, a string is its address with its bytes. The call itself is in the theory \<open>Trap\<close>.
\<close>

section \<open>User memory seen from the kernel\<close>

definition user_byte :: "'a vm_state_scheme \<Rightarrow> u32 \<Rightarrow> u8 option" where
  "user_byte s a = map_option (kbyte s) (translate s (P2V (cr3 s)) a)"

fun user_bytes :: "'a vm_state_scheme \<Rightarrow> u32 \<Rightarrow> nat \<Rightarrow> u8 list option" where
  "user_bytes s a 0 = Some []"
| "user_bytes s a (Suc n) =
     (case user_byte s a of
        None \<Rightarrow> None
      | Some b \<Rightarrow> map_option (\<lambda>bs. b # bs) (user_bytes s (a + 1) n))"

definition user_word :: "'a vm_state_scheme \<Rightarrow> u32 \<Rightarrow> u32 option" where
  "user_word s a = map_option (\<lambda>bs. ld32 (\<lambda>k. bs ! k) 0) (user_bytes s a 4)"

fun user_store :: "u32 \<Rightarrow> u8 list \<Rightarrow> 'a vm_state_scheme \<Rightarrow> ('a vm_state_scheme, unit) kres" where
  "user_store a [] s = Ret () s"
| "user_store a (b # bs) s =
     (case translate s (P2V (cr3 s)) a of
        None \<Rightarrow> null_deref
      | Some k \<Rightarrow> user_store (a + 1) bs (set_byte k b s))"

definition word_bytes :: "u32 \<Rightarrow> u8 list" where
  "word_bytes w = map (\<lambda>k. ucast (drop_bit (8 * k) w)) [0..<4]"

section \<open>Arguments\<close>

definition fetchint :: "u32 \<Rightarrow> 'a vm_state_scheme \<Rightarrow> ('a vm_state_scheme, u32 option) kres" where
  "fetchint addr s =
     with_proc s (\<lambda>p.
       if addr \<ge> p_sz (procs s p) \<or> addr + 4 > p_sz (procs s p) then Ret None s
       else case user_word s addr of None \<Rightarrow> null_deref | Some w \<Rightarrow> Ret (Some w) s)"

text \<open>The loop of \<open>fetchstr\<close> at \<open>a\<close>, with \<open>m\<close> bytes up to the end of the process.\<close>

fun fetchstr_loop :: "nat \<Rightarrow> u32 \<Rightarrow> u8 list \<Rightarrow> 'a vm_state_scheme \<Rightarrow> ('a vm_state_scheme, u8 list option) kres" where
  "fetchstr_loop 0 a acc s = Ret None s"
| "fetchstr_loop (Suc m) a acc s =
     (case user_byte s a of
        None \<Rightarrow> null_deref
      | Some c \<Rightarrow> if c = 0 then Ret (Some acc) s else fetchstr_loop m (a + 1) (acc @ [c]) s)"

definition fetchstr :: "u32 \<Rightarrow> 'a vm_state_scheme \<Rightarrow> ('a vm_state_scheme, (u32 \<times> u8 list) option) kres" where
  "fetchstr addr s =
     with_proc s (\<lambda>p.
       if addr \<ge> p_sz (procs s p) then Ret None s
       else
         kbind (fetchstr_loop (unat (p_sz (procs s p)) - unat addr) addr [] s) (\<lambda>r s.
         Ret (map_option (Pair addr) r) s))"

definition argint :: "nat \<Rightarrow> 'a vm_state_scheme \<Rightarrow> ('a vm_state_scheme, u32 option) kres" where
  "argint n s = with_proc s (\<lambda>p. fetchint (tf_esp (p_tf (procs s p)) + 4 + 4 * of_nat n) s)"

definition argptr :: "nat \<Rightarrow> int \<Rightarrow> 'a vm_state_scheme \<Rightarrow> ('a vm_state_scheme, u32 option) kres" where
  "argptr n sz s =
     with_proc s (\<lambda>p.
       kbind (argint n s) (\<lambda>i s.
       case i of
         None \<Rightarrow> Ret None s
       | Some i \<Rightarrow>
           if sz < 0 \<or> i \<ge> p_sz (procs s p) \<or> i + of_int sz > p_sz (procs s p) then Ret None s
           else Ret (Some i) s))"

definition argstr :: "nat \<Rightarrow> 'a vm_state_scheme \<Rightarrow> ('a vm_state_scheme, (u32 \<times> u8 list) option) kres" where
  "argstr n s =
     kbind (argint n s) (\<lambda>addr s. case addr of None \<Rightarrow> Ret None s | Some addr \<Rightarrow> fetchstr addr s)"

section \<open>What the arguments are\<close>

text \<open>The current process has at most the lower half of the address space and all of it is mapped.\<close>

definition user_mapped :: "'a vm_state_scheme \<Rightarrow> bool" where
  "user_mapped s \<longleftrightarrow>
     (\<exists>p. curproc s = Some p \<and> p_sz (procs s p) \<le> KERNBASE \<and>
        (\<forall>a < p_sz (procs s p). translate s (P2V (cr3 s)) a \<noteq> None))"

abbreviation proc_sz :: "'a sched_state_scheme \<Rightarrow> u32" where
  "proc_sz s \<equiv> p_sz (procs s (the (curproc s)))"

lemma user_mappedD:
  assumes "user_mapped s"
  obtains p where "curproc s = Some p" and "p_sz (procs s p) \<le> KERNBASE"
    and "\<And>a. a < p_sz (procs s p) \<Longrightarrow> user_byte s a \<noteq> None"
  using assms unfolding user_mapped_def user_byte_def by auto

lemma user_bytes_Some:
  assumes "\<And>k. k < n \<Longrightarrow> user_byte s (a + of_nat k) \<noteq> None"
  shows "user_bytes s a n = Some (map (\<lambda>k. the (user_byte s (a + of_nat k))) [0..<n])"
  using assms
proof (induction n arbitrary: a)
  case (Suc n)
  have "user_byte s (a + 1 + of_nat k) \<noteq> None" if "k < n" for k
    using Suc.prems [of "Suc k"] that by (simp add: add.assoc)
  moreover have "user_byte s a \<noteq> None" using Suc.prems [of 0] by simp
  ultimately show ?case
    by (auto simp: Suc.IH upt_conv_Cons add.assoc simp del: upt_Suc simp flip: map_Suc_upt)
qed simp

lemma below_offset:
  assumes "unat (a :: u32) + n \<le> unat z" and "k < n"
  shows "a + of_nat k < z"
proof -
  have "unat z < 4294967296" using unsigned_less [of z, where ?'a = nat] by simp
  then have "unat a + k < 4294967296" using assms by linarith
  then have "unat (a + of_nat k) = unat a + k" by (simp add: unat_word_ariths unat_of_nat)
  then show ?thesis using assms by (simp add: word_less_nat_alt)
qed

lemma unat_offset:
  assumes "unat (a :: u32) + k < 2 ^ 32"
  shows "unat (a + of_nat k) = unat a + k"
  using assms by (simp add: unat_word_ariths unat_of_nat)

text \<open>The end of a range that the check of a size accepts is computed without wrap-around.\<close>

lemma range_check:
  assumes "z \<le> KERNBASE" and "a < z" and "0 \<le> sz" and "sz < 2 ^ 31" and "\<not> a + of_int sz > z"
  shows "unat a + nat sz \<le> unat z"
proof -
  have "unat a < unat z" "unat z \<le> 0x80000000" using assms by (simp_all add: word_less_nat_alt word_le_nat_alt)
  then have "unat (a + of_nat (nat sz)) = unat a + nat sz" using assms by (intro unat_offset) simp
  with assms show ?thesis by (simp add: word_less_nat_alt of_nat_nat)
qed

lemma argint_Ret: "argint n s = Ret r t \<Longrightarrow> t = s"
  by (auto simp: argint_def fetchint_def with_proc_def split: option.splits if_splits)


lemma fetchstr_loop_eq:
  assumes "\<And>k. k < m \<Longrightarrow> user_byte s (a + of_nat k) \<noteq> None"
  shows "fetchstr_loop m a acc s =
    Ret (map_option (\<lambda>n. acc @ map (\<lambda>k. the (user_byte s (a + of_nat k))) [0..<n])
      (scan (\<lambda>k. user_byte s (a + of_nat k) = Some 0) m 0)) s"
proof -
  have "fetchstr_loop m (a + of_nat j) (acc @ map (\<lambda>k. the (user_byte s (a + of_nat k))) [0..<j]) s =
    Ret (map_option (\<lambda>n. acc @ map (\<lambda>k. the (user_byte s (a + of_nat k))) [0..<n])
      (scan (\<lambda>k. user_byte s (a + of_nat k) = Some 0) m j)) s"
    if "\<And>k. k < m \<Longrightarrow> user_byte s (a + of_nat (j + k)) \<noteq> None" for j
    using that
  proof (induction m arbitrary: j)
    case (Suc m)
    obtain c where c: "user_byte s (a + of_nat j) = Some c" using Suc.prems [of 0] by auto
    have "user_byte s (a + of_nat (Suc j + k)) \<noteq> None" if "k < m" for k
      using Suc.prems [of "Suc k"] that by simp
    from Suc.IH [OF this] c show ?case by (simp add: add.commute add.left_commute)
  qed simp
  from this [of 0] assms show ?thesis by simp
qed

text \<open>C22: on a mapped process \<open>fetchstr\<close> always returns. It gives a string exactly if there is a
  NUL between the address and the end of the process, and then it is the bytes up to the first
  one.\<close>

theorem fetchstr_string:
  assumes "user_mapped s" and "addr < proc_sz s"
  defines "byte \<equiv> \<lambda>k. the (user_byte s (addr + of_nat k))"
    and "m \<equiv> unat (proc_sz s) - unat addr"
  shows "\<exists>r. fetchstr addr s = Ret r s \<and>
    (r = None \<longleftrightarrow> (\<forall>k<m. byte k \<noteq> 0)) \<and>
    (\<forall>b str. r = Some (b, str) \<longrightarrow> b = addr \<and> length str < m \<and> str = map byte [0..<length str] \<and>
       0 \<notin> set str \<and> byte (length str) = 0)"
proof -
  from assms(1) obtain p where p: "curproc s = Some p"
    and mp: "\<And>a. a < p_sz (procs s p) \<Longrightarrow> user_byte s a \<noteq> None" by (rule user_mappedD) blast
  have le: "unat addr + m \<le> unat (p_sz (procs s p))" using assms(2) p by (simp add: m_def word_less_nat_alt)
  have some: "user_byte s (addr + of_nat k) \<noteq> None" if "k < m" for k
    using that by (intro mp below_offset [OF le])
  have z: "user_byte s (addr + of_nat k) = Some 0 \<longleftrightarrow> byte k = 0" if "k < m" for k
    using some [OF that] by (auto simp: byte_def)
  let ?sc = "scan (\<lambda>k. user_byte s (addr + of_nat k) = Some 0) m 0"
  have sc: "?sc = scan (\<lambda>k. byte k = 0) m 0" by (rule scan_cong) (simp add: z)
  have eq: "fetchstr addr s = Ret (map_option (\<lambda>n. (addr, map byte [0..<n])) ?sc) s"
    using assms(2) p fetchstr_loop_eq [of m s addr "[]", OF some]
    by (simp add: fetchstr_def m_def byte_def option.map_comp comp_def)
  show ?thesis
  proof (cases ?sc)
    case None
    with eq z show ?thesis by (auto simp: scan_None_iff)
  next
    case (Some n)
    then have "scan (\<lambda>k. byte k = 0) m 0 = Some n" unfolding sc .
    from scan_SomeD [OF this] have "n < m \<and> byte n = 0 \<and> (\<forall>k<n. byte k \<noteq> 0)" by simp
    with Some eq show ?thesis by auto
  qed
qed

section \<open>A process for the witnesses\<close>

text \<open>Process 0 has 16 bytes: the string \<open>hi\<close> at address 0 and the first argument, a null pointer, at
  address 4. Its page directory is the frame at 4 MB, followed by its page table and its page.\<close>

definition demo_pages :: "u32 \<Rightarrow> page" where
  "demo_pages = (\<lambda>_ _. 0)(0x80400000 := (\<lambda>_. 0)(0 := 0x401007), 0x80401000 := (\<lambda>_. 0)(0 := 0x402007),
     0x80402000 := (\<lambda>_. 0)(0 := 0x6968))"

definition demo_user :: vm_state where
  "demo_user = fs_state.extend (log_state.extend (bio_state.extend (cons_state.extend
       (cons_start\<lparr>pages := demo_pages, procs := (\<lambda>_. proc_zero\<lparr>p_state := UNUSED\<rparr>)(0 := proc_zero\<lparr>p_state := RUNNING, p_pid := 1, p_sz := 16\<rparr>)\<rparr>)
       (bio_state.fields (\<lambda>_. \<lparr>b_flags = 0, b_dev = 0, b_blockno = 0, b_refcnt = 0, b_prev = 0, b_next = 0, b_qnext = None,
          b_data = \<lambda>_. 0\<rparr>) 0 (\<lambda>_ _. 0) []))
       (log_state.fields 0 0 0 False 0 0 (\<lambda>_. 0)))
       (fs_state.fields \<lparr>sb_size = 0, sb_nblocks = 0, sb_ninodes = 0, sb_nlog = 0, sb_logstart = 0, sb_inodestart = 0,
          sb_bmapstart = 0\<rparr> (\<lambda>_. \<lparr>i_dev = 0, i_inum = 0, i_ref = 0, i_valid = False, i_type = 0, i_major = 0, i_minor = 0,
          i_nlink = 0, i_size = 0, i_addrs = \<lambda>_. 0\<rparr>) (\<lambda>_. False) (\<lambda>_. False)))
     (vm_state.fields 0 0x400000 0)"

lemma demo_user_simps [simp]:
  "curproc demo_user = Some 0" "pages demo_user = demo_pages" "cr3 demo_user = 0x400000"
  "p_sz (procs demo_user 0) = 16" "tf_esp (p_tf (procs demo_user 0)) = 0"
  by (simp_all add: demo_user_def cons_start_def pipe_start_def sched_start_def vm_state.defs fs_state.defs log_state.defs
    bio_state.defs cons_state.defs hw_state.defs pipe_state.defs sched_state.defs proc_zero_def tf_zero_def)

lemma demo_translate:
  assumes "a < 4096"
  shows "translate demo_user (P2V (cr3 demo_user)) a = Some (0x80402000 + (a AND 0xFFF))"
proof -
  have "unat a < 4096" using assms by (simp add: word_less_nat_alt)
  then have "drop_bit 22 a = 0" "drop_bit 12 a = 0" by (simp_all add: word_eq_iff_unsigned [where ?'a = nat] drop_bit_eq_div unat_div)
  then show ?thesis by (simp add: translate_def P2V_def PDX_def PTX_def demo_pages_def PTE_ADDR_def)
qed

lemma demo_user_mapped: "user_mapped demo_user"
proof -
  have "a < 16 \<Longrightarrow> a < 4096" for a :: u32 by (rule less_trans [of a 16]) simp_all
  then show ?thesis unfolding user_mapped_def using demo_translate by (intro exI [of _ 0]) auto
qed

lemma demo_byte: "a < 4096 \<Longrightarrow> user_byte demo_user a = Some (kbyte demo_user (0x80402000 + (a AND 0xFFF)))"
  by (simp only: user_byte_def demo_translate option.map)


theorem fetchstr_string_witness:
  "\<exists>r. fetchstr 0 demo_user = Ret (Some (0, r)) demo_user \<and> 0 \<notin> set r \<and> length r < 16"
proof -
  have z: "the (user_byte demo_user (0 + of_nat 2)) = 0"
    by (simp add: demo_byte kbyte_def kword_def demo_pages_def)
  have sz: "unat (proc_sz demo_user) - unat (0 :: u32) = 16" "(0 :: u32) < proc_sz demo_user" by simp_all
  from fetchstr_string [OF demo_user_mapped sz(2)] obtain r where r: "fetchstr 0 demo_user = Ret r demo_user"
    "r = None \<longleftrightarrow> (\<forall>k<16. the (user_byte demo_user (0 + of_nat k)) \<noteq> 0)"
    "\<And>b str. r = Some (b, str) \<Longrightarrow> b = 0 \<and> length str < 16 \<and> 0 \<notin> set str"
    unfolding sz(1) by blast
  have "(2 :: nat) < 16" by simp
  with r(2) z have "r \<noteq> None" by blast
  then obtain b str where "r = Some (b, str)" by auto
  with r(1) r(3) [of b str] show ?thesis by auto
qed

end
