(* ===== verification/Sysproc.thy ===== *)
theory Sysproc
  imports Syscall Video
begin

text \<open>
  The system calls on processes (\<open>sysproc.c\<close>) and on the screen (\<open>sysvideo.c\<close>). A system call
  gives an \<open>int\<close>, which \<open>syscall\<close> stores in \<open>eax\<close>. \<open>sys_getch\<close> polls the keyboard and need not
  end. \<open>sys_sleep\<close> continues with \<open>sys_sleep_resume\<close> when it is woken. \<open>sys_setspecificpixel\<close>
  does not look at what \<open>argint\<close> returns; \<open>junk\<close> is what its uninitialised variables hold.
\<close>

section \<open>Processes\<close>

definition sys_fork :: "ksyms \<Rightarrow> 'a file_state_scheme \<Rightarrow> ('a file_state_scheme, int) kres" where
  "sys_fork K s = fork K s"

text \<open>The process does not come back from \<open>exit\<close>: the result is not used.\<close>

definition sys_exit :: "ksyms \<Rightarrow> 'a file_state_scheme \<Rightarrow> ('a file_state_scheme, int) kres" where
  "sys_exit K s = kbind (exit K s) (\<lambda>_ s. Ret 0 s)"

definition sys_wait :: "ksyms \<Rightarrow> 'a sched_state_scheme \<Rightarrow> ('a sched_state_scheme, int) kres" where
  "sys_wait K s = wait (k_end K) s"

definition sys_kill :: "'a vm_state_scheme \<Rightarrow> ('a vm_state_scheme, int) kres" where
  "sys_kill s =
     kbind (argint 0 s) (\<lambda>pid s.
     case pid of None \<Rightarrow> Ret (- 1) s | Some pid \<Rightarrow> kill (sint pid) s)"

definition sys_getpid :: "'a sched_state_scheme \<Rightarrow> ('a sched_state_scheme, int) kres" where
  "sys_getpid s = with_proc s (\<lambda>p. Ret (p_pid (procs s p)) s)"

definition sys_sbrk :: "ksyms \<Rightarrow> 'a vm_state_scheme \<Rightarrow> ('a vm_state_scheme, int) kres" where
  "sys_sbrk K s =
     kbind (argint 0 s) (\<lambda>n s.
     case n of
       None \<Rightarrow> Ret (- 1) s
     | Some n \<Rightarrow>
         with_proc s (\<lambda>p.
           let addr = sint (p_sz (procs s p)) in
           kbind (growproc (k_end K) (sint n) s) (\<lambda>r s.
           if r < 0 then Ret (- 1) s else Ret addr s)))"

text \<open>The comparison with \<open>n\<close> is one of unsigned numbers.\<close>

definition sys_sleep_loop :: "u32 \<Rightarrow> u32 \<Rightarrow> 'a sched_state_scheme \<Rightarrow> ('a sched_state_scheme, int) kres" where
  "sys_sleep_loop n ticks0 s =
     (if ticks s - ticks0 < n then
        with_proc s (\<lambda>p.
          if p_killed (procs s p) then kbind (lk_release TicksLock s) (\<lambda>_ s. Ret (- 1) s)
          else sleep ChTicks TicksLock s)
      else kbind (lk_release TicksLock s) (\<lambda>_ s. Ret 0 s))"

definition sys_sleep :: "'a vm_state_scheme \<Rightarrow> ('a vm_state_scheme, int) kres" where
  "sys_sleep s =
     kbind (argint 0 s) (\<lambda>n s.
     case n of
       None \<Rightarrow> Ret (- 1) s
     | Some n \<Rightarrow> kbind (lk_acquire TicksLock s) (\<lambda>_ s. sys_sleep_loop n (ticks s) s))"

definition sys_sleep_resume :: "u32 \<Rightarrow> u32 \<Rightarrow> 'a sched_state_scheme \<Rightarrow> ('a sched_state_scheme, int) kres" where
  "sys_sleep_resume n ticks0 s = kbind (sleep_return TicksLock s) (\<lambda>_. sys_sleep_loop n ticks0)"

definition sys_uptime :: "'a sched_state_scheme \<Rightarrow> ('a sched_state_scheme, int) kres" where
  "sys_uptime s =
     kbind (lk_acquire TicksLock s) (\<lambda>_ s.
     let xticks = ticks s in
     kbind (lk_release TicksLock s) (\<lambda>_ s. Ret (sint xticks) s))"

section \<open>The screen\<close>

definition sys_getch :: "'a cons_state_scheme \<Rightarrow> ('a cons_state_scheme, int) kres option" where
  "sys_getch s = consoleget s"

definition say :: "string \<Rightarrow> 'a cons_state_scheme \<Rightarrow> ('a cons_state_scheme, int) kres" where
  "say msg s = kbind (cprintf (Some (cstr msg @ [10])) (\<lambda>_. 0) (\<lambda>_. None) s) (\<lambda>_ s. Ret 0 s)"

definition sys_greeting :: "'a cons_state_scheme \<Rightarrow> ('a cons_state_scheme, int) kres" where
  "sys_greeting s = say ''Hello, user'' s"

definition sys_videomodevga13 :: "'a cons_state_scheme \<Rightarrow> ('a cons_state_scheme, int) kres" where
  "sys_videomodevga13 s = say ''VGA Mode Set to 0x13'' (snd (consolevgamode 0x13 s))"

definition sys_videomodevga12 :: "'a cons_state_scheme \<Rightarrow> ('a cons_state_scheme, int) kres" where
  "sys_videomodevga12 s = say ''VGA Mode set to 0x12'' (snd (consolevgamode 0x12 s))"

definition sys_videomodetext :: "'a cons_state_scheme \<Rightarrow> ('a cons_state_scheme, int) kres" where
  "sys_videomodetext s =
     kbind (say ''VGA Mode Set to 0x03'' s) (\<lambda>_ s. Ret 0 (snd (consolevgamode 0x03 s)))"

definition sys_setspecificpixel :: "(nat \<Rightarrow> u32) \<Rightarrow> 'a vm_state_scheme \<Rightarrow> ('a vm_state_scheme, int) kres" where
  "sys_setspecificpixel junk s =
     kbind (argint 2 s) (\<lambda>VGA_colour s.
     kbind (argint 1 s) (\<lambda>y s.
     kbind (argint 0 s) (\<lambda>x s.
     let val = \<lambda>k v. (case v of None \<Rightarrow> junk k | Some w \<Rightarrow> w)
     in Ret 0 (snd (setpixel (val 0 x) (val 1 y) (val 2 VGA_colour) s)))))"

definition sys_clearscreen13h :: "'a hw_state_scheme \<Rightarrow> ('a hw_state_scheme, int) kres" where
  "sys_clearscreen13h s = Ret 0 (zeroFillScreen13h s)"

definition sys_clearscreen12h :: "'a hw_state_scheme \<Rightarrow> ('a hw_state_scheme, int) kres" where
  "sys_clearscreen12h s = Ret 0 (zeroFillScreen12h s)"

end
