(* ===== verification/Exec.thy ===== *)
theory Exec
  imports Syscall
begin

text \<open>
  \<open>exec\<close> (\<open>exec.c\<close>, \<open>elf.h\<close>). The arguments are the strings that \<open>sys_exec\<close> fetched; they stay as they
  are while \<open>exec\<close> runs, since it writes only into the new address space. A header is read from the
  file as a list of bytes and decoded at the offsets of its fields.
\<close>

section \<open>ELF headers\<close>

abbreviation ELF_MAGIC :: u32 where "ELF_MAGIC \<equiv> 0x464C457F"
abbreviation ELF_PROG_LOAD :: u32 where "ELF_PROG_LOAD \<equiv> 1"
abbreviation MAXARG :: nat where "MAXARG \<equiv> 32"

record elfhdr =
  e_magic :: u32
  e_entry :: u32
  e_phoff :: u32
  e_phnum :: u16

record proghdr =
  ph_type :: u32
  ph_off :: u32
  ph_vaddr :: u32
  ph_filesz :: u32
  ph_memsz :: u32

text \<open>The fields that \<open>exec\<close> uses; the headers take 52 and 32 bytes.\<close>

definition elf_decode :: "u8 list \<Rightarrow> elfhdr" where
  "elf_decode bs = (let d = (\<lambda>k. bs ! k) in
     \<lparr>e_magic = ld32 d 0, e_entry = ld32 d 24, e_phoff = ld32 d 28, e_phnum = ld16 d 44\<rparr>)"

definition ph_decode :: "u8 list \<Rightarrow> proghdr" where
  "ph_decode bs = (let d = (\<lambda>k. bs ! k) in
     \<lparr>ph_type = ld32 d 0, ph_off = ld32 d 4, ph_vaddr = ld32 d 8, ph_filesz = ld32 d 16, ph_memsz = ld32 d 20\<rparr>)"

section \<open>exec\<close>

definition cleanupexec :: "ksyms \<Rightarrow> u32 \<Rightarrow> nat option \<Rightarrow> 'a fs_state_scheme \<Rightarrow> ('a fs_state_scheme, unit) kres" where
  "cleanupexec K pgdir ip s =
     kbind (if pgdir \<noteq> 0 then freevm (k_end K) pgdir s else Ret () s) (\<lambda>_ s.
     case ip of
       None \<Rightarrow> Ret () s
     | Some i \<Rightarrow> kbind (iunlockput i s) (\<lambda>_ s. end_op s))"

definition exec_fail :: "ksyms \<Rightarrow> u32 \<Rightarrow> nat option \<Rightarrow> 'a fs_state_scheme \<Rightarrow> ('a fs_state_scheme, int) kres" where
  "exec_fail K pgdir ip s = kbind (cleanupexec K pgdir ip s) (\<lambda>_ s. Ret (- 1) s)"

text \<open>The loop over the program headers, with \<open>m\<close> left at offset \<open>off\<close>; \<open>None\<close> is a failure, after
  which \<open>exec\<close> cleans up.\<close>

fun exec_load :: "ksyms \<Rightarrow> u32 \<Rightarrow> nat \<Rightarrow> nat \<Rightarrow> u32 \<Rightarrow> u32 \<Rightarrow> 'a fs_state_scheme \<Rightarrow> ('a fs_state_scheme, u32 option) kres" where
  "exec_load K pgdir ip 0 off sz s = Ret (Some sz) s"
| "exec_load K pgdir ip (Suc m) off sz s =
     kbind (readi ip off 32 s) (\<lambda>rd s.
     let ph = ph_decode (snd rd) in
     if fst rd \<noteq> 32 then Ret None s
     else if ph_type ph \<noteq> ELF_PROG_LOAD then exec_load K pgdir ip m (off + 32) sz s
     else if ph_memsz ph < ph_filesz ph then Ret None s
     else if ph_vaddr ph + ph_memsz ph < ph_vaddr ph then Ret None s
     else
       kbind (allocuvm (k_end K) pgdir sz (ph_vaddr ph + ph_memsz ph) s) (\<lambda>sz s.
       if sz = 0 then Ret None s
       else if ph_vaddr ph mod PGSIZE \<noteq> 0 then Ret None s
       else
         kbind (loaduvm pgdir (ph_vaddr ph) ip (ph_off ph) (ph_filesz ph) s) (\<lambda>r s.
         if r < 0 then Ret None s else exec_load K pgdir ip m (off + 32) sz s)))"

text \<open>The loop that pushes the argument strings: the result is the stack pointer and the addresses
  of the strings.\<close>

fun exec_args :: "u32 \<Rightarrow> u8 list list \<Rightarrow> u32 \<Rightarrow> u32 list \<Rightarrow> 'a vm_state_scheme \<Rightarrow>
    ('a vm_state_scheme, (u32 \<times> u32 list) option) kres" where
  "exec_args pgdir [] sp ustack s = Ret (Some (sp, ustack)) s"
| "exec_args pgdir (arg # argv) sp ustack s =
     (if length ustack \<ge> MAXARG then Ret None s
      else
        let sp = (sp - (of_nat (length arg) + 1)) AND NOT 3 in
        kbind (copyout pgdir sp (arg @ [0]) s) (\<lambda>r s.
        if r < 0 then Ret None s else exec_args pgdir argv sp (ustack @ [sp]) s))"

text \<open>What the stack holds below the strings: a return address, \<open>argc\<close>, \<open>argv\<close> and the array it
  points to.\<close>

definition ustack_words :: "u32 \<Rightarrow> u32 list \<Rightarrow> u32 list" where
  "ustack_words sp ustack =
     [0xffffffff, of_nat (length ustack), sp - (of_nat (length ustack) + 1) * 4] @ ustack @ [0]"

fun path_last :: "u8 list \<Rightarrow> u8 list \<Rightarrow> u8 list" where
  "path_last lst [] = lst"
| "path_last lst (c # cs) = path_last (if c = slash then cs else lst) cs"

definition exec :: "ksyms \<Rightarrow> u8 list \<Rightarrow> u8 list list \<Rightarrow> 'a vm_state_scheme \<Rightarrow> ('a vm_state_scheme, int) kres" where
  "exec K path argv s =
     with_proc s (\<lambda>p.
     kbind (begin_op s) (\<lambda>_ s.
     kbind (namei path s) (\<lambda>ip s.
     case ip of
       None \<Rightarrow>
         kbind (end_op s) (\<lambda>_ s.
         kbind (cprintf (Some (cstr ''exec: fail'' @ [10])) (\<lambda>_. 0) (\<lambda>_. None) s) (\<lambda>_ s. Ret (- 1) s))
     | Some i \<Rightarrow>
         kbind (ilock i s) (\<lambda>_ s.
         kbind (readi i 0 52 s) (\<lambda>rd s.
         let elf = elf_decode (snd rd) in
         if fst rd \<noteq> 52 then exec_fail K 0 ip s
         else if e_magic elf \<noteq> ELF_MAGIC then exec_fail K 0 ip s
         else
           kbind (setupkvm K s) (\<lambda>pgdir s.
           if pgdir = 0 then exec_fail K 0 ip s
           else
             kbind (exec_load K pgdir i (unat (e_phnum elf)) (e_phoff elf) 0 s) (\<lambda>sz s.
             case sz of
               None \<Rightarrow> exec_fail K pgdir ip s
             | Some sz \<Rightarrow>
                 kbind (iunlockput i s) (\<lambda>_ s.
                 kbind (end_op s) (\<lambda>_ s.
                 let sz = PGROUNDUP sz in
                 kbind (allocuvm (k_end K) pgdir sz (sz + 2 * PGSIZE) s) (\<lambda>sz s.
                 if sz = 0 then exec_fail K pgdir None s
                 else
                   kbind (clearpteu pgdir (sz - 2 * PGSIZE) s) (\<lambda>_ s.
                   kbind (exec_args pgdir argv sz [] s) (\<lambda>r s.
                   case r of
                     None \<Rightarrow> exec_fail K pgdir None s
                   | Some (sp, ustack) \<Rightarrow>
                       let ws = ustack_words sp ustack;
                           sp = sp - (3 + of_nat (length ustack) + 1) * 4
                       in kbind (copyout pgdir sp (concat (map word_bytes ws)) s) (\<lambda>r s.
                          if r < 0 then exec_fail K pgdir None s
                          else
                            let oldpgdir = p_pgdir (procs s p);
                                nm = map (\<lambda>b. char_of (unat b)) (take 15 (path_last path path));
                                s = upd_proc p (\<lambda>q. q\<lparr>p_name := nm, p_pgdir := pgdir, p_sz := sz,
                                      p_tf := (p_tf q)\<lparr>tf_eip := e_entry elf, tf_esp := sp\<rparr>\<rparr>) s
                            in kbind (switchuvm p s) (\<lambda>_ s.
                               kbind (freevm (k_end K) oldpgdir s) (\<lambda>_ s. Ret 0 s)))))))))))))))"

end
