(* ===== verification/Sysfile.thy ===== *)
theory Sysfile
  imports Exec
begin

text \<open>
  The system calls on files (\<open>sysfile.c\<close>). The data of \<open>read\<close>, \<open>write\<close>, \<open>fstat\<close> and \<open>pipe\<close> goes to and
  comes from user memory here. A null pointer result is \<open>None\<close>.
\<close>

abbreviation O_RDONLY :: u32 where "O_RDONLY \<equiv> 0"
abbreviation O_WRONLY :: u32 where "O_WRONLY \<equiv> 1"
abbreviation O_RDWR :: u32 where "O_RDWR \<equiv> 2"
abbreviation O_CREATE :: u32 where "O_CREATE \<equiv> 0x200"

section \<open>Descriptors\<close>

definition argfd :: "nat \<Rightarrow> 'a vm_state_scheme \<Rightarrow> ('a vm_state_scheme, (nat \<times> nat) option) kres" where
  "argfd n s =
     kbind (argint n s) (\<lambda>fd s.
     case fd of
       None \<Rightarrow> Ret None s
     | Some fd \<Rightarrow>
         if sint fd < 0 \<or> sint fd \<ge> int NOFILE then Ret None s
         else with_proc s (\<lambda>p. Ret (map_option (Pair (unat fd)) (p_ofile (procs s p) (unat fd))) s))"

definition set_fd :: "nat \<Rightarrow> nat \<Rightarrow> nat option \<Rightarrow> 'a sched_state_scheme \<Rightarrow> 'a sched_state_scheme" where
  "set_fd p fd f s = upd_proc p (\<lambda>q. q\<lparr>p_ofile := (p_ofile q)(fd := f)\<rparr>) s"

definition fdalloc :: "nat \<Rightarrow> 'a sched_state_scheme \<Rightarrow> ('a sched_state_scheme, nat option) kres" where
  "fdalloc f s =
     with_proc s (\<lambda>p.
       case scan (\<lambda>fd. p_ofile (procs s p) fd = None) NOFILE 0 of
         None \<Rightarrow> Ret None s
       | Some fd \<Rightarrow> Ret (Some fd) (set_fd p fd (Some f) s))"

definition sys_dup :: "'a file_state_scheme \<Rightarrow> ('a file_state_scheme, int) kres" where
  "sys_dup s =
     kbind (argfd 0 s) (\<lambda>r s.
     case r of
       None \<Rightarrow> Ret (- 1) s
     | Some (_, f) \<Rightarrow>
         kbind (fdalloc f s) (\<lambda>fd s.
         case fd of
           None \<Rightarrow> Ret (- 1) s
         | Some fd \<Rightarrow> kbind (filedup f s) (\<lambda>_ s. Ret (int fd) s)))"

text \<open>The arguments that \<open>read\<close> and \<open>write\<close> check: file, address and number of bytes.\<close>

definition arg_rw :: "'a vm_state_scheme \<Rightarrow> ('a vm_state_scheme, (nat \<times> u32 \<times> int) option) kres" where
  "arg_rw s =
     kbind (argfd 0 s) (\<lambda>r s.
     case r of
       None \<Rightarrow> Ret None s
     | Some (_, f) \<Rightarrow>
         kbind (argint 2 s) (\<lambda>n s.
         case n of
           None \<Rightarrow> Ret None s
         | Some n \<Rightarrow>
             kbind (argptr 1 (sint n) s) (\<lambda>a s.
             Ret (map_option (\<lambda>a. (f, a, sint n)) a) s)))"

definition sys_read :: "'a file_state_scheme \<Rightarrow> ('a file_state_scheme, int) kres" where
  "sys_read s =
     kbind (arg_rw s) (\<lambda>r s.
     case r of
       None \<Rightarrow> Ret (- 1) s
     | Some (f, a, n) \<Rightarrow>
         kbind (fileread f n s) (\<lambda>rd s.
         kbind (user_store a (snd rd) s) (\<lambda>_ s. Ret (fst rd) s)))"

text \<open>\<open>filewrite\<close> reads the bytes only if the file is writable.\<close>

definition sys_write :: "'a file_state_scheme \<Rightarrow> ('a file_state_scheme, int) kres" where
  "sys_write s =
     kbind (arg_rw s) (\<lambda>r s.
     case r of
       None \<Rightarrow> Ret (- 1) s
     | Some (f, a, n) \<Rightarrow>
         if f_writable (files s f) then
           (case user_bytes s a (nat n) of None \<Rightarrow> null_deref | Some bs \<Rightarrow> filewrite f bs s)
         else filewrite f [] s)"

definition sys_close :: "ksyms \<Rightarrow> 'a file_state_scheme \<Rightarrow> ('a file_state_scheme, int) kres" where
  "sys_close K s =
     kbind (argfd 0 s) (\<lambda>r s.
     case r of
       None \<Rightarrow> Ret (- 1) s
     | Some (fd, f) \<Rightarrow>
         with_proc s (\<lambda>p.
           kbind (fileclose K f (set_fd p fd None s)) (\<lambda>_ s. Ret 0 s)))"

text \<open>\<open>struct stat\<close> takes 20 bytes; \<open>stati\<close> stores its fields one by one.\<close>

definition store_stat :: "u32 \<Rightarrow> stat \<Rightarrow> 'a vm_state_scheme \<Rightarrow> ('a vm_state_scheme, unit) kres" where
  "store_stat a st s =
     kbind (user_store (a + 4) (word_bytes (st_dev st)) s) (\<lambda>_ s.
     kbind (user_store (a + 8) (word_bytes (st_ino st)) s) (\<lambda>_ s.
     kbind (user_store a (take 2 (word_bytes (ucast (st_type st)))) s) (\<lambda>_ s.
     kbind (user_store (a + 12) (take 2 (word_bytes (ucast (st_nlink st)))) s) (\<lambda>_ s.
     user_store (a + 16) (word_bytes (st_size st)) s))))"

definition sys_fstat :: "'a file_state_scheme \<Rightarrow> ('a file_state_scheme, int) kres" where
  "sys_fstat s =
     kbind (argfd 0 s) (\<lambda>r s.
     case r of
       None \<Rightarrow> Ret (- 1) s
     | Some (_, f) \<Rightarrow>
         kbind (argptr 1 20 s) (\<lambda>a s.
         case a of
           None \<Rightarrow> Ret (- 1) s
         | Some a \<Rightarrow>
             kbind (filestat f s) (\<lambda>st s.
             case st of
               None \<Rightarrow> Ret (- 1) s
             | Some st \<Rightarrow> kbind (store_stat a st s) (\<lambda>_ s. Ret 0 s))))"

section \<open>Links\<close>

definition add_nlink :: "nat \<Rightarrow> u16 \<Rightarrow> 'a fs_state_scheme \<Rightarrow> 'a fs_state_scheme" where
  "add_nlink i d s = upd_inode i (\<lambda>ip. ip\<lparr>i_nlink := i_nlink ip + d\<rparr>) s"

definition fail_op :: "'a log_state_scheme \<Rightarrow> ('a log_state_scheme, int) kres" where
  "fail_op s = kbind (end_op s) (\<lambda>_ s. Ret (- 1) s)"

definition cleanupsyslink :: "nat \<Rightarrow> 'a fs_state_scheme \<Rightarrow> ('a fs_state_scheme, unit) kres" where
  "cleanupsyslink i s =
     kbind (ilock i s) (\<lambda>_ s.
     kbind (iupdate i (add_nlink i (- 1) s)) (\<lambda>_ s.
     kbind (iunlockput i s) (\<lambda>_ s. end_op s)))"

definition sys_link :: "'a vm_state_scheme \<Rightarrow> ('a vm_state_scheme, int) kres" where
  "sys_link s =
     kbind (argstr 0 s) (\<lambda>old s.
     case old of None \<Rightarrow> Ret (- 1) s | Some (_, old) \<Rightarrow>
     kbind (argstr 1 s) (\<lambda>new s.
     case new of None \<Rightarrow> Ret (- 1) s | Some (_, new) \<Rightarrow>
     kbind (begin_op s) (\<lambda>_ s.
     kbind (namei old s) (\<lambda>ip s.
     case ip of None \<Rightarrow> fail_op s | Some i \<Rightarrow>
     kbind (ilock i s) (\<lambda>_ s.
     if i_type (inodes s i) = T_DIR then kbind (iunlockput i s) (\<lambda>_ s. fail_op s)
     else
       kbind (iupdate i (add_nlink i 1 s)) (\<lambda>_ s.
       kbind (iunlock i s) (\<lambda>_ s.
       kbind (nameiparent new s) (\<lambda>r s.
       case r of None \<Rightarrow> kbind (cleanupsyslink i s) (\<lambda>_ s. Ret (- 1) s) | Some (d, name) \<Rightarrow>
       kbind (ilock d s) (\<lambda>_ s.
       kbind (if i_dev (inodes s d) \<noteq> i_dev (inodes s i) then Ret (- 1) s
              else dirlink d name (i_inum (inodes s i)) s) (\<lambda>r s.
       if r < 0 then
         kbind (iunlockput d s) (\<lambda>_ s.
         kbind (cleanupsyslink i s) (\<lambda>_ s. Ret (- 1) s))
       else
         kbind (iunlockput d s) (\<lambda>_ s.
         kbind (iput i s) (\<lambda>_ s.
         kbind (end_op s) (\<lambda>_ s. Ret 0 s)))))))))))))"

text \<open>The loop of \<open>isdirempty\<close>, with \<open>m\<close> entries left at offset \<open>off\<close>.\<close>

fun isdirempty_loop :: "nat \<Rightarrow> nat \<Rightarrow> u32 \<Rightarrow> 'a fs_state_scheme \<Rightarrow> ('a fs_state_scheme, bool) kres" where
  "isdirempty_loop d 0 off s = Ret True s"
| "isdirempty_loop d (Suc m) off s =
     kbind (readi d off 16 s) (\<lambda>rd s.
     if fst rd \<noteq> 16 then Panic ''isdirempty: readi''
     else if de_inum (snd rd) \<noteq> 0 then Ret False s
     else isdirempty_loop d m (off + 16) s)"

definition isdirempty :: "nat \<Rightarrow> 'a fs_state_scheme \<Rightarrow> ('a fs_state_scheme, bool) kres" where
  "isdirempty d s = isdirempty_loop d (entries (i_size (inodes s d)) - 2) 32 s"

definition sys_unlink :: "'a vm_state_scheme \<Rightarrow> ('a vm_state_scheme, int) kres" where
  "sys_unlink s =
     kbind (argstr 0 s) (\<lambda>path s.
     case path of None \<Rightarrow> Ret (- 1) s | Some (_, path) \<Rightarrow>
     kbind (begin_op s) (\<lambda>_ s.
     kbind (nameiparent path s) (\<lambda>r s.
     case r of None \<Rightarrow> fail_op s | Some (d, name) \<Rightarrow>
     kbind (ilock d s) (\<lambda>_ s.
     if namecmp name (cstr ''.'') = 0 \<or> namecmp name (cstr ''..'') = 0
     then kbind (iunlockput d s) (\<lambda>_ s. fail_op s)
     else
       kbind (dirlookup d name s) (\<lambda>r s.
       case r of None \<Rightarrow> kbind (iunlockput d s) (\<lambda>_ s. fail_op s) | Some (i, off) \<Rightarrow>
       kbind (ilock i s) (\<lambda>_ s.
       if sint (i_nlink (inodes s i)) < 1 then Panic ''unlink: nlink < 1''
       else
         kbind (if i_type (inodes s i) = T_DIR then isdirempty i s else Ret True s) (\<lambda>ok s.
         if \<not> ok then
           kbind (iunlockput i s) (\<lambda>_ s. kbind (iunlockput d s) (\<lambda>_ s. fail_op s))
         else
           kbind (writei d (replicate 16 0) off s) (\<lambda>r s.
           if r \<noteq> 16 then Panic ''unlink: writei''
           else
             kbind (if i_type (inodes s i) = T_DIR then iupdate d (add_nlink d (- 1) s) else Ret () s) (\<lambda>_ s.
             kbind (iunlockput d s) (\<lambda>_ s.
             kbind (iupdate i (add_nlink i (- 1) s)) (\<lambda>_ s.
             kbind (iunlockput i s) (\<lambda>_ s.
             kbind (end_op s) (\<lambda>_ s. Ret 0 s)))))))))))))"

section \<open>Creating and opening\<close>

definition create_dots :: "nat \<Rightarrow> nat \<Rightarrow> 'a fs_state_scheme \<Rightarrow> ('a fs_state_scheme, unit) kres" where
  "create_dots d i s =
     kbind (iupdate d (add_nlink d 1 s)) (\<lambda>_ s.
     kbind (dirlink i (cstr ''.'') (i_inum (inodes s i)) s) (\<lambda>r s.
     if r < 0 then Panic ''create dots''
     else
       kbind (dirlink i (cstr ''..'') (i_inum (inodes s d)) s) (\<lambda>r s.
       if r < 0 then Panic ''create dots'' else Ret () s)))"

text \<open>\<open>ialloc\<close> panics rather than returning a null pointer.\<close>

definition create :: "u8 list \<Rightarrow> u16 \<Rightarrow> u16 \<Rightarrow> u16 \<Rightarrow> 'a fs_state_scheme \<Rightarrow> ('a fs_state_scheme, nat option) kres" where
  "create path ty major minor s =
     kbind (nameiparent path s) (\<lambda>r s.
     case r of None \<Rightarrow> Ret None s | Some (d, name) \<Rightarrow>
     kbind (ilock d s) (\<lambda>_ s.
     kbind (dirlookup d name s) (\<lambda>r s.
     case r of
       Some (i, off) \<Rightarrow>
         kbind (iunlockput d s) (\<lambda>_ s.
         kbind (ilock i s) (\<lambda>_ s.
         if ty = T_FILE \<and> i_type (inodes s i) = T_FILE then Ret (Some i) s
         else kbind (iunlockput i s) (\<lambda>_ s. Ret None s)))
     | None \<Rightarrow>
         kbind (ialloc (i_dev (inodes s d)) ty s) (\<lambda>i s.
         kbind (ilock i s) (\<lambda>_ s.
         kbind (iupdate i (upd_inode i (\<lambda>ip. ip\<lparr>i_major := major, i_minor := minor, i_nlink := 1\<rparr>) s)) (\<lambda>_ s.
         kbind (if ty = T_DIR then create_dots d i s else Ret () s) (\<lambda>_ s.
         kbind (dirlink d name (i_inum (inodes s i)) s) (\<lambda>r s.
         if r < 0 then Panic ''create: dirlink''
         else kbind (iunlockput d s) (\<lambda>_ s. Ret (Some i) s)))))))))"

text \<open>The inode that \<open>open\<close> opens, locked.\<close>

definition open_inode :: "u8 list \<Rightarrow> u32 \<Rightarrow> 'a fs_state_scheme \<Rightarrow> ('a fs_state_scheme, nat option) kres" where
  "open_inode path omode s =
     (if omode AND O_CREATE \<noteq> 0 then create path T_FILE 0 0 s
      else
        kbind (namei path s) (\<lambda>ip s.
        case ip of None \<Rightarrow> Ret None s | Some i \<Rightarrow>
        kbind (ilock i s) (\<lambda>_ s.
        if i_type (inodes s i) = T_DIR \<and> omode \<noteq> O_RDONLY
        then kbind (iunlockput i s) (\<lambda>_ s. Ret None s)
        else Ret ip s)))"

definition open_file :: "nat \<Rightarrow> u32 \<Rightarrow> ofile \<Rightarrow> ofile" where
  "open_file i omode f = f\<lparr>f_type := FD_INODE, f_ip := i, f_off := 0,
     f_readable := (omode AND O_WRONLY = 0),
     f_writable := (omode AND O_WRONLY \<noteq> 0 \<or> omode AND O_RDWR \<noteq> 0)\<rparr>"

definition sys_open :: "ksyms \<Rightarrow> 'a file_state_scheme \<Rightarrow> ('a file_state_scheme, int) kres" where
  "sys_open K s =
     kbind (argstr 0 s) (\<lambda>path s.
     case path of None \<Rightarrow> Ret (- 1) s | Some (_, path) \<Rightarrow>
     kbind (argint 1 s) (\<lambda>omode s.
     case omode of None \<Rightarrow> Ret (- 1) s | Some omode \<Rightarrow>
     kbind (begin_op s) (\<lambda>_ s.
     kbind (open_inode path omode s) (\<lambda>ip s.
     case ip of None \<Rightarrow> fail_op s | Some i \<Rightarrow>
     kbind (filealloc s) (\<lambda>f s.
     case f of
       None \<Rightarrow> kbind (iunlockput i s) (\<lambda>_ s. fail_op s)
     | Some f \<Rightarrow>
         kbind (fdalloc f s) (\<lambda>fd s.
         case fd of
           None \<Rightarrow>
             kbind (fileclose K f s) (\<lambda>_ s.
             kbind (iunlockput i s) (\<lambda>_ s. fail_op s))
         | Some fd \<Rightarrow>
             kbind (iunlock i s) (\<lambda>_ s.
             kbind (end_op s) (\<lambda>_ s.
             Ret (int fd) (upd_file f (open_file i omode) s)))))))))"

definition finish_create :: "nat option \<Rightarrow> 'a fs_state_scheme \<Rightarrow> ('a fs_state_scheme, int) kres" where
  "finish_create ip s =
     (case ip of
        None \<Rightarrow> fail_op s
      | Some i \<Rightarrow> kbind (iunlockput i s) (\<lambda>_ s. kbind (end_op s) (\<lambda>_ s. Ret 0 s)))"

definition sys_mkdir :: "'a vm_state_scheme \<Rightarrow> ('a vm_state_scheme, int) kres" where
  "sys_mkdir s =
     kbind (begin_op s) (\<lambda>_ s.
     kbind (argstr 0 s) (\<lambda>path s.
     case path of None \<Rightarrow> fail_op s | Some (_, path) \<Rightarrow>
     kbind (create path T_DIR 0 0 s) finish_create))"

definition sys_mknod :: "'a vm_state_scheme \<Rightarrow> ('a vm_state_scheme, int) kres" where
  "sys_mknod s =
     kbind (begin_op s) (\<lambda>_ s.
     kbind (argstr 0 s) (\<lambda>path s.
     case path of None \<Rightarrow> fail_op s | Some (_, path) \<Rightarrow>
     kbind (argint 1 s) (\<lambda>major s.
     case major of None \<Rightarrow> fail_op s | Some major \<Rightarrow>
     kbind (argint 2 s) (\<lambda>minor s.
     case minor of None \<Rightarrow> fail_op s | Some minor \<Rightarrow>
     kbind (create path T_DEV (ucast major) (ucast minor) s) finish_create))))"

definition sys_chdir :: "'a vm_state_scheme \<Rightarrow> ('a vm_state_scheme, int) kres" where
  "sys_chdir s =
     with_proc s (\<lambda>p.
     kbind (begin_op s) (\<lambda>_ s.
     kbind (argstr 0 s) (\<lambda>path s.
     case path of None \<Rightarrow> fail_op s | Some (_, path) \<Rightarrow>
     kbind (namei path s) (\<lambda>ip s.
     case ip of None \<Rightarrow> fail_op s | Some i \<Rightarrow>
     kbind (ilock i s) (\<lambda>_ s.
     if i_type (inodes s i) \<noteq> T_DIR then kbind (iunlockput i s) (\<lambda>_ s. fail_op s)
     else
       kbind (iunlock i s) (\<lambda>_ s.
       case p_cwd (procs s p) of None \<Rightarrow> null_deref | Some c \<Rightarrow>
       kbind (iput c s) (\<lambda>_ s.
       kbind (end_op s) (\<lambda>_ s.
       Ret 0 (upd_proc p (\<lambda>q. q\<lparr>p_cwd := Some i\<rparr>) s)))))))))"

section \<open>exec and pipe\<close>

text \<open>The loop of \<open>sys_exec\<close>, with \<open>m\<close> entries of \<open>argv\<close> left.\<close>

fun fetch_argv :: "nat \<Rightarrow> u32 \<Rightarrow> 'a vm_state_scheme \<Rightarrow> ('a vm_state_scheme, u8 list list option) kres" where
  "fetch_argv 0 a s = Ret None s"
| "fetch_argv (Suc m) a s =
     kbind (fetchint a s) (\<lambda>uarg s.
     case uarg of
       None \<Rightarrow> Ret None s
     | Some uarg \<Rightarrow>
         if uarg = 0 then Ret (Some []) s
         else
           kbind (fetchstr uarg s) (\<lambda>r s.
           case r of
             None \<Rightarrow> Ret None s
           | Some (_, arg) \<Rightarrow>
               kbind (fetch_argv m (a + 4) s) (\<lambda>args s. Ret (map_option (\<lambda>as. arg # as) args) s)))"

definition sys_exec :: "ksyms \<Rightarrow> 'a vm_state_scheme \<Rightarrow> ('a vm_state_scheme, int) kres" where
  "sys_exec K s =
     kbind (argstr 0 s) (\<lambda>path s.
     case path of None \<Rightarrow> Ret (- 1) s | Some (_, path) \<Rightarrow>
     kbind (argint 1 s) (\<lambda>uargv s.
     case uargv of None \<Rightarrow> Ret (- 1) s | Some uargv \<Rightarrow>
     kbind (fetch_argv MAXARG uargv s) (\<lambda>argv s.
     case argv of None \<Rightarrow> Ret (- 1) s | Some argv \<Rightarrow> exec K path argv s)))"

definition sys_pipe :: "ksyms \<Rightarrow> 'a file_state_scheme \<Rightarrow> ('a file_state_scheme, int) kres" where
  "sys_pipe K s =
     kbind (argptr 0 8 s) (\<lambda>a s.
     case a of None \<Rightarrow> Ret (- 1) s | Some a \<Rightarrow>
     kbind (pipealloc K s) (\<lambda>r s.
     case r of None \<Rightarrow> Ret (- 1) s | Some (rfile, wfile) \<Rightarrow>
     let undo = (\<lambda>s. kbind (fileclose K rfile s) (\<lambda>_ s. kbind (fileclose K wfile s) (\<lambda>_ s. Ret (- 1) s))) in
     kbind (fdalloc rfile s) (\<lambda>fd0 s.
     case fd0 of None \<Rightarrow> undo s | Some fd0 \<Rightarrow>
     kbind (fdalloc wfile s) (\<lambda>fd1 s.
     case fd1 of
       None \<Rightarrow> with_proc s (\<lambda>p. undo (set_fd p fd0 None s))
     | Some fd1 \<Rightarrow>
         kbind (user_store a (word_bytes (of_nat fd0) @ word_bytes (of_nat fd1)) s) (\<lambda>_ s. Ret 0 s)))))"

end
