(* ===== verification/Apic.thy ===== *)
theory Apic
  imports Proc
begin

text \<open>
  The interrupt controllers (\<open>lapic.c\<close>, \<open>ioapic.c\<close>, \<open>picirq.c\<close>), the real-time clock, the search for the
  multiprocessor tables (\<open>mp.c\<close>) and which CPU this is (\<open>mycpu\<close>, \<open>cpuid\<close> in \<open>proc.c\<close>). A register in
  memory is accessed through \<open>mmio\<close>, the history of loads and stores (newest first), and \<open>mdev\<close>
  says what a load gives after a history. The registers of the local APIC are words: register \<open>i\<close> is
  at \<open>lapic + 4 * i\<close>.
\<close>

section \<open>State\<close>

datatype mmio_ev = Ld u32 | St u32 u32

record apic_state = proc_state +
  mmio :: "mmio_ev list"
  mdev :: "mmio_ev list \<Rightarrow> u32 \<Rightarrow> u32"
  lapic :: u32
  ncpu :: nat
  cpu_apicid :: "nat \<Rightarrow> u8"
  ioapicid :: u8

abbreviation NCPU :: nat where "NCPU \<equiv> 8"

definition mload :: "u32 \<Rightarrow> 'a apic_state_scheme \<Rightarrow> u32 \<times> 'a apic_state_scheme" where
  "mload a s = (mdev s (mmio s) a, s\<lparr>mmio := Ld a # mmio s\<rparr>)"

definition mstore :: "u32 \<Rightarrow> u32 \<Rightarrow> 'a apic_state_scheme \<Rightarrow> 'a apic_state_scheme" where
  "mstore a v s = s\<lparr>mmio := St a v # mmio s\<rparr>"

section \<open>The local APIC\<close>

abbreviation APIC_ID :: u32 where "APIC_ID \<equiv> 0x20 div 4"
abbreviation APIC_VER :: u32 where "APIC_VER \<equiv> 0x30 div 4"
abbreviation APIC_TPR :: u32 where "APIC_TPR \<equiv> 0x80 div 4"
abbreviation APIC_EOI :: u32 where "APIC_EOI \<equiv> 0xB0 div 4"
abbreviation APIC_SVR :: u32 where "APIC_SVR \<equiv> 0xF0 div 4"
abbreviation APIC_ESR :: u32 where "APIC_ESR \<equiv> 0x280 div 4"
abbreviation APIC_ICRLO :: u32 where "APIC_ICRLO \<equiv> 0x300 div 4"
abbreviation APIC_ICRHI :: u32 where "APIC_ICRHI \<equiv> 0x310 div 4"
abbreviation APIC_TIMER :: u32 where "APIC_TIMER \<equiv> 0x320 div 4"
abbreviation APIC_PCINT :: u32 where "APIC_PCINT \<equiv> 0x340 div 4"
abbreviation APIC_LINT0 :: u32 where "APIC_LINT0 \<equiv> 0x350 div 4"
abbreviation APIC_LINT1 :: u32 where "APIC_LINT1 \<equiv> 0x360 div 4"
abbreviation APIC_ERROR :: u32 where "APIC_ERROR \<equiv> 0x370 div 4"
abbreviation APIC_TICR :: u32 where "APIC_TICR \<equiv> 0x380 div 4"
abbreviation APIC_TDCR :: u32 where "APIC_TDCR \<equiv> 0x3E0 div 4"
abbreviation MASKED :: u32 where "MASKED \<equiv> 0x00010000"
abbreviation APIC_INIT :: u32 where "APIC_INIT \<equiv> 0x00000500"
abbreviation APIC_STARTUP :: u32 where "APIC_STARTUP \<equiv> 0x00000600"
abbreviation DELIVS :: u32 where "DELIVS \<equiv> 0x00001000"
abbreviation APIC_ASSERT :: u32 where "APIC_ASSERT \<equiv> 0x00004000"
abbreviation APIC_LEVEL :: u32 where "APIC_LEVEL \<equiv> 0x00008000"
abbreviation APIC_BCAST :: u32 where "APIC_BCAST \<equiv> 0x00080000"
abbreviation T_IRQ0 :: u32 where "T_IRQ0 \<equiv> 32"
abbreviation IRQ_TIMER :: u32 where "IRQ_TIMER \<equiv> 0"
abbreviation IRQ_KBD :: u32 where "IRQ_KBD \<equiv> 1"
abbreviation IRQ_COM1 :: u32 where "IRQ_COM1 \<equiv> 4"
abbreviation IRQ_IDE :: u32 where "IRQ_IDE \<equiv> 14"
abbreviation IRQ_ERROR :: u32 where "IRQ_ERROR \<equiv> 19"
abbreviation IRQ_SPURIOUS :: u32 where "IRQ_SPURIOUS \<equiv> 31"

definition lapicw :: "u32 \<Rightarrow> u32 \<Rightarrow> 'a apic_state_scheme \<Rightarrow> 'a apic_state_scheme" where
  "lapicw index v s = snd (mload (lapic s + 4 * APIC_ID) (mstore (lapic s + 4 * index) v s))"

text \<open>The wait at the end of \<open>lapicinit\<close>, which ends when the controller says so.\<close>

partial_function (option) delivs_wait :: "'a apic_state_scheme \<Rightarrow> 'a apic_state_scheme option" where
  "delivs_wait s =
     (case mload (lapic s + 4 * APIC_ICRLO) s of (v, s) \<Rightarrow>
      if v AND DELIVS \<noteq> 0 then delivs_wait s else Some s)"

definition lapicinit :: "'a apic_state_scheme \<Rightarrow> 'a apic_state_scheme option" where
  "lapicinit s =
     (if lapic s = 0 then Some s
      else
        let s = lapicw APIC_SVR (0x100 OR (T_IRQ0 + IRQ_SPURIOUS)) s;
            s = lapicw APIC_TDCR 0xB s;
            s = lapicw APIC_TIMER (0x20000 OR (T_IRQ0 + IRQ_TIMER)) s;
            s = lapicw APIC_TICR 10000000 s;
            s = lapicw APIC_LINT0 MASKED s;
            s = lapicw APIC_LINT1 MASKED s;
            (ver, s) = mload (lapic s + 4 * APIC_VER) s;
            s = (if drop_bit 16 ver AND 0xFF \<ge> 4 then lapicw APIC_PCINT MASKED s else s);
            s = lapicw APIC_ERROR (T_IRQ0 + IRQ_ERROR) s;
            s = lapicw APIC_ESR 0 s;
            s = lapicw APIC_ESR 0 s;
            s = lapicw APIC_EOI 0 s;
            s = lapicw APIC_ICRHI 0 s;
            s = lapicw APIC_ICRLO (APIC_BCAST OR APIC_INIT OR APIC_LEVEL) s
        in map_option (lapicw APIC_TPR 0) (delivs_wait s))"

definition lapicid :: "'a apic_state_scheme \<Rightarrow> u32 \<times> 'a apic_state_scheme" where
  "lapicid s =
     (if lapic s = 0 then (0, s)
      else let (v, s) = mload (lapic s + 4 * APIC_ID) s in (drop_bit 24 v, s))"

definition lapiceoi :: "'a apic_state_scheme \<Rightarrow> 'a apic_state_scheme" where
  "lapiceoi s = (if lapic s \<noteq> 0 then lapicw APIC_EOI 0 s else s)"

definition microdelay :: "int \<Rightarrow> 'a apic_state_scheme \<Rightarrow> 'a apic_state_scheme" where
  "microdelay us s = s"

text \<open>The warm reset vector is two 16-bit words at physical address \<open>0x467\<close>.\<close>

definition startup_ipi :: "u8 \<Rightarrow> u32 \<Rightarrow> 'a apic_state_scheme \<Rightarrow> 'a apic_state_scheme" where
  "startup_ipi apicid addr s =
     (let s = lapicw APIC_ICRHI (push_bit 24 (ucast apicid)) s;
          s = lapicw APIC_ICRLO (APIC_STARTUP OR drop_bit 12 addr) s
      in microdelay 200 s)"

definition lapicstartap :: "u8 \<Rightarrow> u32 \<Rightarrow> 'a apic_state_scheme \<Rightarrow> 'a apic_state_scheme" where
  "lapicstartap apicid addr s =
     (let s = outb 0x70 0xF s;
          s = outb 0x71 0x0A s;
          wrv = P2V (push_bit 4 0x40 OR 0x67);
          s = set_bytes wrv [0, 0, ucast (drop_bit 4 addr), ucast (drop_bit 12 addr)] s;
          s = lapicw APIC_ICRHI (push_bit 24 (ucast apicid)) s;
          s = lapicw APIC_ICRLO (APIC_INIT OR APIC_LEVEL OR APIC_ASSERT) s;
          s = microdelay 200 s;
          s = lapicw APIC_ICRLO (APIC_INIT OR APIC_LEVEL) s;
          s = microdelay 100 s;
          s = startup_ipi apicid addr s
      in startup_ipi apicid addr s)"

section \<open>The clock\<close>

record rtcdate =
  second :: u32
  minute :: u32
  hour :: u32
  day :: u32
  month :: u32
  year :: u32

definition cmos_read :: "u8 \<Rightarrow> 'a hw_state_scheme \<Rightarrow> u32 \<times> 'a hw_state_scheme" where
  "cmos_read reg s = (let (v, s) = inb 0x71 (outb 0x70 reg s) in (ucast v, s))"

definition fill_rtcdate :: "'a hw_state_scheme \<Rightarrow> rtcdate \<times> 'a hw_state_scheme" where
  "fill_rtcdate s =
     (let (sec, s) = cmos_read 0 s; (mi, s) = cmos_read 2 s; (ho, s) = cmos_read 4 s;
          (da, s) = cmos_read 7 s; (mo, s) = cmos_read 8 s; (ye, s) = cmos_read 9 s
      in (\<lparr>second = sec, minute = mi, hour = ho, day = da, month = mo, year = ye\<rparr>, s))"

text \<open>The loop that reads the clock until two readings agree.\<close>

partial_function (option) cmostime_loop :: "'a hw_state_scheme \<Rightarrow> (rtcdate \<times> 'a hw_state_scheme) option" where
  "cmostime_loop s =
     (case fill_rtcdate s of (t1, s) \<Rightarrow>
      case cmos_read 0x0a s of (a, s) \<Rightarrow>
      if a AND 0x80 \<noteq> 0 then cmostime_loop s
      else case fill_rtcdate s of (t2, s) \<Rightarrow>
        if t1 = t2 then Some (t1, s) else cmostime_loop s)"

definition bcd_conv :: "u32 \<Rightarrow> u32" where
  "bcd_conv x = drop_bit 4 x * 10 + (x AND 0xf)"

definition bcd_date :: "rtcdate \<Rightarrow> rtcdate" where
  "bcd_date t = \<lparr>second = bcd_conv (second t), minute = bcd_conv (minute t), hour = bcd_conv (hour t),
     day = bcd_conv (day t), month = bcd_conv (month t), year = bcd_conv (year t)\<rparr>"

definition cmostime :: "'a hw_state_scheme \<Rightarrow> (rtcdate \<times> 'a hw_state_scheme) option" where
  "cmostime s =
     (let (sb, s) = cmos_read 0x0b s; bcd = (sb AND 4 = 0)
      in map_option (\<lambda>(t1, s).
           let t1 = (if bcd then bcd_date t1 else t1) in (t1\<lparr>year := year t1 + 2000\<rparr>, s)) (cmostime_loop s))"

section \<open>The I/O APIC and the old controllers\<close>

abbreviation IOAPIC :: u32 where "IOAPIC \<equiv> 0xFEC00000"
abbreviation REG_TABLE :: u32 where "REG_TABLE \<equiv> 0x10"
abbreviation INT_DISABLED :: u32 where "INT_DISABLED \<equiv> 0x00010000"

definition ioapicread :: "u32 \<Rightarrow> 'a apic_state_scheme \<Rightarrow> u32 \<times> 'a apic_state_scheme" where
  "ioapicread reg s = mload (IOAPIC + 16) (mstore IOAPIC reg s)"

definition ioapicwrite :: "u32 \<Rightarrow> u32 \<Rightarrow> 'a apic_state_scheme \<Rightarrow> 'a apic_state_scheme" where
  "ioapicwrite reg v s = mstore (IOAPIC + 16) v (mstore IOAPIC reg s)"

definition ioapicinit :: "'a apic_state_scheme \<Rightarrow> ('a apic_state_scheme, unit) kres" where
  "ioapicinit s =
     (let (ver, s) = ioapicread 1 s;
          maxintr = unat (drop_bit 16 ver AND 0xFF);
          (v, s) = ioapicread 0 s;
          ident = drop_bit 24 v
      in kbind (if ident \<noteq> ucast (ioapicid s)
                then cprintf (Some (cstr ''ioapicinit: id isn't equal to ioapicid; not a MP'' @ [10]))
                       (\<lambda>_. 0) (\<lambda>_. None) s
                else Ret () s) (\<lambda>_ s.
         Ret () (fold (\<lambda>i s. ioapicwrite (REG_TABLE + 2 * of_nat i + 1) 0
             (ioapicwrite (REG_TABLE + 2 * of_nat i) (INT_DISABLED OR (T_IRQ0 + of_nat i)) s))
           [0..<Suc maxintr] s)))"

definition ioapicenable :: "u32 \<Rightarrow> u32 \<Rightarrow> 'a apic_state_scheme \<Rightarrow> 'a apic_state_scheme" where
  "ioapicenable irq cpunum s =
     ioapicwrite (REG_TABLE + 2 * irq + 1) (push_bit 24 cpunum)
       (ioapicwrite (REG_TABLE + 2 * irq) (T_IRQ0 + irq) s)"

definition picinit :: "'a hw_state_scheme \<Rightarrow> 'a hw_state_scheme" where
  "picinit s = outb 0xA1 0xFF (outb 0x21 0xFF s)"

section \<open>Which CPU\<close>

definition mycpu :: "u32 \<Rightarrow> 'a apic_state_scheme \<Rightarrow> ('a apic_state_scheme, nat) kres" where
  "mycpu fl s =
     (if fl AND FL_INT \<noteq> 0 then Panic ''mycpu called with interrupts enabled''
      else
        let (apicid, s) = lapicid s in
        case scan (\<lambda>i. ucast (cpu_apicid s i) = apicid) (ncpu s) 0 of
          None \<Rightarrow> Panic ''unknown apicid''
        | Some i \<Rightarrow> Ret i s)"

definition cpuid :: "u32 \<Rightarrow> 'a apic_state_scheme \<Rightarrow> ('a apic_state_scheme, nat) kres" where
  "cpuid fl s = mycpu fl s"

section \<open>Multiprocessor tables\<close>

definition kbytes :: "'a kmem_state_scheme \<Rightarrow> u32 \<Rightarrow> nat \<Rightarrow> u8 list" where
  "kbytes s a n = map (\<lambda>k. kbyte s (a + of_nat k)) [0..<n]"

definition sum_bytes :: "u8 list \<Rightarrow> u8" where
  "sum_bytes bs = sum_list bs"

definition is_mp :: "'a kmem_state_scheme \<Rightarrow> u32 \<Rightarrow> bool" where
  "is_mp s p \<longleftrightarrow> kbytes s p 4 = cstr ''_MP_'' \<and> sum_bytes (kbytes s p 16) = 0"

definition mpsearch1 :: "u32 \<Rightarrow> nat \<Rightarrow> 'a kmem_state_scheme \<Rightarrow> u32 option" where
  "mpsearch1 a len s =
     map_option (\<lambda>k. P2V a + 16 * of_nat k) (scan (\<lambda>k. is_mp s (P2V a + 16 * of_nat k)) ((len + 15) div 16) 0)"

definition kshort :: "'a kmem_state_scheme \<Rightarrow> u32 \<Rightarrow> u32" where
  "kshort s a = push_bit 8 (ucast (kbyte s (a + 1))) OR ucast (kbyte s a)"

definition mpsearch :: "'a kmem_state_scheme \<Rightarrow> u32 option" where
  "mpsearch s =
     (let bda = P2V 0x400; p = push_bit 4 (kshort s (bda + 0x0E));
          first = (if p \<noteq> 0 then mpsearch1 p 1024 s
                   else mpsearch1 (kshort s (bda + 0x13) * 1024 - 1024) 1024 s)
      in case first of Some mp \<Rightarrow> Some mp | None \<Rightarrow> mpsearch1 0xF0000 0x10000 s)"

text \<open>The pair of the pointer structure and the configuration table.\<close>

definition mpconfig :: "'a kmem_state_scheme \<Rightarrow> (u32 \<times> u32) option" where
  "mpconfig s =
     (case mpsearch s of
        None \<Rightarrow> None
      | Some mp \<Rightarrow>
          let physaddr = ld32 (\<lambda>k. kbyte s (mp + 4 + of_nat k)) 0;
              conf = P2V physaddr;
              version = kbyte s (conf + 6)
          in if physaddr = 0 then None
             else if kbytes s conf 4 \<noteq> cstr ''PCMP'' then None
             else if version \<noteq> 1 \<and> version \<noteq> 4 then None
             else if sum_bytes (kbytes s conf (unat (kshort s (conf + 4)))) \<noteq> 0 then None
             else Some (mp, conf))"

text \<open>The loop of \<open>mpinit\<close> from \<open>p\<close> on. In the \<open>default\<close> case the \<open>break\<close> leaves the \<open>switch\<close>
  and not the loop, and \<open>p\<close> stays where it is.\<close>

partial_function (option) mpinit_loop :: "u32 \<Rightarrow> u32 \<Rightarrow> bool \<Rightarrow> 'a apic_state_scheme \<Rightarrow>
    (bool \<times> 'a apic_state_scheme) option" where
  "mpinit_loop e p ismp s =
     (if p < e then
        let ty = kbyte s p in
        if ty = 0 then
          mpinit_loop e (p + 20) ismp
            (if ncpu s < NCPU
             then s\<lparr>cpu_apicid := (cpu_apicid s)(ncpu s := kbyte s (p + 1)), ncpu := ncpu s + 1\<rparr> else s)
        else if ty = 2 then mpinit_loop e (p + 8) ismp (s\<lparr>ioapicid := kbyte s (p + 1)\<rparr>)
        else if ty = 1 \<or> ty = 3 \<or> ty = 4 then mpinit_loop e (p + 8) ismp s
        else mpinit_loop e p False s
      else Some (ismp, s))"

definition mpinit :: "'a apic_state_scheme \<Rightarrow> ('a apic_state_scheme, unit) kres option" where
  "mpinit s =
     (case mpconfig s of
        None \<Rightarrow> Some (Panic ''Expect to run on an SMP'')
      | Some (mp, conf) \<Rightarrow>
          let s = s\<lparr>lapic := ld32 (\<lambda>k. kbyte s (conf + 36 + of_nat k)) 0\<rparr>
          in map_option (\<lambda>(ismp, s).
               if \<not> ismp then Panic ''Didn't find a suitable machine''
               else if kbyte s (mp + 12) \<noteq> 0 then
                 let s = outb 0x22 0x70 s; (v, s) = inb 0x23 s in Ret () (outb 0x23 (v OR 1) s)
               else Ret () s)
             (mpinit_loop (conf + kshort s (conf + 4)) (conf + 44) True s))"

end
