(* ===== verification/Trap.thy ===== *)
theory Trap
  imports Sysproc Sysfile Apic
begin

text \<open>
  Traps and the dispatch of system calls (\<open>trap.c\<close>, \<open>syscall\<close> in \<open>syscall.c\<close>, the gate descriptors of
  \<open>mmu.h\<close>) and the start of the kernel (\<open>main.c\<close>). A handler that ends in \<open>exit\<close> leaves the CPU without
  a process; nothing is stored into the trap frame of that process any more. \<open>sys_getch\<close> and the
  interrupt handlers of keyboard and serial port poll a device, so their outcome is \<open>None\<close> if they
  never stop. The disk is the one in memory, whose interrupt handler does nothing.
\<close>

section \<open>System calls\<close>

definition syscalls :: "ksyms \<Rightarrow> (nat \<Rightarrow> u32) \<Rightarrow> int \<Rightarrow>
    ('a apic_state_scheme \<Rightarrow> ('a apic_state_scheme, int) kres option) option" where
  "syscalls K junk num =
     (if num = 1 then Some (\<lambda>s. Some (sys_fork K s))
      else if num = 2 then Some (\<lambda>s. Some (sys_exit K s))
      else if num = 3 then Some (\<lambda>s. Some (sys_wait K s))
      else if num = 4 then Some (\<lambda>s. Some (sys_pipe K s))
      else if num = 5 then Some (\<lambda>s. Some (sys_read s))
      else if num = 6 then Some (\<lambda>s. Some (sys_kill s))
      else if num = 7 then Some (\<lambda>s. Some (sys_exec K s))
      else if num = 8 then Some (\<lambda>s. Some (sys_fstat s))
      else if num = 9 then Some (\<lambda>s. Some (sys_chdir s))
      else if num = 10 then Some (\<lambda>s. Some (sys_dup s))
      else if num = 11 then Some (\<lambda>s. Some (sys_getpid s))
      else if num = 12 then Some (\<lambda>s. Some (sys_sbrk K s))
      else if num = 13 then Some (\<lambda>s. Some (sys_sleep s))
      else if num = 14 then Some (\<lambda>s. Some (sys_uptime s))
      else if num = 15 then Some (\<lambda>s. Some (sys_open K s))
      else if num = 16 then Some (\<lambda>s. Some (sys_write s))
      else if num = 17 then Some (\<lambda>s. Some (sys_mknod s))
      else if num = 18 then Some (\<lambda>s. Some (sys_unlink s))
      else if num = 19 then Some (\<lambda>s. Some (sys_link s))
      else if num = 20 then Some (\<lambda>s. Some (sys_mkdir s))
      else if num = 21 then Some (\<lambda>s. Some (sys_close K s))
      else if num = 22 then Some (\<lambda>s. sys_getch s)
      else if num = 23 then Some (\<lambda>s. Some (sys_greeting s))
      else if num = 24 then Some (\<lambda>s. Some (sys_videomodevga12 s))
      else if num = 25 then Some (\<lambda>s. Some (sys_videomodetext s))
      else if num = 26 then Some (\<lambda>s. Some (sys_setspecificpixel junk s))
      else if num = 27 then Some (\<lambda>s. Some (sys_clearscreen13h s))
      else if num = 28 then Some (\<lambda>s. Some (sys_clearscreen12h s))
      else if num = 29 then Some (\<lambda>s. Some (sys_videomodevga13 s))
      else None)"

definition set_eax :: "nat \<Rightarrow> int \<Rightarrow> 'a sched_state_scheme \<Rightarrow> 'a sched_state_scheme" where
  "set_eax p r s = set_tf p (\<lambda>tf. tf\<lparr>tf_eax := of_int r\<rparr>) s"

definition syscall :: "ksyms \<Rightarrow> (nat \<Rightarrow> u32) \<Rightarrow> 'a apic_state_scheme \<Rightarrow> ('a apic_state_scheme, unit) kres option" where
  "syscall K junk s =
     (case curproc s of
        None \<Rightarrow> Some null_deref
      | Some p \<Rightarrow>
          let num = sint (tf_eax (p_tf (procs s p))) in
          case syscalls K junk num of
            Some f \<Rightarrow>
              map_option (\<lambda>m. kbind m (\<lambda>r s. Ret () (if curproc s = None then s else set_eax p r s))) (f s)
          | None \<Rightarrow>
              Some (kbind (cprintf (Some (cstr ''%d %s: unknown sys call %d'' @ [10]))
                  (\<lambda>k. if k = 0 then of_int (p_pid (procs s p)) else of_int num)
                  (\<lambda>_. Some (cstr (p_name (procs s p)))) s) (\<lambda>_ s.
                Ret () (set_eax p (- 1) s))))"

section \<open>Gates\<close>

abbreviation T_SYSCALL :: u32 where "T_SYSCALL \<equiv> 64"
abbreviation SEG_KCODE :: u16 where "SEG_KCODE \<equiv> 1"
abbreviation STS_IG32 :: nat where "STS_IG32 \<equiv> 0xE"
abbreviation STS_TG32 :: nat where "STS_TG32 \<equiv> 0xF"

record gatedesc =
  off_15_0 :: u16
  gd_cs :: u16
  gd_args :: nat
  gd_rsv1 :: nat
  gd_type :: nat
  gd_s :: nat
  gd_dpl :: u16
  gd_p :: nat
  off_31_16 :: u16

definition SETGATE :: "bool \<Rightarrow> u16 \<Rightarrow> u32 \<Rightarrow> u16 \<Rightarrow> gatedesc" where
  "SETGATE istrap sel off d =
     \<lparr>off_15_0 = ucast (off AND 0xffff), gd_cs = sel, gd_args = 0, gd_rsv1 = 0,
      gd_type = (if istrap then STS_TG32 else STS_IG32), gd_s = 0, gd_dpl = d, gd_p = 1,
      off_31_16 = ucast (drop_bit 16 off)\<rparr>"

text \<open>The descriptor table is a result of \<open>tvinit\<close>; \<open>vectors\<close> are the entry points in \<open>vectors.S\<close>.\<close>

definition tvinit :: "(nat \<Rightarrow> u32) \<Rightarrow> 'a klocks_scheme \<Rightarrow> (nat \<Rightarrow> gatedesc) \<times> 'a klocks_scheme" where
  "tvinit vectors s =
     (let idt = (\<lambda>i. SETGATE False (push_bit 3 SEG_KCODE) (vectors i) 0);
          idt = idt(64 := SETGATE True (push_bit 3 SEG_KCODE) (vectors 64) DPL_USER)
      in (idt, lk_init TicksLock s))"

section \<open>Traps\<close>

text \<open>The tail of \<open>trap\<close> after the handler: a killed process leaves, and the clock makes the
  process give up the CPU. When it runs again it continues with \<open>trap_resume\<close>.\<close>

definition exit_if_killed :: "ksyms \<Rightarrow> trapframe \<Rightarrow> ('a file_state_scheme \<Rightarrow> ('a file_state_scheme, unit) kres) \<Rightarrow>
    'a file_state_scheme \<Rightarrow> ('a file_state_scheme, unit) kres" where
  "exit_if_killed K tf k s =
     (case curproc s of
        Some p \<Rightarrow> if p_killed (procs s p) \<and> tf_cs tf AND 3 = DPL_USER then exit K s else k s
      | None \<Rightarrow> k s)"

definition trap_tail :: "ksyms \<Rightarrow> trapframe \<Rightarrow> 'a file_state_scheme \<Rightarrow> ('a file_state_scheme, unit) kres" where
  "trap_tail K tf s =
     exit_if_killed K tf (\<lambda>s.
       case curproc s of
         Some p \<Rightarrow>
           if p_state (procs s p) = RUNNING \<and> tf_trapno tf = T_IRQ0 + IRQ_TIMER then yield s
           else exit_if_killed K tf (Ret ()) s
       | None \<Rightarrow> Ret () s) s"

definition trap_resume :: "ksyms \<Rightarrow> trapframe \<Rightarrow> 'a file_state_scheme \<Rightarrow> ('a file_state_scheme, unit) kres" where
  "trap_resume K tf s = kbind (lk_release PtableLock s) (\<lambda>_ s. exit_if_killed K tf (Ret ()) s)"

definition clock_tick :: "'a sched_state_scheme \<Rightarrow> ('a sched_state_scheme, unit) kres" where
  "clock_tick s =
     kbind (lk_acquire TicksLock s) (\<lambda>_ s.
     kbind (wakeup ChTicks (s\<lparr>ticks := ticks s + 1\<rparr>)) (\<lambda>_ s. lk_release TicksLock s))"

text \<open>\<open>cr2\<close> is the address of a page fault.\<close>

definition bad_trap :: "nat \<Rightarrow> u32 \<Rightarrow> trapframe \<Rightarrow> 'a cons_state_scheme \<Rightarrow> ('a cons_state_scheme, unit) kres" where
  "bad_trap cpu cr2 tf s =
     (case curproc s of
        Some p \<Rightarrow>
          if tf_cs tf AND 3 = 0 then Panic ''trap''
          else
            kbind (cprintf
              (Some (cstr ''pid %d %s: trap %d err %d on cpu %d eip 0x%x addr 0x%x--kill proc'' @ [10]))
              (\<lambda>k. [of_int (p_pid (procs s p)), 0, tf_trapno tf, tf_err tf, of_nat cpu, tf_eip tf, cr2] ! k)
              (\<lambda>_. Some (cstr (p_name (procs s p)))) s) (\<lambda>_ s.
            Ret () (upd_proc p (\<lambda>q. q\<lparr>p_killed := True\<rparr>) s))
      | None \<Rightarrow> Panic ''trap'')"

definition interrupt :: "nat \<Rightarrow> u32 \<Rightarrow> trapframe \<Rightarrow> 'a apic_state_scheme \<Rightarrow> ('a apic_state_scheme, unit) kres option" where
  "interrupt cpu cr2 tf s =
     (let n = tf_trapno tf; eoi = (\<lambda>_ s. Ret () (lapiceoi s)) in
      if n = T_IRQ0 + IRQ_TIMER then Some (kbind (if cpu = 0 then clock_tick s else Ret () s) eoi)
      else if n = T_IRQ0 + IRQ_IDE then Some (eoi () s)
      else if n = T_IRQ0 + IRQ_IDE + 1 then Some (Ret () s)
      else if n = T_IRQ0 + IRQ_KBD then map_option (\<lambda>m. kbind m eoi) (kbdintr s)
      else if n = T_IRQ0 + IRQ_COM1 then map_option (\<lambda>m. kbind m eoi) (uartintr s)
      else if n = T_IRQ0 + 7 \<or> n = T_IRQ0 + IRQ_SPURIOUS then
        Some (kbind (cprintf (Some (cstr ''cpu%d: spurious interrupt at %x:%x'' @ [10]))
            (\<lambda>k. [of_nat cpu, ucast (tf_cs tf), tf_eip tf] ! k) (\<lambda>_. None) s) eoi)
      else Some (bad_trap cpu cr2 tf s))"

definition trap :: "ksyms \<Rightarrow> (nat \<Rightarrow> u32) \<Rightarrow> nat \<Rightarrow> u32 \<Rightarrow> trapframe \<Rightarrow> 'a apic_state_scheme \<Rightarrow>
    ('a apic_state_scheme, unit) kres option" where
  "trap K junk cpu cr2 tf s =
     (if tf_trapno tf = T_SYSCALL then
        (case curproc s of
           None \<Rightarrow> Some null_deref
         | Some p \<Rightarrow>
             if p_killed (procs s p) then Some (exit K s)
             else
               map_option (\<lambda>m. kbind m (\<lambda>_ s.
                   case curproc s of
                     None \<Rightarrow> Ret () s
                   | Some p \<Rightarrow> if p_killed (procs s p) then exit K s else Ret () s))
                 (syscall K junk (set_tf p (\<lambda>_. tf) s)))
      else map_option (\<lambda>m. kbind m (\<lambda>_ s. trap_tail K tf s)) (interrupt cpu cr2 tf s))"

end
