(* ===== verification/Boot.thy ===== *)
theory Boot
  imports Trap
begin

text \<open>
  The start of the kernel on the boot processor (\<open>main.c\<close>): \<open>main\<close> calls the initialisation of every
  component in turn. The other processors are started through the local APIC; what they do then,
  and the wait for them, is not part of the model, which is that of one CPU. \<open>seginit\<close> loads segment
  descriptors and is left out. The image of the disk, the address \<open>epg\<close> of \<open>entrypgdir\<close>, the descriptor table and the code for the
  other processors are arguments.
\<close>

text \<open>Starting processor \<open>c\<close>: a stack, and three words below the code at \<open>0x7000\<close> that tell it
  where to start.\<close>

definition startother :: "u32 \<Rightarrow> u32 \<Rightarrow> nat \<Rightarrow> 'a apic_state_scheme \<Rightarrow> ('a apic_state_scheme, unit) kres" where
  "startother mpenter epg c s =
     (let code = P2V 0x7000 in
      kbind (kalloc s) (\<lambda>stack s.
      let s = set_bytes (code - 4) (word_bytes (stack + KSTACKSIZE)) s;
          s = set_bytes (code - 8) (word_bytes mpenter) s;
          s = set_bytes (code - 12) (word_bytes (V2P epg)) s
      in Ret () (lapicstartap (cpu_apicid s c) (V2P code) s)))"

fun startothers_loop :: "u32 \<Rightarrow> u32 \<Rightarrow> nat \<Rightarrow> nat \<Rightarrow> nat \<Rightarrow> 'a apic_state_scheme \<Rightarrow> ('a apic_state_scheme, unit) kres" where
  "startothers_loop mpenter epg me 0 c s = Ret () s"
| "startothers_loop mpenter epg me (Suc m) c s =
     (if c = me then startothers_loop mpenter epg me m (Suc c) s
      else kbind (startother mpenter epg c s) (\<lambda>_. startothers_loop mpenter epg me m (Suc c)))"

definition startothers :: "u8 list \<Rightarrow> u32 \<Rightarrow> u32 \<Rightarrow> 'a apic_state_scheme \<Rightarrow> ('a apic_state_scheme, unit) kres" where
  "startothers entryother mpenter epg s =
     (let s = set_bytes (P2V 0x7000) entryother s in
      kbind (mycpu 0 s) (\<lambda>me s. startothers_loop mpenter epg me (ncpu s) 0 s))"

definition mpmain :: "'a apic_state_scheme \<Rightarrow> ('a apic_state_scheme, nat option) kres" where
  "mpmain s =
     kbind (cpuid 0 s) (\<lambda>c s.
     kbind (cprintf (Some (cstr ''cpu%d: starting %d'' @ [10])) (\<lambda>_. of_nat c) (\<lambda>_. None) s) (\<lambda>_ s.
     scheduler_round 0 s))"

definition main_tail :: "ksyms \<Rightarrow> u8 list \<Rightarrow> u32 \<Rightarrow> u32 \<Rightarrow> (u32 \<Rightarrow> bytes) \<Rightarrow> u32 \<Rightarrow> (nat \<Rightarrow> u32) \<Rightarrow>
    'a apic_state_scheme \<Rightarrow> ('a apic_state_scheme, nat option) kres" where
  "main_tail K entryother mpenter epg img imgsz vectors s =
     (let s = picinit s in
      kbind (ioapicinit s) (\<lambda>_ s.
      let s = consoleinit (ioapicenable IRQ_KBD 0) s;
          s = uartinit (ioapicenable IRQ_COM1 0) s;
          s = pinit s;
          s = snd (tvinit vectors s);
          s = binit s;
          s = fileinit s;
          s = ideinit_mem img imgsz s
      in kbind (startothers entryother mpenter epg s) (\<lambda>_ s.
         kbind (kinit2 (k_end K) (P2V 0x400000) (P2V PHYSTOP) s) (\<lambda>_ s.
         kbind (userinit K s) (\<lambda>_ s. mpmain s)))))"

definition main :: "ksyms \<Rightarrow> u8 list \<Rightarrow> u32 \<Rightarrow> u32 \<Rightarrow> (u32 \<Rightarrow> bytes) \<Rightarrow> u32 \<Rightarrow> (nat \<Rightarrow> u32) \<Rightarrow>
    'a apic_state_scheme \<Rightarrow> ('a apic_state_scheme, nat option) kres option" where
  "main K entryother mpenter epg img imgsz vectors s =
     (case kbind (kinit1 (k_end K) (k_end K) (P2V 0x400000) s) (\<lambda>_ s. kvmalloc K s) of
        Panic e \<Rightarrow> Some (Panic e)
      | Sleep ch s \<Rightarrow> Some (Sleep ch s)
      | Ret _ s \<Rightarrow>
          (case mpinit s of
             None \<Rightarrow> None
           | Some (Panic e) \<Rightarrow> Some (Panic e)
           | Some (Sleep ch s) \<Rightarrow> Some (Sleep ch s)
           | Some (Ret _ s) \<Rightarrow>
               map_option (main_tail K entryother mpenter epg img imgsz vectors) (lapicinit s)))"

text \<open>The boot page table maps the first 4 Mbyte at address 0 and at \<open>KERNBASE\<close>.\<close>

definition entrypgdir :: "nat \<Rightarrow> u32" where
  "entrypgdir = (\<lambda>i. if i = 0 \<or> i = PDX KERNBASE then PTE_P OR PTE_W OR 0x080 else 0)"

end
