(* ===== verification/Ide.thy ===== *)
theory Ide
  imports Bio Apic
begin

text \<open>
  The driver for an IDE disk (\<open>ide.c\<close>), the alternative to the disk in memory. The queue runs through
  \<open>b_qnext\<close>. The data register transfers a word as its four bytes in the order of memory. Waiting for
  the disk need not end, so the outcome is an \<open>option\<close>. A process that waits for its request has the
  outcome \<open>Sleep\<close>; the interrupt ends the request and wakes it, and it continues with
  \<open>iderw_resume\<close>.
\<close>

section \<open>State\<close>

record ide_state = apic_state +
  idequeue :: "nat option"
  havedisk1 :: bool

abbreviation FSSIZE :: u32 where "FSSIZE \<equiv> 1000"
abbreviation IDE_BSY :: u8 where "IDE_BSY \<equiv> 0x80"
abbreviation IDE_DRDY :: u8 where "IDE_DRDY \<equiv> 0x40"
abbreviation IDE_DF :: u8 where "IDE_DF \<equiv> 0x20"
abbreviation IDE_ERR :: u8 where "IDE_ERR \<equiv> 0x01"
abbreviation IDE_CMD_READ :: u8 where "IDE_CMD_READ \<equiv> 0x20"
abbreviation IDE_CMD_WRITE :: u8 where "IDE_CMD_WRITE \<equiv> 0x30"

section \<open>The driver\<close>

partial_function (option) idewait_loop :: "'a hw_state_scheme \<Rightarrow> (u8 \<times> 'a hw_state_scheme) option" where
  "idewait_loop s =
     (case inb 0x1f7 s of (r, s) \<Rightarrow>
      if r AND (IDE_BSY OR IDE_DRDY) \<noteq> IDE_DRDY then idewait_loop s else Some (r, s))"

definition idewait :: "bool \<Rightarrow> 'a hw_state_scheme \<Rightarrow> (int \<times> 'a hw_state_scheme) option" where
  "idewait checkerr s =
     map_option (\<lambda>(r, s). (if checkerr \<and> r AND (IDE_DF OR IDE_ERR) \<noteq> 0 then - 1 else 0, s)) (idewait_loop s)"

fun detect_disk1 :: "nat \<Rightarrow> 'a ide_state_scheme \<Rightarrow> 'a ide_state_scheme" where
  "detect_disk1 0 s = s"
| "detect_disk1 (Suc n) s =
     (case inb 0x1f7 s of (r, s) \<Rightarrow> if r \<noteq> 0 then s\<lparr>havedisk1 := True\<rparr> else detect_disk1 n s)"

definition ideinit :: "'a ide_state_scheme \<Rightarrow> 'a ide_state_scheme option" where
  "ideinit s =
     (let s = lk_init IdeLock s;
          s = ioapicenable IRQ_IDE (of_nat (ncpu s) - 1) s
      in map_option (\<lambda>(_, s).
           let s = outb 0x1f6 (0xe0 OR push_bit 4 1) s;
               s = detect_disk1 1000 s
           in outb 0x1f6 0xe0 s) (idewait False s))"

definition outsl_bytes :: "u8 list \<Rightarrow> 'a hw_state_scheme \<Rightarrow> 'a hw_state_scheme" where
  "outsl_bytes bs s = fold (outb 0x1f0) bs s"

fun insl_bytes :: "nat \<Rightarrow> 'a hw_state_scheme \<Rightarrow> u8 list \<times> 'a hw_state_scheme" where
  "insl_bytes 0 s = ([], s)"
| "insl_bytes (Suc n) s = (let (b, s) = inb 0x1f0 s; (bs, s) = insl_bytes n s in (b # bs, s))"

text \<open>A block is one sector, so the single-sector commands are used.\<close>

definition idestart :: "nat \<Rightarrow> 'a ide_state_scheme \<Rightarrow> ('a ide_state_scheme, unit) kres option" where
  "idestart i s =
     (let b = bufs s i; sector = b_blockno b in
      if sector \<ge> FSSIZE then Some (Panic ''incorrect blockno'')
      else
        map_option (\<lambda>(_, s).
          let s = outb 0x3f6 0 s;
              s = outb 0x1f2 1 s;
              s = outb 0x1f3 (ucast (sector AND 0xff)) s;
              s = outb 0x1f4 (ucast (drop_bit 8 sector AND 0xff)) s;
              s = outb 0x1f5 (ucast (drop_bit 16 sector AND 0xff)) s;
              s = outb 0x1f6 (0xe0 OR ucast (push_bit 4 (b_dev b AND 1)) OR ucast (drop_bit 24 sector AND 0x0f)) s
          in if b_flags b AND B_DIRTY \<noteq> 0
             then Ret () (outsl_bytes (map (b_data b) [0..<BSIZE]) (outb 0x1f7 IDE_CMD_WRITE s))
             else Ret () (outb 0x1f7 IDE_CMD_READ s)) (idewait False s))"

text \<open>Appending a buffer to the queue: the loop follows \<open>b_qnext\<close> to the last entry; a queue holds
  each of the \<open>NBUF\<close> buffers at most once.\<close>

fun queue_last :: "nat \<Rightarrow> nat \<Rightarrow> (nat \<Rightarrow> buf) \<Rightarrow> nat" where
  "queue_last 0 i bs = i"
| "queue_last (Suc n) i bs = (case b_qnext (bs i) of None \<Rightarrow> i | Some j \<Rightarrow> queue_last n j bs)"

definition enqueue :: "nat \<Rightarrow> 'a ide_state_scheme \<Rightarrow> 'a ide_state_scheme" where
  "enqueue i s =
     (let s = upd_buf i (\<lambda>b. b\<lparr>b_qnext := None\<rparr>) s in
      case idequeue s of
        None \<Rightarrow> s\<lparr>idequeue := Some i\<rparr>
      | Some h \<Rightarrow> upd_buf (queue_last NBUF h (bufs s)) (\<lambda>b. b\<lparr>b_qnext := Some i\<rparr>) s)"

definition obind :: "('s, 'b) kres option \<Rightarrow> ('b \<Rightarrow> 's \<Rightarrow> ('s, 'c) kres option) \<Rightarrow> ('s, 'c) kres option" where
  "obind m f = (case m of None \<Rightarrow> None | Some (Ret a s) \<Rightarrow> f a s | Some (Panic e) \<Rightarrow> Some (Panic e)
     | Some (Sleep c s) \<Rightarrow> Some (Sleep c s))"

definition ideintr :: "'a ide_state_scheme \<Rightarrow> ('a ide_state_scheme, unit) kres option" where
  "ideintr s =
     obind (Some (lk_acquire IdeLock s)) (\<lambda>_ s.
     case idequeue s of
       None \<Rightarrow> Some (lk_release IdeLock s)
     | Some i \<Rightarrow>
         let s = s\<lparr>idequeue := b_qnext (bufs s i)\<rparr> in
         obind (if b_flags (bufs s i) AND B_DIRTY = 0
                then map_option (\<lambda>(r, s).
                    if r \<ge> 0 then
                      let (bs, s) = insl_bytes BSIZE s
                      in Ret () (upd_buf i (\<lambda>b. b\<lparr>b_data := (\<lambda>k. if k < BSIZE then bs ! k else b_data b k)\<rparr>) s)
                    else Ret () s) (idewait True s)
                else Some (Ret () s)) (\<lambda>_ s.
         let s = upd_buf i (\<lambda>b. b\<lparr>b_flags := (b_flags b OR B_VALID) AND NOT B_DIRTY\<rparr>) s
         in obind (Some (wakeup (ChBuf i) s)) (\<lambda>_ s.
            obind (case idequeue s of None \<Rightarrow> Some (Ret () s) | Some j \<Rightarrow> idestart j s) (\<lambda>_ s.
            Some (lk_release IdeLock s)))))"

text \<open>The wait of \<open>iderw\<close>.\<close>

definition iderw_wait :: "nat \<Rightarrow> 'a bio_state_scheme \<Rightarrow> ('a bio_state_scheme, unit) kres" where
  "iderw_wait i s =
     (if b_flags (bufs s i) AND (B_VALID OR B_DIRTY) \<noteq> B_VALID then sleep (ChBuf i) IdeLock s
      else lk_release IdeLock s)"

definition iderw_ide :: "nat \<Rightarrow> 'a ide_state_scheme \<Rightarrow> ('a ide_state_scheme, unit) kres option" where
  "iderw_ide i s =
     obind (Some (holdingsleep (BufLk i) s)) (\<lambda>h s.
     let b = bufs s i in
     if \<not> h then Some (Panic ''iderw: buf not locked'')
     else if b_flags b AND (B_VALID OR B_DIRTY) = B_VALID then Some (Panic ''iderw: nothing to do'')
     else if b_dev b \<noteq> 0 \<and> \<not> havedisk1 s then Some (Panic ''iderw: ide disk 1 not present'')
     else
       obind (Some (lk_acquire IdeLock s)) (\<lambda>_ s.
       let s = enqueue i s in
       obind (if idequeue s = Some i then idestart i s else Some (Ret () s)) (\<lambda>_ s.
       Some (iderw_wait i s))))"

definition iderw_resume :: "nat \<Rightarrow> 'a bio_state_scheme \<Rightarrow> ('a bio_state_scheme, unit) kres" where
  "iderw_resume i s = kbind (sleep_return IdeLock s) (\<lambda>_. iderw_wait i)"

end
