(* ===== verification/Bcache.thy ===== *)
theory Bcache
  imports Bio
begin

text \<open>
  What the buffer cache promises. \<open>lru\<close> is the shape of the doubly linked list, \<open>cache U s\<close> the
  invariant of the cache while the current process has the buffers \<open>U\<close> locked, and
  \<open>content s b\<close> is the content of block \<open>b\<close> as the file system sees it: that of its buffer, or
  of the disk. The laws of \<open>bread\<close>, \<open>bwrite\<close> and \<open>brelse\<close> are the interface \<open>block_store\<close>, through
  which the log uses the cache.
\<close>

section \<open>Rings\<close>

text \<open>\<open>chain f p xs q\<close>: from \<open>p\<close>, following \<open>f\<close> leads through \<open>xs\<close> to \<open>q\<close>.\<close>

fun chain :: "('b \<Rightarrow> 'b) \<Rightarrow> 'b \<Rightarrow> 'b list \<Rightarrow> 'b \<Rightarrow> bool" where
  "chain f p [] q \<longleftrightarrow> f p = q"
| "chain f p (x # xs) q \<longleftrightarrow> f p = x \<and> chain f x xs q"

lemma chain_append: "chain f p (xs @ x # ys) q \<longleftrightarrow> chain f p xs x \<and> chain f x ys q"
  by (induction xs arbitrary: p) auto

lemma chain_cong: "(\<And>y. y \<in> set (p # xs) \<Longrightarrow> f y = g y) \<Longrightarrow> chain f p xs q = chain g p xs q"
  by (induction xs arbitrary: p) auto

lemma chain_first: "chain f p xs q \<Longrightarrow> f p = hd (xs @ [q])"
  by (cases xs) auto

lemma chain_redirect:
  "chain f p xs q \<Longrightarrow> distinct (p # xs) \<Longrightarrow> chain (f(last (p # xs) := r)) p xs r"
proof (induction xs arbitrary: p)
  case (Cons x xs)
  let ?l = "last (x # xs)"
  have IH: "chain (f(?l := r)) x xs r" using Cons.prems by (intro Cons.IH) auto
  have "?l \<in> set (x # xs)" by (rule last_in_set) simp
  with Cons.prems have "?l \<noteq> p" by auto
  then have "(f(?l := r)) p = x" using Cons.prems by auto
  moreover have "last (p # x # xs) = ?l" by simp
  ultimately show ?case using IH by (simp only: chain.simps simp_thms)
qed simp

lemma chain_join:
  assumes "chain f p xs r" and "chain f x ys q" and "f x = r"
  shows "chain f p (xs @ ys) q"
proof (cases ys)
  case Nil
  with assms show ?thesis by simp
next
  case (Cons y zs)
  with assms show ?thesis by (simp add: chain_append)
qed

lemma chain_remove:
  assumes "chain f p (xs @ x # ys) q" and "distinct (p # xs @ x # ys)"
  shows "chain (f(last (p # xs) := f x)) p (xs @ ys) q"
proof (rule chain_join)
  have l: "last (p # xs) \<in> set (p # xs)" by (rule last_in_set) simp
  then have ne: "last (p # xs) \<notin> set (x # ys)" using assms(2) by auto
  from assms(1) have c: "chain f p xs x" "chain f x ys q" by (simp_all add: chain_append)
  from chain_redirect [OF c(1)] assms(2) show "chain (f(last (p # xs) := f x)) p xs (f x)" by simp
  have "chain (f(last (p # xs) := f x)) x ys q = chain f x ys q"
    by (rule chain_cong) (use ne in auto)
  with c(2) show "chain (f(last (p # xs) := f x)) x ys q" by simp
  show "(f(last (p # xs) := f x)) x = f x" using ne by auto
qed

lemma chain_push:
  assumes "chain f p xs q" and "x \<notin> set (p # xs)" and "distinct (p # xs)"
  shows "chain (f(x := f p, p := x)) p (x # xs) q"
proof (cases xs)
  case Nil
  with assms show ?thesis by auto
next
  case (Cons y ys)
  have "chain (f(x := f p, p := x)) y ys q = chain f y ys q"
    by (rule chain_cong) (use assms Cons in auto)
  with assms Cons show ?thesis by auto
qed

lemma chain_snoc:
  assumes "chain f p xs q" and "x \<notin> set (p # xs)" and "distinct (p # xs)"
  shows "chain (f(x := q, last (p # xs) := x)) p (xs @ [x]) q"
proof -
  have l: "last (p # xs) \<in> set (p # xs)" by (rule last_in_set) simp
  from chain_redirect [OF assms(1,3)] have "chain (f(last (p # xs) := x)) p xs x" .
  moreover have "chain (f(last (p # xs) := x)) p xs x = chain (f(x := q, last (p # xs) := x)) p xs x"
    by (rule chain_cong) (use assms(2) in auto)
  ultimately show ?thesis using l assms(2) by (auto simp: chain_append)
qed

section \<open>The list of buffers\<close>

definition lru :: "(nat \<Rightarrow> buf) \<Rightarrow> nat list \<Rightarrow> bool" where
  "lru bs xs \<longleftrightarrow> distinct xs \<and> set xs = {..<NBUF} \<and>
     chain (\<lambda>i. b_next (bs i)) NBUF xs NBUF \<and> chain (\<lambda>i. b_prev (bs i)) NBUF (rev xs) NBUF"

lemma lru_cong:
  assumes "\<And>i. b_next (bs i) = b_next (cs i)" and "\<And>i. b_prev (bs i) = b_prev (cs i)"
  shows "lru bs xs = lru cs xs"
  using assms by (simp add: lru_def)

lemma buf_find_chain:
  "chain (\<lambda>i. nx (bs i)) p xs NBUF \<Longrightarrow> NBUF \<notin> set xs \<Longrightarrow> length xs \<le> n \<Longrightarrow>
    buf_find nx P n (nx (bs p)) bs = find (\<lambda>i. P (bs i)) xs"
proof (induction xs arbitrary: p n)
  case Nil
  then show ?case by (cases n) auto
next
  case (Cons x xs)
  then obtain m where n: "n = Suc m" and "length xs \<le> m" by (cases n) auto
  with Cons have "buf_find nx P m (nx (bs x)) bs = find (\<lambda>i. P (bs i)) xs" by simp
  with n Cons.prems show ?case by auto
qed

lemma lru_length: "lru bs xs \<Longrightarrow> length xs = NBUF \<and> NBUF \<notin> set xs"
  using distinct_card [of xs] by (auto simp: lru_def)

lemma lru_find_next: "lru bs xs \<Longrightarrow> buf_find b_next P NBUF (b_next (bs NBUF)) bs = find (\<lambda>i. P (bs i)) xs"
  using lru_length [of bs xs] by (intro buf_find_chain) (auto simp: lru_def)

lemma lru_find_prev: "lru bs xs \<Longrightarrow> buf_find b_prev P NBUF (b_prev (bs NBUF)) bs = find (\<lambda>i. P (bs i)) (rev xs)"
  using lru_length [of bs xs] by (intro buf_find_chain) (auto simp: lru_def)

lemma bufs_upd_buf [simp]: "bufs (upd_buf i f s) = (bufs s)(i := f (bufs s i))"
  by (simp add: upd_buf_def)

text \<open>Taking a buffer out of the list and putting it at the front, as \<open>brelse\<close> does.\<close>

definition unlinked :: "nat \<Rightarrow> (nat \<Rightarrow> buf) \<Rightarrow> nat \<Rightarrow> buf" where
  "unlinked i bs =
     (let bs = bs(b_next (bs i) := (bs (b_next (bs i)))\<lparr>b_prev := b_prev (bs i)\<rparr>)
      in bs(b_prev (bs i) := (bs (b_prev (bs i)))\<lparr>b_next := b_next (bs i)\<rparr>))"

definition linked :: "nat \<Rightarrow> (nat \<Rightarrow> buf) \<Rightarrow> nat \<Rightarrow> buf" where
  "linked i bs =
     (let bs = bs(i := (bs i)\<lparr>b_next := b_next (bs NBUF)\<rparr>);
          bs = bs(i := (bs i)\<lparr>b_prev := NBUF\<rparr>);
          bs = bs(b_next (bs NBUF) := (bs (b_next (bs NBUF)))\<lparr>b_prev := i\<rparr>)
      in bs(NBUF := (bs NBUF)\<lparr>b_next := i\<rparr>))"

lemma bufs_unlink_buf: "unlink_buf i s = s\<lparr>bufs := unlinked i (bufs s)\<rparr>"
  by (simp add: unlink_buf_def unlinked_def upd_buf_def Let_def)

lemma bufs_link_front: "link_front i s = s\<lparr>bufs := linked i (bufs s)\<rparr>"
  by (simp add: link_front_def linked_def upd_buf_def Let_def)

lemma unlinked_fields:
  "b_data (unlinked i bs j) = b_data (bs j)" "b_flags (unlinked i bs j) = b_flags (bs j)"
  "b_dev (unlinked i bs j) = b_dev (bs j)" "b_blockno (unlinked i bs j) = b_blockno (bs j)"
  "b_refcnt (unlinked i bs j) = b_refcnt (bs j)"
  by (simp_all add: unlinked_def Let_def)

lemma linked_fields:
  "b_data (linked i bs j) = b_data (bs j)" "b_flags (linked i bs j) = b_flags (bs j)"
  "b_dev (linked i bs j) = b_dev (bs j)" "b_blockno (linked i bs j) = b_blockno (bs j)"
  "b_refcnt (linked i bs j) = b_refcnt (bs j)"
  by (simp_all add: linked_def Let_def)

lemmas link_fields = unlinked_fields linked_fields

lemma last_rev_hd: "last (p # rev xs) = hd (xs @ [p])"
  by (cases xs) auto

lemma unlinked_ring:
  assumes "chain (\<lambda>j. b_next (bs j)) NBUF (ys @ i # zs) NBUF" (is "chain ?N _ _ _")
    and "chain (\<lambda>j. b_prev (bs j)) NBUF (rev (ys @ i # zs)) NBUF" (is "chain ?P _ _ _")
    and d: "distinct (NBUF # ys @ i # zs)"
  shows "chain (\<lambda>j. b_next (unlinked i bs j)) NBUF (ys @ zs) NBUF \<and>
    chain (\<lambda>j. b_prev (unlinked i bs j)) NBUF (rev (ys @ zs)) NBUF"
proof -
  from assms(1) have "chain ?N i zs NBUF" by (simp add: chain_append)
  from chain_first [OF this] have N: "?N i = last (NBUF # rev zs)" unfolding last_rev_hd .
  from assms(2) have P': "chain ?P NBUF (rev zs @ i # rev ys) NBUF" by simp
  then have "chain ?P i (rev ys) NBUF" by (simp add: chain_append)
  from chain_first [OF this] have P: "?P i = last (NBUF # ys)" using last_rev_hd [of NBUF "rev ys"] by simp
  have "last (NBUF # rev zs) \<in> set (NBUF # rev zs)" by (rule last_in_set) simp
  with d N have ne: "?N i \<noteq> i" by auto
  have next': "(\<lambda>j. b_next (unlinked i bs j)) = ?N(last (NBUF # ys) := ?N i)"
    unfolding P [symmetric] using ne by (auto simp: unlinked_def Let_def fun_eq_iff)
  have prev': "(\<lambda>j. b_prev (unlinked i bs j)) = ?P(last (NBUF # rev zs) := ?P i)"
    unfolding N [symmetric] using ne by (auto simp: unlinked_def Let_def fun_eq_iff)
  have "chain (?N(last (NBUF # ys) := ?N i)) NBUF (ys @ zs) NBUF"
    by (rule chain_remove [OF assms(1) d])
  moreover have "distinct (NBUF # rev zs @ i # rev ys)" using d by auto
  from chain_remove [OF P' this] have "chain (?P(last (NBUF # rev zs) := ?P i)) NBUF (rev zs @ rev ys) NBUF" .
  ultimately show ?thesis unfolding next' prev' by simp
qed

lemma linked_ring:
  assumes "chain (\<lambda>j. b_next (bs j)) NBUF xs NBUF" (is "chain ?N _ _ _")
    and "chain (\<lambda>j. b_prev (bs j)) NBUF (rev xs) NBUF" (is "chain ?P _ _ _")
    and d: "distinct (NBUF # i # xs)"
  shows "chain (\<lambda>j. b_next (linked i bs j)) NBUF (i # xs) NBUF \<and>
    chain (\<lambda>j. b_prev (linked i bs j)) NBUF (rev (i # xs)) NBUF"
proof -
  have N: "?N NBUF = last (NBUF # rev xs)" using chain_first [OF assms(1)] unfolding last_rev_hd .
  have "last (NBUF # rev xs) \<in> set (NBUF # rev xs)" by (rule last_in_set) simp
  with d N have ne: "?N NBUF \<noteq> i" "i \<noteq> NBUF" by auto
  have next': "(\<lambda>j. b_next (linked i bs j)) = ?N(i := ?N NBUF, NBUF := i)"
    using ne by (auto simp: linked_def Let_def fun_eq_iff)
  have prev': "(\<lambda>j. b_prev (linked i bs j)) = ?P(i := NBUF, last (NBUF # rev xs) := i)"
    unfolding N [symmetric] using ne by (auto simp: linked_def Let_def fun_eq_iff)
  have "chain (?N(i := ?N NBUF, NBUF := i)) NBUF (i # xs) NBUF"
    by (rule chain_push [OF assms(1)]) (use d in auto)
  moreover have "chain (?P(i := NBUF, last (NBUF # rev xs) := i)) NBUF (rev xs @ [i]) NBUF"
    by (rule chain_snoc [OF assms(2)]) (use d in auto)
  ultimately show ?thesis unfolding next' prev' by simp
qed

text \<open>Releasing a buffer moves it to the front of the list.\<close>

lemma lru_move_front:
  assumes "lru bs xs" and "i < NBUF"
  shows "lru (linked i (unlinked i bs)) (i # remove1 i xs)"
proof -
  have "i \<in> set xs" using assms by (simp add: lru_def)
  then obtain ys zs where xs: "xs = ys @ i # zs" by (auto dest: split_list)
  have d: "distinct (NBUF # xs)" using assms(1) by (auto simp: lru_def)
  then have r: "remove1 i xs = ys @ zs" using xs by (simp add: remove1_append)
  have "chain (\<lambda>j. b_next (bs j)) NBUF (ys @ i # zs) NBUF" "chain (\<lambda>j. b_prev (bs j)) NBUF (rev (ys @ i # zs)) NBUF"
    using assms(1) unfolding lru_def xs by blast+
  from unlinked_ring [OF this] d have
    "chain (\<lambda>j. b_next (unlinked i bs j)) NBUF (ys @ zs) NBUF"
    "chain (\<lambda>j. b_prev (unlinked i bs j)) NBUF (rev (ys @ zs)) NBUF" unfolding xs by blast+
  from linked_ring [OF this] d have
    "chain (\<lambda>j. b_next (linked i (unlinked i bs) j)) NBUF (i # ys @ zs) NBUF \<and>
     chain (\<lambda>j. b_prev (linked i (unlinked i bs) j)) NBUF (rev (i # ys @ zs)) NBUF" unfolding xs by auto
  moreover have "distinct (i # ys @ zs)" "set (i # ys @ zs) = {..<NBUF}"
    using assms(1) unfolding lru_def xs by auto
  ultimately show ?thesis unfolding lru_def r by blast
qed

section \<open>The invariant\<close>

definition dirty :: "'a bio_state_scheme \<Rightarrow> nat \<Rightarrow> bool" where
  "dirty s i \<longleftrightarrow> b_flags (bufs s i) AND B_DIRTY \<noteq> 0"

definition holds :: "'a bio_state_scheme \<Rightarrow> nat \<Rightarrow> u32 \<Rightarrow> bool" where
  "holds s i b \<longleftrightarrow> i < NBUF \<and> b_dev (bufs s i) = 1 \<and> b_blockno (bufs s i) = b"

definition content :: "'a bio_state_scheme \<Rightarrow> u32 \<Rightarrow> bytes" where
  "content s b = (case scan (\<lambda>i. holds s i b) NBUF 0 of Some i \<Rightarrow> b_data (bufs s i) | None \<Rightarrow> disk s b)"

definition cache :: "nat set \<Rightarrow> 'a bio_state_scheme \<Rightarrow> bool" where
  "cache U s \<longleftrightarrow> U \<subseteq> {..<NBUF} \<and> held s = {} \<and>
     (\<exists>p. curproc s = Some p \<and> (\<forall>i\<in>U. sl_pid (slk s (BufLk i)) = p_pid (procs s p))) \<and>
     (\<exists>xs. lru (bufs s) xs) \<and>
     (\<forall>i<NBUF. b_refcnt (bufs s i) = (if i \<in> U then 1 else 0) \<and> sl_locked (slk s (BufLk i)) = (i \<in> U)) \<and>
     (\<forall>i j b. holds s i b \<longrightarrow> holds s j b \<longrightarrow> i = j) \<and>
     (\<forall>i b. holds s i b \<longrightarrow> b_flags (bufs s i) AND B_VALID \<noteq> 0) \<and>
     (\<forall>i<NBUF. dirty s i \<longrightarrow> b_dev (bufs s i) = 1) \<and>
     (\<forall>i b. holds s i b \<longrightarrow> i \<notin> U \<longrightarrow> \<not> dirty s i \<longrightarrow> b_data (bufs s i) = disk s b)"

text \<open>What the operations may change.\<close>

definition bframe :: "'a bio_state_scheme \<Rightarrow> 'a bio_state_scheme \<Rightarrow> bool" where
  "bframe s t \<longleftrightarrow> (\<exists>ps sl bs ws. t = s\<lparr>procs := ps, slk := sl, bufs := bs, dwrites := ws\<rparr>)"

lemma bframeI: "t = s\<lparr>procs := ps, slk := sl, bufs := bs, dwrites := ws\<rparr> \<Longrightarrow> bframe s t"
  unfolding bframe_def by blast

lemma bframeE:
  assumes "bframe s t"
  obtains ps sl bs ws where "t = s\<lparr>procs := ps, slk := sl, bufs := bs, dwrites := ws\<rparr>"
  using assms unfolding bframe_def by blast

lemma bframe_refl: "bframe s s"
  by (rule bframeI [where ps = "procs s" and sl = "slk s" and bs = "bufs s" and ws = "dwrites s"]) simp

lemma bframe_trans: "bframe s t \<Longrightarrow> bframe t u \<Longrightarrow> bframe s u"
proof (elim bframeE)
  fix ps sl bs ws ps' sl' bs' ws'
  assume t: "t = s\<lparr>procs := ps, slk := sl, bufs := bs, dwrites := ws\<rparr>"
    and "u = t\<lparr>procs := ps', slk := sl', bufs := bs', dwrites := ws'\<rparr>"
  then show "bframe s u" by (intro bframeI [where ps = ps' and sl = sl' and bs = bs' and ws = ws']) simp
qed

lemma cacheD:
  assumes "cache U s"
  shows "U \<subseteq> {..<NBUF}" and "held s = {}"
    and "\<exists>p. curproc s = Some p \<and> (\<forall>i\<in>U. sl_pid (slk s (BufLk i)) = p_pid (procs s p))"
    and "\<exists>xs. lru (bufs s) xs"
    and "\<And>i. i < NBUF \<Longrightarrow> b_refcnt (bufs s i) = (if i \<in> U then 1 else 0)"
    and "\<And>i. i < NBUF \<Longrightarrow> sl_locked (slk s (BufLk i)) = (i \<in> U)"
    and "\<And>i b. holds s i b \<Longrightarrow> b_flags (bufs s i) AND B_VALID \<noteq> 0"
    and "\<And>i. i < NBUF \<Longrightarrow> dirty s i \<Longrightarrow> b_dev (bufs s i) = 1"
    and "\<And>i b. holds s i b \<Longrightarrow> i \<notin> U \<Longrightarrow> \<not> dirty s i \<Longrightarrow> b_data (bufs s i) = disk s b"
  using assms unfolding cache_def by blast+

lemma cacheI:
  assumes "U \<subseteq> {..<NBUF}" and "held s = {}" and "curproc s = Some p"
    and "\<And>i. i \<in> U \<Longrightarrow> sl_pid (slk s (BufLk i)) = p_pid (procs s p)"
    and "lru (bufs s) xs"
    and "\<And>i. i < NBUF \<Longrightarrow> b_refcnt (bufs s i) = (if i \<in> U then 1 else 0)"
    and "\<And>i. i < NBUF \<Longrightarrow> sl_locked (slk s (BufLk i)) = (i \<in> U)"
    and "\<And>i j b. holds s i b \<Longrightarrow> holds s j b \<Longrightarrow> i = j"
    and "\<And>i b. holds s i b \<Longrightarrow> b_flags (bufs s i) AND B_VALID \<noteq> 0"
    and "\<And>i. i < NBUF \<Longrightarrow> dirty s i \<Longrightarrow> b_dev (bufs s i) = 1"
    and "\<And>i b. holds s i b \<Longrightarrow> i \<notin> U \<Longrightarrow> \<not> dirty s i \<Longrightarrow> b_data (bufs s i) = disk s b"
  shows "cache U s"
  unfolding cache_def
  by (intro conjI exI [of _ p] exI [of _ xs] allI impI ballI) (use assms in \<open>blast+\<close>)

lemma holds_unique: "cache U s \<Longrightarrow> holds s i b \<Longrightarrow> holds s j b \<Longrightarrow> i = j"
  unfolding cache_def by blast

lemma content_holds:
  assumes "cache U s" and "holds s i b"
  shows "content s b = b_data (bufs s i)"
proof (cases "scan (\<lambda>i. holds s i b) NBUF 0")
  case None
  with assms(2) show ?thesis unfolding scan_None_iff holds_def by auto
next
  case (Some j)
  then have "holds s j b" by (auto dest: scan_SomeD)
  with assms have "j = i" by (blast intro: holds_unique)
  with Some show ?thesis by (simp add: content_def)
qed

lemma content_not_held:
  assumes "\<And>i. \<not> holds s i b"
  shows "content s b = disk s b"
proof -
  have "scan (\<lambda>i. holds s i b) NBUF 0 = None" unfolding scan_None_iff using assms by simp
  then show ?thesis by (simp add: content_def)
qed

section \<open>Locking a buffer\<close>

lemma held_same: "held s = h \<Longrightarrow> s\<lparr>held := h\<rparr> = s"
  by auto

lemma acquiresleep_own:
  assumes "held s = {}" and "curproc s = Some p" and "\<not> sl_locked (slk s l)"
  shows "acquiresleep l s = Ret () (s\<lparr>slk := (slk s)(l := \<lparr>sl_locked = True, sl_pid = p_pid (procs s p)\<rparr>)\<rparr>)"
  using assms held_same [of "s\<lparr>slk := sl\<rparr>" "{}" for sl] by (simp add: acquiresleep_def acquiresleep_loop_def)

lemma holdingsleep_own:
  assumes "held s = {}" and "curproc s = Some p" and "sl_locked (slk s l)" and "sl_pid (slk s l) = p_pid (procs s p)"
  shows "holdingsleep l s = Ret True s"
  using assms held_same [of s "{}"] by (simp add: holdingsleep_def)

lemma releasesleep_own:
  assumes "held s = {}"
  shows "releasesleep l s =
    Ret () (wakeup1 (ChSleeplock l) (s\<lparr>slk := (slk s)(l := \<lparr>sl_locked = False, sl_pid = 0\<rparr>)\<rparr>))"
proof -
  let ?t = "s\<lparr>slk := (slk s)(l := \<lparr>sl_locked = False, sl_pid = 0\<rparr>)\<rparr>"
  let ?u = "s\<lparr>held := {SleepLk l}, slk := (slk s)(l := \<lparr>sl_locked = False, sl_pid = 0\<rparr>)\<rparr>"
  have "wakeup (ChSleeplock l) ?u = Ret () (wakeup1 (ChSleeplock l) ?u)"
    by (rule wakeup_eq) simp
  moreover have "(wakeup1 (ChSleeplock l) ?u)\<lparr>held := {}\<rparr> =
      (wakeup1 (ChSleeplock l) ?t)\<lparr>held := {}\<rparr>"
    by (simp add: wakeup1_def)
  moreover have "(wakeup1 (ChSleeplock l) ?t)\<lparr>held := {}\<rparr> = wakeup1 (ChSleeplock l) ?t"
    by (rule held_same) (simp add: assms)
  ultimately show ?thesis using assms by (simp add: releasesleep_def)
qed

section \<open>Reading a block\<close>

abbreviation own :: "nat \<Rightarrow> 'a bio_state_scheme \<Rightarrow> 'a bio_state_scheme" where
  "own i s \<equiv> s\<lparr>slk := (slk s)(BufLk i := \<lparr>sl_locked = True, sl_pid = p_pid (procs s (the (curproc s)))\<rparr>)\<rparr>"

lemma find_SomeD: "find P xs = Some y \<Longrightarrow> y \<in> set xs \<and> P y"
  by (induction xs) (auto split: if_splits)

lemma find_unique:
  assumes "x \<in> set xs" and "P x" and "\<And>y. y \<in> set xs \<Longrightarrow> P y \<Longrightarrow> y = x"
  shows "find P xs = Some x"
proof (cases "find P xs")
  case None
  with assms(1,2) show ?thesis by (auto simp: find_None_iff)
next
  case (Some y)
  then have "y \<in> set xs" "P y" by (auto dest: find_SomeD)
  then have "y = x" by (rule assms(3))
  with Some show ?thesis by simp
qed

lemma bget_hit:
  assumes c: "cache U s" and h: "holds s i b" and "i \<notin> U"
  shows "bget 1 b s = Ret i (own i (s\<lparr>bufs := (bufs s)(i := (bufs s i)\<lparr>b_refcnt := 1\<rparr>)\<rparr>))"
proof -
  obtain xs p where l: "lru (bufs s) xs" and p: "curproc s = Some p" using cacheD(3,4) [OF c] by blast
  note held = cacheD(2) [OF c]
  have i: "i < NBUF" using h by (simp add: holds_def)
  then have r: "b_refcnt (bufs s i) = 0" "\<not> sl_locked (slk s (BufLk i))"
    using cacheD(5,6) [OF c] assms(3) by simp_all
  have "find (\<lambda>j. b_dev (bufs s j) = 1 \<and> b_blockno (bufs s j) = b) xs = Some i"
  proof (rule find_unique)
    show "j = i" if "j \<in> set xs" "b_dev (bufs s j) = 1 \<and> b_blockno (bufs s j) = b" for j
      using that l by (intro holds_unique [OF c _ h]) (simp add: holds_def lru_def)
  qed (use i h l in \<open>auto simp: lru_def holds_def\<close>)
  then have f: "buf_find b_next (\<lambda>j. b_dev j = 1 \<and> b_blockno j = b) NBUF (b_next (bufs s NBUF)) (bufs s) = Some i"
    by (simp add: lru_find_next [OF l])
  have "s\<lparr>held := {}, bufs := bs\<rparr> = s\<lparr>bufs := bs\<rparr>" for bs using held_same [of "s\<lparr>bufs := bs\<rparr>" "{}"] held by simp
  then show ?thesis using held p i r f by (simp add: bget_def upd_buf_def acquiresleep_own)
qed

lemma bget_miss:
  assumes c: "cache U s" and "\<And>i. \<not> holds s i b" and "\<exists>i<NBUF. i \<notin> U \<and> \<not> dirty s i"
  shows "\<exists>i<NBUF. i \<notin> U \<and> \<not> dirty s i \<and> bget 1 b s = Ret i (own i (s\<lparr>bufs := (bufs s)
    (i := (bufs s i)\<lparr>b_dev := 1, b_blockno := b, b_flags := 0, b_refcnt := 1\<rparr>)\<rparr>))"
proof -
  obtain xs p where l: "lru (bufs s) xs" and p: "curproc s = Some p" using cacheD(3,4) [OF c] by blast
  note held = cacheD(2) [OF c] and r = cacheD(5,6) [OF c]
  have xs: "set xs = {..<NBUF}" using l by (simp add: lru_def)
  have "find (\<lambda>j. b_dev (bufs s j) = 1 \<and> b_blockno (bufs s j) = b) xs = None"
    unfolding find_None_iff using assms(2) xs by (auto simp: holds_def)
  then have f1: "buf_find b_next (\<lambda>j. b_dev j = 1 \<and> b_blockno j = b) NBUF (b_next (bufs s NBUF)) (bufs s) = None"
    by (simp add: lru_find_next [OF l])
  let ?P = "\<lambda>j. b_refcnt (bufs s j) = 0 \<and> b_flags (bufs s j) AND B_DIRTY = 0"
  obtain i where i: "find ?P (rev xs) = Some i"
  proof (cases "find ?P (rev xs)")
    case None
    from assms(3) obtain k where k: "k < NBUF" "k \<notin> U" "\<not> dirty s k" by blast
    then have "?P k" using r(1) [of k] by (simp add: dirty_def)
    moreover have "k \<in> set (rev xs)" using k(1) xs by simp
    ultimately show thesis using None unfolding find_None_iff by blast
  next
    case (Some i)
    then show thesis by (rule that)
  qed
  then have i2: "i \<in> set (rev xs)" "?P i" using find_SomeD [OF i] by blast+
  then have lt: "i < NBUF" using xs by simp
  with i2 r [of i] have j: "i < NBUF" "i \<notin> U" "\<not> dirty s i" "\<not> sl_locked (slk s (BufLk i))"
    by (simp_all add: dirty_def split: if_splits)
  have f2: "buf_find b_prev (\<lambda>j. b_refcnt j = 0 \<and> b_flags j AND B_DIRTY = 0) NBUF (b_prev (bufs s NBUF)) (bufs s) = Some i"
    using i by (simp add: lru_find_prev [OF l])
  have eq: "s\<lparr>held := {}, bufs := bs\<rparr> = s\<lparr>bufs := bs\<rparr>" for bs
    using held_same [of "s\<lparr>bufs := bs\<rparr>" "{}"] held by simp
  have "bget 1 b s = Ret i (own i (s\<lparr>bufs := (bufs s)
      (i := (bufs s i)\<lparr>b_dev := 1, b_blockno := b, b_flags := 0, b_refcnt := 1\<rparr>)\<rparr>))"
    using held p j f1 f2 eq by (simp add: bget_def upd_buf_def acquiresleep_own)
  with j show ?thesis by blast
qed

text \<open>The buffer that \<open>bread\<close> returns: that of the block, or one that is free and clean and gets the
  content of the disk.\<close>

definition fetched :: "'a bio_state_scheme \<Rightarrow> nat \<Rightarrow> u32 \<Rightarrow> buf \<Rightarrow> bool" where
  "fetched s i b nb \<longleftrightarrow> b_refcnt nb = 1 \<and> b_dev nb = 1 \<and> b_blockno nb = b \<and> b_flags nb AND B_VALID \<noteq> 0 \<and>
     b_next nb = b_next (bufs s i) \<and> b_prev nb = b_prev (bufs s i) \<and>
     (b_flags nb AND B_DIRTY \<noteq> 0 \<longleftrightarrow> dirty s i) \<and>
     (holds s i b \<and> b_data nb = b_data (bufs s i) \<or>
      (\<forall>j. \<not> holds s j b) \<and> \<not> dirty s i \<and> b_data nb = disk s b)"

lemma bufs_slk_commute: "s\<lparr>bufs := bs, slk := sl\<rparr> = (s\<lparr>slk := sl, bufs := bs\<rparr> :: 'a bio_state_scheme)"
  by (rule bio_state.equality) simp_all

lemma bread_result:
  assumes c: "cache U s" and "b < disksize s" and "\<And>i. i \<in> U \<Longrightarrow> \<not> holds s i b"
    and "(\<exists>i. holds s i b) \<or> (\<exists>i<NBUF. i \<notin> U \<and> \<not> dirty s i)"
  shows "\<exists>i nb. i < NBUF \<and> i \<notin> U \<and> fetched s i b nb \<and>
    bread 1 b s = Ret i (own i (s\<lparr>bufs := (bufs s)(i := nb)\<rparr>))"
proof (cases "\<exists>i. holds s i b")
  case True
  then obtain i where h: "holds s i b" by blast
  then have i: "i < NBUF" "i \<notin> U" "b_flags (bufs s i) AND B_VALID \<noteq> 0"
    using assms(3) cacheD(7) [OF c] by (auto simp: holds_def)
  let ?nb = "(bufs s i)\<lparr>b_refcnt := 1\<rparr>"
  have "fetched s i b ?nb" using h i by (simp add: fetched_def holds_def dirty_def)
  moreover have "bread 1 b s = Ret i (own i (s\<lparr>bufs := (bufs s)(i := ?nb)\<rparr>))"
    using i by (simp add: bread_def bget_hit [OF c h])
  ultimately show ?thesis using i by blast
next
  case False
  then have n: "\<And>i. \<not> holds s i b" by blast
  with assms(4) have "\<exists>i<NBUF. i \<notin> U \<and> \<not> dirty s i" by blast
  from bget_miss [OF c n this] obtain i where i: "i < NBUF" "i \<notin> U" "\<not> dirty s i"
    and g: "bget 1 b s = Ret i (own i (s\<lparr>bufs := (bufs s)
      (i := (bufs s i)\<lparr>b_dev := 1, b_blockno := b, b_flags := 0, b_refcnt := 1\<rparr>)\<rparr>))" by blast
  obtain p where p: "curproc s = Some p" using cacheD(3) [OF c] by blast
  let ?nb = "(bufs s i)\<lparr>b_dev := 1, b_blockno := b, b_refcnt := 1, b_data := disk s b, b_flags := B_VALID\<rparr>"
  have "fetched s i b ?nb" using i n by (simp add: fetched_def)
  moreover have "bread 1 b s = Ret i (own i (s\<lparr>bufs := (bufs s)(i := ?nb)\<rparr>))"
    using p assms(2) cacheD(2) [OF c]
    by (simp add: bread_def g iderw_def holdingsleep_own upd_buf_def Let_def linorder_not_le bufs_slk_commute)
  ultimately show ?thesis using i by blast
qed

lemma grab_holds:
  assumes "fetched s i b nb" and "i < NBUF"
  shows "holds (own i (s\<lparr>bufs := (bufs s)(i := nb)\<rparr>)) j c \<longleftrightarrow> (if j = i then c = b else holds s j c)"
  using assms by (auto simp: holds_def fetched_def)

lemma grab_cache:
  assumes c: "cache U s" and i: "i < NBUF" "i \<notin> U" and f: "fetched s i b nb"
  defines "t \<equiv> own i (s\<lparr>bufs := (bufs s)(i := nb)\<rparr>)"
  shows "cache (insert i U) t"
proof -
  obtain p where p: "curproc s = Some p" "\<forall>i\<in>U. sl_pid (slk s (BufLk i)) = p_pid (procs s p)"
    using cacheD(3) [OF c] by blast
  note h = grab_holds [OF f i(1), folded t_def]
  obtain xs where "lru (bufs s) xs" using cacheD(4) [OF c] by blast
  then have "lru (bufs t) xs" using f by (subst lru_cong [of _ "bufs s"]) (auto simp: t_def fetched_def)
  moreover have "dirty t j \<longleftrightarrow> dirty s j" for j using f by (simp add: dirty_def t_def fetched_def)
  moreover have "j = k" if "holds t j d" "holds t k d" for j k d
  proof -
    have "\<not> holds s l b \<or> l = i" for l using f holds_unique [OF c] unfolding fetched_def by blast
    with that show ?thesis unfolding h using holds_unique [OF c] by (metis (full_types))
  qed
  moreover have "b_flags (bufs t j) AND B_VALID \<noteq> 0" if "holds t j d" for j d
    using that f cacheD(7) [OF c, of j d] unfolding h by (auto simp: t_def fetched_def split: if_splits)
  moreover have "b_dev (bufs t j) = 1" if "j < NBUF" "dirty s j" for j
    using that f cacheD(8) [OF c, of j] by (auto simp: t_def fetched_def)
  moreover have "b_data (bufs t j) = disk t d" if "holds t j d" "j \<notin> insert i U" "\<not> dirty s j" for j d
    using that cacheD(9) [OF c, of j d] unfolding h by (simp add: t_def)
  moreover have "b_refcnt (bufs t j) = (if j \<in> insert i U then 1 else 0)"
    "sl_locked (slk t (BufLk j)) = (j \<in> insert i U)" if "j < NBUF" for j
    using that f cacheD(5,6) [OF c, of j] by (auto simp: t_def fetched_def)
  moreover have "curproc t = Some p" "\<forall>j\<in>insert i U. sl_pid (slk t (BufLk j)) = p_pid (procs t p)"
    using p by (auto simp: t_def)
  moreover have "held t = {}" "insert i U \<subseteq> {..<NBUF}"
    using cacheD(1,2) [OF c] i by (auto simp: t_def)
  ultimately show ?thesis unfolding cache_def by blast
qed

lemma grab_content:
  assumes c: "cache U s" and i: "i < NBUF" "i \<notin> U" and f: "fetched s i b nb"
  defines "t \<equiv> own i (s\<lparr>bufs := (bufs s)(i := nb)\<rparr>)"
  shows "content t = content s"
proof
  fix d
  note c' = grab_cache [OF c i f, folded t_def] and h = grab_holds [OF f i(1), folded t_def]
  have b: "b_data nb = content s b"
    using f content_holds [OF c] content_not_held [of s b] unfolding fetched_def by metis
  consider "d = b" | j where "d \<noteq> b" "holds s j d" "j \<noteq> i" | "d \<noteq> b" "\<And>j. holds s j d \<Longrightarrow> j = i" by blast
  then show "content t d = content s d"
  proof cases
    case 1
    then have "holds t i d" by (simp add: h)
    from content_holds [OF c' this] b 1 show ?thesis by (simp add: t_def)
  next
    case 2
    then have "holds t j d" by (simp add: h)
    from content_holds [OF c' this] content_holds [OF c 2(2)] 2(3) show ?thesis by (simp add: t_def)
  next
    case 3
    then have "\<not> holds t j d" for j using h [of j d] by auto
    then have "content t d = disk s d" using content_not_held [of t d] by (simp add: t_def)
    moreover have "content s d = disk s d"
    proof (cases "holds s i d")
      case True
      then have "\<not> dirty s i" using f 3(1) by (auto simp: fetched_def holds_def)
      with True content_holds [OF c True] cacheD(9) [OF c True i(2)] show ?thesis by simp
    next
      case False
      with 3(2) show ?thesis using content_not_held [of s d] by metis
    qed
    ultimately show ?thesis by simp
  qed
qed

section \<open>Changing, writing and releasing a buffer\<close>

definition set_data :: "nat \<Rightarrow> (bytes \<Rightarrow> bytes) \<Rightarrow> 'a bio_state_scheme \<Rightarrow> 'a bio_state_scheme" where
  "set_data i f s = upd_buf i (\<lambda>b. b\<lparr>b_data := f (b_data b)\<rparr>) s"

text \<open>Two states with the same buffers except for the data of those in use.\<close>

lemma content_cong:
  assumes c: "cache U s" and c': "cache V t" and h: "\<And>j b. holds t j b \<longleftrightarrow> holds s j b"
    and "\<And>j. holds s j d \<Longrightarrow> b_data (bufs t j) = b_data (bufs s j)"
    and "(\<And>j. \<not> holds s j d) \<Longrightarrow> disk t d = disk s d"
  shows "content t d = content s d"
proof (cases "\<exists>j. holds s j d")
  case True
  then obtain j where j: "holds s j d" by blast
  then have "holds t j d" using h by simp
  from content_holds [OF c' this] content_holds [OF c j] assms(4) [OF j] show ?thesis by simp
next
  case False
  then have "\<And>j. \<not> holds s j d" "\<And>j. \<not> holds t j d" using h by blast+
  with assms(5) show ?thesis by (simp add: content_not_held)
qed

lemma set_data_cache:
  assumes c: "cache U s" and "i \<in> U"
  shows "cache U (set_data i f s)"
proof -
  let ?t = "set_data i f s"
  have h: "holds ?t j b \<longleftrightarrow> holds s j b" "dirty ?t j \<longleftrightarrow> dirty s j" for j b
    by (simp_all add: set_data_def holds_def dirty_def)
  have f: "b_refcnt (bufs ?t j) = b_refcnt (bufs s j)" "b_flags (bufs ?t j) = b_flags (bufs s j)"
    "b_dev (bufs ?t j) = b_dev (bufs s j)" for j by (simp_all add: set_data_def)
  have g: "slk ?t = slk s" "curproc ?t = curproc s" "procs ?t = procs s" "held ?t = held s" "disk ?t = disk s"
    by (simp_all add: set_data_def upd_buf_def)
  obtain p where p: "curproc s = Some p" "\<forall>i\<in>U. sl_pid (slk s (BufLk i)) = p_pid (procs s p)"
    using cacheD(3) [OF c] by blast
  obtain xs where "lru (bufs s) xs" using cacheD(4) [OF c] by blast
  then have l: "lru (bufs ?t) xs" by (subst lru_cong [of _ "bufs s"]) (auto simp: set_data_def)
  show ?thesis
  proof (rule cacheI [where p = p and xs = xs], goal_cases)
    case (11 j b)
    then show ?case using cacheD(9) [OF c, of j b] assms(2) by (auto simp: h g) (auto simp: set_data_def)
  qed (use p l cacheD(1,2,5-8) [OF c] holds_unique [OF c] in \<open>simp_all add: h f g\<close>)
qed

lemma set_data_content:
  assumes c: "cache U s" and "i \<in> U" and h: "holds s i b"
  shows "content (set_data i f s) = (content s)(b := f (b_data (bufs s i)))"
proof
  fix d
  let ?t = "set_data i f s"
  have c': "cache U ?t" by (rule set_data_cache [OF c assms(2)])
  have ht: "holds ?t j e \<longleftrightarrow> holds s j e" for j e by (simp add: set_data_def holds_def)
  show "content ?t d = ((content s)(b := f (b_data (bufs s i)))) d"
  proof (cases "d = b")
    case True
    with h ht have "holds ?t i d" by simp
    from content_holds [OF c' this] True show ?thesis by (simp add: set_data_def)
  next
    case False
    then have "content ?t d = content s d"
      by (intro content_cong [OF c c' ht]) (use h in \<open>auto simp: set_data_def holds_def upd_buf_def\<close>)
    with False show ?thesis by simp
  qed
qed

definition clean_flags :: "u32 \<Rightarrow> u32" where
  "clean_flags fl = ((fl OR B_DIRTY) AND NOT B_DIRTY) OR B_VALID"

lemma clean_flags [simp]: "clean_flags fl AND B_DIRTY = 0" "clean_flags fl AND B_VALID \<noteq> 0"
proof -
  have "\<not> bit (clean_flags fl AND B_DIRTY) n" for n
    by (auto simp: clean_flags_def bit_simps numeral_eq_Suc bit_Suc)
  then show "clean_flags fl AND B_DIRTY = 0" by (simp add: bit_eq_iff)
  have "bit (clean_flags fl AND B_VALID) 1" by (simp add: clean_flags_def bit_simps)
  then show "clean_flags fl AND B_VALID \<noteq> 0" by auto
qed

definition written :: "nat \<Rightarrow> 'a bio_state_scheme \<Rightarrow> 'a bio_state_scheme" where
  "written i s = s\<lparr>dwrites := (b_blockno (bufs s i), b_data (bufs s i)) # dwrites s,
    bufs := (bufs s)(i := (bufs s i)\<lparr>b_flags := clean_flags (b_flags (bufs s i))\<rparr>)\<rparr>"

lemma bwrite_result:
  assumes c: "cache U s" and "i \<in> U" and h: "holds s i b" and "b < disksize s"
  shows "bwrite i s = Ret () (written i s)"
proof -
  obtain p where p: "curproc s = Some p" "sl_pid (slk s (BufLk i)) = p_pid (procs s p)"
    using cacheD(3) [OF c] assms(2) by blast
  have i: "sl_locked (slk s (BufLk i))" using cacheD(6) [OF c] h assms(2) by (simp add: holds_def)
  have d: "(fl OR B_DIRTY) AND B_DIRTY \<noteq> 0" "(fl OR B_DIRTY) AND 6 \<noteq> B_VALID" for fl
  proof -
    have "bit ((fl OR B_DIRTY) AND B_DIRTY) 2" "bit ((fl OR B_DIRTY) AND 6) 2" "\<not> bit B_VALID 2"
      by (simp_all add: bit_simps)
    then show "(fl OR B_DIRTY) AND B_DIRTY \<noteq> 0" "(fl OR B_DIRTY) AND 6 \<noteq> B_VALID"
      by fastforce+
  qed
  show ?thesis using p i h assms(4) cacheD(2) [OF c]
    by (simp add: bwrite_def iderw_def holdingsleep_own upd_buf_def Let_def d linorder_not_le holds_def
      clean_flags_def written_def)
qed

lemma disk_of_Cons: "disk_of img ((b, d) # ws) = (disk_of img ws)(b := d)"
  by (auto simp: disk_of_def)

lemma written_simps:
  "holds (written i s) j e \<longleftrightarrow> holds s j e" "dirty (written i s) j \<longleftrightarrow> j \<noteq> i \<and> dirty s j"
  "disk (written i s) = (disk s)(b_blockno (bufs s i) := b_data (bufs s i))"
  "b_data (bufs (written i s) j) = b_data (bufs s j)" "b_refcnt (bufs (written i s) j) = b_refcnt (bufs s j)"
  "b_dev (bufs (written i s) j) = b_dev (bufs s j)" "b_blockno (bufs (written i s) j) = b_blockno (bufs s j)"
  "slk (written i s) = slk s" "curproc (written i s) = curproc s" "procs (written i s) = procs s"
  "held (written i s) = held s"
  by (auto simp: written_def holds_def dirty_def disk_of_Cons)

lemma written_cache:
  assumes c: "cache U s" and i: "i \<in> U" and h: "holds s i b"
  shows "cache U (written i s)"
proof -
  obtain p where p: "curproc s = Some p" "\<forall>i\<in>U. sl_pid (slk s (BufLk i)) = p_pid (procs s p)"
    using cacheD(3) [OF c] by blast
  obtain xs where "lru (bufs s) xs" using cacheD(4) [OF c] by blast
  then have l: "lru (bufs (written i s)) xs" by (subst lru_cong [of _ "bufs s"]) (auto simp: written_def)
  show ?thesis
  proof (rule cacheI [where p = p and xs = xs], goal_cases)
    case (9 j d)
    then have "b_flags (bufs s j) AND B_VALID \<noteq> 0" using cacheD(7) [OF c, of j d] by (simp add: written_simps)
    then show ?case by (simp add: written_def)
  next
    case (11 j d)
    then have "j \<noteq> i" using i by auto
    with 11 h holds_unique [OF c] have "d \<noteq> b" by (auto simp: written_simps)
    with 11 \<open>j \<noteq> i\<close> h show ?case using cacheD(9) [OF c, of j d] by (simp add: written_simps holds_def)
  qed (use p l cacheD(1,2,5,6,8) [OF c] holds_unique [OF c] in \<open>simp_all add: written_simps\<close>)
qed

lemma written_content:
  assumes c: "cache U s" and i: "i \<in> U" and h: "holds s i b"
  shows "content (written i s) = content s"
proof
  fix d
  show "content (written i s) d = content s d"
    by (rule content_cong [OF c written_cache [OF assms]]) (use h in \<open>auto simp: written_simps holds_def\<close>)
qed

definition released :: "(nat \<Rightarrow> proc) \<Rightarrow> nat \<Rightarrow> 'a bio_state_scheme \<Rightarrow> 'a bio_state_scheme" where
  "released ps i s = s\<lparr>procs := ps, slk := (slk s)(BufLk i := \<lparr>sl_locked = False, sl_pid = 0\<rparr>),
     bufs := linked i (unlinked i ((bufs s)(i := (bufs s i)\<lparr>b_refcnt := 0\<rparr>)))\<rparr>"

lemma brelse_result:
  assumes c: "cache U s" and i: "i \<in> U"
  shows "\<exists>ps. (\<forall>j. p_pid (ps j) = p_pid (procs s j)) \<and> brelse i s = Ret () (released ps i s)"
proof -
  obtain p where p: "curproc s = Some p" "sl_pid (slk s (BufLk i)) = p_pid (procs s p)"
    using cacheD(3) [OF c] i by blast
  have "i < NBUF" using cacheD(1) [OF c] i by auto
  then have l: "sl_locked (slk s (BufLk i))" "b_refcnt (bufs s i) = 1" using cacheD(5,6) [OF c, of i] i by auto
  note held = cacheD(2) [OF c]
  let ?w = "wakeup1 (ChSleeplock (BufLk i)) (s\<lparr>slk := (slk s)(BufLk i := \<lparr>sl_locked = False, sl_pid = 0\<rparr>)\<rparr>)"
  let ?bs = "linked i (unlinked i ((bufs s)(i := (bufs s i)\<lparr>b_refcnt := 0\<rparr>)))"
  have "brelse i s = Ret () (?w\<lparr>bufs := ?bs\<rparr>)"
    using held held_same [of "?w\<lparr>bufs := ?bs\<rparr>" "{}"]
    by (simp add: brelse_def holdingsleep_own [OF held p(1) l(1) p(2)] releasesleep_own [OF held] upd_buf_def Let_def
      bufs_unlink_buf bufs_link_front l(2) wakeup1_def)
  then show ?thesis by (intro exI [of _ "procs ?w"]) (simp add: released_def wakeup1_def wake_all_eq)
qed

lemma released_simps:
  "holds (released ps i s) j e \<longleftrightarrow> holds s j e" "dirty (released ps i s) j \<longleftrightarrow> dirty s j"
  "dimage (released ps i s) = dimage s" "dwrites (released ps i s) = dwrites s"
  "b_data (bufs (released ps i s) j) = b_data (bufs s j)" "b_flags (bufs (released ps i s) j) = b_flags (bufs s j)"
  "b_refcnt (bufs (released ps i s) j) = (if j = i then 0 else b_refcnt (bufs s j))"
  "b_dev (bufs (released ps i s) j) = b_dev (bufs s j)" "b_blockno (bufs (released ps i s) j) = b_blockno (bufs s j)"
  "slk (released ps i s) = (slk s)(BufLk i := \<lparr>sl_locked = False, sl_pid = 0\<rparr>)"
  "curproc (released ps i s) = curproc s" "procs (released ps i s) = ps" "held (released ps i s) = held s"
  by (auto simp: released_def holds_def dirty_def link_fields)

lemma released_cache:
  assumes c: "cache U s" and i: "i \<in> U" and "\<And>b. holds s i b \<Longrightarrow> dirty s i \<or> b_data (bufs s i) = disk s b"
    and ps: "\<forall>j. p_pid (ps j) = p_pid (procs s j)"
  shows "cache (U - {i}) (released ps i s)"
proof -
  obtain p where p: "curproc s = Some p" "\<forall>i\<in>U. sl_pid (slk s (BufLk i)) = p_pid (procs s p)"
    using cacheD(3) [OF c] by blast
  obtain xs where "lru (bufs s) xs" using cacheD(4) [OF c] by blast
  then have "lru ((bufs s)(i := (bufs s i)\<lparr>b_refcnt := 0\<rparr>)) xs" by (subst lru_cong [of _ "bufs s"]) auto
  moreover have "i < NBUF" using cacheD(1) [OF c] i by auto
  ultimately have l: "lru (bufs (released ps i s)) (i # remove1 i xs)"
    using lru_move_front by (simp add: released_def)
  show ?thesis
  proof (rule cacheI [where p = p and xs = "i # remove1 i xs"], goal_cases)
    case 1
    then show ?case using cacheD(1) [OF c] by auto
  next
    case (11 j d)
    then show ?case using cacheD(9) [OF c, of j d] assms(3) by (cases "j = i") (simp_all add: released_simps)
  qed (use p l ps cacheD(2,5-8) [OF c] holds_unique [OF c] in \<open>simp_all add: released_simps\<close>)
qed

lemma released_content:
  assumes c: "cache U s" and c': "cache V (released ps i s)"
  shows "content (released ps i s) = content s"
proof
  fix d
  show "content (released ps i s) d = content s d"
    by (rule content_cong [OF c c']) (simp_all add: released_simps)
qed

section \<open>The interface\<close>

text \<open>\<open>pinned\<close> are the blocks whose buffers must stay, because the log has not written them yet.
  \<open>store U s\<close> is the cache with the buffers \<open>U\<close> in use for blocks of the disk.\<close>

definition pinned :: "'a bio_state_scheme \<Rightarrow> u32 set" where
  "pinned s = {b. \<exists>i. holds s i b \<and> dirty s i}"

definition synced :: "'a bio_state_scheme \<Rightarrow> nat \<Rightarrow> bool" where
  "synced s i \<longleftrightarrow> dirty s i \<or> b_data (bufs s i) = disk s (b_blockno (bufs s i))"

definition store :: "nat set \<Rightarrow> 'a bio_state_scheme \<Rightarrow> bool" where
  "store U s \<longleftrightarrow> cache U s \<and> (\<forall>i\<in>U. b_dev (bufs s i) = 1)"

definition num :: "'a bio_state_scheme \<Rightarrow> nat \<Rightarrow> u32" where
  "num s i = b_blockno (bufs s i)"

definition dat :: "'a bio_state_scheme \<Rightarrow> nat \<Rightarrow> bytes" where
  "dat s i = b_data (bufs s i)"

lemma store_holds: "store U s \<Longrightarrow> i \<in> U \<Longrightarrow> holds s i (num s i)"
  by (auto simp: store_def holds_def num_def dest: cacheD(1))

lemma store_avail:
  assumes "store U s" and "card U + card (pinned s) < NBUF"
  shows "\<exists>i<NBUF. i \<notin> U \<and> \<not> dirty s i"
proof (rule ccontr)
  assume n: "\<not> ?thesis"
  have c: "cache U s" using assms(1) by (simp add: store_def)
  let ?D = "{i. i < NBUF \<and> dirty s i}"
  have inj: "inj_on (num s) ?D"
  proof (rule inj_onI)
    fix i j
    assume "i \<in> ?D" "j \<in> ?D" "num s i = num s j"
    then have "holds s i (num s i)" "holds s j (num s i)"
      using cacheD(8) [OF c] by (auto simp: holds_def num_def)
    then show "i = j" by (rule holds_unique [OF c])
  qed
  have sub: "num s ` ?D \<subseteq> pinned s"
    using cacheD(8) [OF c] by (auto simp: pinned_def holds_def num_def)
  have fin: "finite (pinned s)"
  proof (rule finite_subset)
    show "pinned s \<subseteq> num s ` {..<NBUF}" by (auto simp: pinned_def holds_def num_def)
  qed simp
  have "card ?D \<le> card (pinned s)" using card_mono [OF fin sub] card_image [OF inj] by linarith
  moreover have "finite U" using cacheD(1) [OF c] by (rule finite_subset) simp
  moreover have "{..<NBUF} \<subseteq> U \<union> ?D" using n by blast
  then have "card {..<NBUF} \<le> card (U \<union> ?D)" using \<open>finite U\<close> by (intro card_mono) simp_all
  then have "NBUF \<le> card (U \<union> ?D)" by (simp only: card_lessThan)
  ultimately show False using assms(2) card_Un_le [of U ?D] by linarith
qed

locale block_store =
  fixes get :: "u32 \<Rightarrow> 's \<Rightarrow> ('s, nat) kres"
    and put :: "nat \<Rightarrow> 's \<Rightarrow> ('s, unit) kres"
    and rel :: "nat \<Rightarrow> 's \<Rightarrow> ('s, unit) kres"
    and change :: "nat \<Rightarrow> (bytes \<Rightarrow> bytes) \<Rightarrow> 's \<Rightarrow> 's"
    and ok :: "nat set \<Rightarrow> 's \<Rightarrow> bool"
    and blk :: "'s \<Rightarrow> nat \<Rightarrow> u32"
    and val :: "'s \<Rightarrow> nat \<Rightarrow> bytes"
    and safe :: "'s \<Rightarrow> nat \<Rightarrow> bool"
    and view :: "'s \<Rightarrow> u32 \<Rightarrow> bytes"
    and writes :: "'s \<Rightarrow> (u32 \<times> bytes) list"
    and pins :: "'s \<Rightarrow> u32 set"
    and valid :: "'s \<Rightarrow> u32 \<Rightarrow> bool"
    and frame :: "'s \<Rightarrow> 's \<Rightarrow> bool"
    and capacity :: nat
  assumes frame_trans: "frame s t \<Longrightarrow> frame t u \<Longrightarrow> frame s u"
    and frame_valid: "frame s t \<Longrightarrow> valid t b = valid s b"
    and get_law: "ok U s \<Longrightarrow> valid s b \<Longrightarrow> (\<forall>i\<in>U. blk s i \<noteq> b) \<Longrightarrow>
      card U + card (pins s) < capacity \<or> b \<in> pins s \<Longrightarrow>
      returns (\<lambda>i t. i \<notin> U \<and> ok (insert i U) t \<and> blk t i = b \<and> val t i = view s b \<and> safe t i \<and>
        (\<forall>j\<in>U. blk t j = blk s j \<and> val t j = val s j \<and> safe t j = safe s j) \<and>
        view t = view s \<and> writes t = writes s \<and> pins t = pins s \<and> frame s t) (get b s)"
    and change_law: "ok U s \<Longrightarrow> i \<in> U \<Longrightarrow> ok U (change i f s) \<and>
      (\<forall>j\<in>U. blk (change i f s) j = blk s j \<and> (j \<noteq> i \<longrightarrow> val (change i f s) j = val s j \<and>
         safe (change i f s) j = safe s j)) \<and> val (change i f s) i = f (val s i) \<and>
      view (change i f s) = (view s)(blk s i := f (val s i)) \<and> writes (change i f s) = writes s \<and>
      pins (change i f s) = pins s \<and> frame s (change i f s)"
    and put_law: "ok U s \<Longrightarrow> i \<in> U \<Longrightarrow> valid s (blk s i) \<Longrightarrow>
      returns (\<lambda>_ t. ok U t \<and> safe t i \<and> (\<forall>j\<in>U. blk t j = blk s j \<and> val t j = val s j \<and> (safe s j \<longrightarrow> safe t j)) \<and>
        view t = view s \<and> writes t = (blk s i, val s i) # writes s \<and> pins t = pins s - {blk s i} \<and> frame s t) (put i s)"
    and rel_law: "ok U s \<Longrightarrow> i \<in> U \<Longrightarrow> safe s i \<Longrightarrow>
      returns (\<lambda>_ t. ok (U - {i}) t \<and> (\<forall>j\<in>U - {i}. blk t j = blk s j \<and> val t j = val s j \<and> safe t j = safe s j) \<and>
        view t = view s \<and> writes t = writes s \<and> pins t = pins s \<and> frame s t) (rel i s)"
begin

text \<open>The two buffers of a copy between blocks, once both have been read.\<close>

lemma copy_between:
  assumes "ok {i, j} s" and "i \<noteq> j" and "safe s i" and "safe s j" and "valid s (blk s j)" and "blk s i \<noteq> blk s j"
    and k: "\<And>t. ok {} t \<Longrightarrow> view t = (view s)(blk s j := val s i) \<Longrightarrow>
      writes t = (blk s j, val s i) # writes s \<Longrightarrow> pins t = pins s - {blk s j} \<Longrightarrow> frame s t \<Longrightarrow> returns Q (k t)"
    and xy: "(x, y) = (i, j) \<or> (x, y) = (j, i)"
  shows "returns Q (kbind (put j (change j (\<lambda>_. val s i) s)) (\<lambda>_ s.
    kbind (rel x s) (\<lambda>_ s. kbind (rel y s) (\<lambda>_. k))))"
proof -
  let ?s = "change j (\<lambda>_. val s i) s"
  have e: "ok {i, j} ?s" "blk ?s j = blk s j" "blk ?s i = blk s i" "val ?s i = val s i" "val ?s j = val s i"
    "safe ?s i" "view ?s = (view s)(blk s j := val s i)" "writes ?s = writes s" "pins ?s = pins s" "frame s ?s"
    using change_law [OF assms(1), of j "\<lambda>_. val s i"] assms(2,3) by auto
  have v: "valid ?s (blk ?s j)" using e assms(5) frame_valid [OF e(10)] by simp
  show ?thesis
  proof (rule returns_kbindI [OF put_law [OF e(1) _ v]])
    fix u t
    assume "ok {i, j} t \<and> safe t j \<and> (\<forall>ja\<in>{i, j}. blk t ja = blk ?s ja \<and> val t ja = val ?s ja \<and>
        (safe ?s ja \<longrightarrow> safe t ja)) \<and> view t = view ?s \<and> writes t = (blk ?s j, val ?s j) # writes ?s \<and>
        pins t = pins ?s - {blk ?s j} \<and> frame ?s t"
    then have p: "ok {i, j} t" "safe t x" "safe t y" "view t = (view s)(blk s j := val s i)"
      "writes t = (blk s j, val s i) # writes s" "pins t = pins s - {blk s j}" "frame s t"
      using e xy frame_trans [OF e(10)] by auto
    have "{i, j} - {x} = {y}" "x \<in> {i, j}" using xy assms(2) by auto
    with rel_law [OF p(1) _ p(2)] have r: "returns (\<lambda>_ u. ok {y} u \<and> safe u y \<and> view u = view t \<and>
        writes u = writes t \<and> pins u = pins t \<and> frame t u) (rel x t)"
      using p(3) by (auto elim!: returns_mono)
    show "returns Q (kbind (rel x t) (\<lambda>_ s. kbind (rel y s) (\<lambda>_. k)))"
    proof (rule returns_kbindI [OF r])
      fix v u
      assume u: "ok {y} u \<and> safe u y \<and> view u = view t \<and> writes u = writes t \<and> pins u = pins t \<and> frame t u"
      then have "returns (\<lambda>_ w. ok {} w \<and> view w = view t \<and> writes w = writes t \<and> pins w = pins t \<and> frame u w) (rel y u)"
        using rel_law [of "{y}" u y] by (auto elim!: returns_mono)
      then show "returns Q (kbind (rel y u) (\<lambda>_. k))"
        by (rule returns_kbindI) (use u p in \<open>auto intro!: k intro: frame_trans\<close>)
    qed
  qed simp
qed

lemma copy_to_second:
  assumes "ok {} s" and "valid s a" and "valid s b" and "a \<noteq> b"
    and "card (pins s) < capacity \<or> a \<in> pins s" and "1 + card (pins s) < capacity \<or> b \<in> pins s"
    and g: "\<And>t. frame s t \<Longrightarrow> gb t = get b t"
    and k: "\<And>t. ok {} t \<Longrightarrow> view t = (view s)(b := view s a) \<Longrightarrow> writes t = (b, view s a) # writes s \<Longrightarrow>
      pins t = pins s - {b} \<Longrightarrow> frame s t \<Longrightarrow> returns Q (k t)"
  shows "returns Q (kbind (get a s) (\<lambda>i s. kbind (gb s) (\<lambda>j s.
    kbind (put j (change j (\<lambda>_. val s i) s)) (\<lambda>_ s. kbind (rel i s) (\<lambda>_ s. kbind (rel j s) (\<lambda>_. k))))))"
proof -
  have "returns (\<lambda>i t. ok {i} t \<and> blk t i = a \<and> val t i = view s a \<and> safe t i \<and> view t = view s \<and>
      writes t = writes s \<and> pins t = pins s \<and> frame s t) (get a s)"
    using get_law [OF assms(1,2)] assms(5) by simp
  then show ?thesis
  proof (rule returns_kbindI)
    fix i t
    assume t: "ok {i} t \<and> blk t i = a \<and> val t i = view s a \<and> safe t i \<and> view t = view s \<and>
      writes t = writes s \<and> pins t = pins s \<and> frame s t"
    then have ft: "frame s t" by blast
    from t have "returns (\<lambda>j u. j \<noteq> i \<and> ok {i, j} u \<and> blk u j = b \<and> blk u i = a \<and> val u i = view s a \<and> safe u i \<and>
        safe u j \<and> view u = view s \<and> writes u = writes s \<and> pins u = pins s \<and> frame t u) (get b t)"
      using get_law [of "{i}" t b] assms(3,4,6) frame_valid [of s t b]
      by (auto simp: insert_commute elim!: returns_mono)
    then show "returns Q (kbind (gb t) (\<lambda>j s. kbind (put j (change j (\<lambda>_. val s i) s)) (\<lambda>_ s.
        kbind (rel i s) (\<lambda>_ s. kbind (rel j s) (\<lambda>_. k)))))"
      unfolding g [OF ft]
    proof (rule returns_kbindI)
      fix j u
      assume u: "j \<noteq> i \<and> ok {i, j} u \<and> blk u j = b \<and> blk u i = a \<and> val u i = view s a \<and> safe u i \<and>
        safe u j \<and> view u = view s \<and> writes u = writes s \<and> pins u = pins s \<and> frame t u"
      with t have f: "frame s u" using frame_trans by blast
      then have "valid u b" using frame_valid assms(3) by blast
      with u show "returns Q (kbind (put j (change j (\<lambda>_. val u i) u)) (\<lambda>_ s.
          kbind (rel i s) (\<lambda>_ s. kbind (rel j s) (\<lambda>_. k))))"
        by (intro copy_between) (use assms(4) f in \<open>auto intro!: k intro: frame_trans\<close>)
    qed
  qed
qed

lemma copy_to_first:
  assumes "ok {} s" and "valid s a" and "valid s b" and "a \<noteq> b"
    and "card (pins s) < capacity \<or> b \<in> pins s" and "1 + card (pins s) < capacity \<or> a \<in> pins s"
    and g: "\<And>t. frame s t \<Longrightarrow> ga t = get a t"
    and k: "\<And>t. ok {} t \<Longrightarrow> view t = (view s)(b := view s a) \<Longrightarrow> writes t = (b, view s a) # writes s \<Longrightarrow>
      pins t = pins s - {b} \<Longrightarrow> frame s t \<Longrightarrow> returns Q (k t)"
  shows "returns Q (kbind (get b s) (\<lambda>j s. kbind (ga s) (\<lambda>i s.
    kbind (put j (change j (\<lambda>_. val s i) s)) (\<lambda>_ s. kbind (rel i s) (\<lambda>_ s. kbind (rel j s) (\<lambda>_. k))))))"
proof -
  have "returns (\<lambda>j t. ok {j} t \<and> blk t j = b \<and> safe t j \<and> view t = view s \<and>
      writes t = writes s \<and> pins t = pins s \<and> frame s t) (get b s)"
    using get_law [OF assms(1,3)] assms(5) by (auto elim!: returns_mono)
  then show ?thesis
  proof (rule returns_kbindI)
    fix j t
    assume t: "ok {j} t \<and> blk t j = b \<and> safe t j \<and> view t = view s \<and>
      writes t = writes s \<and> pins t = pins s \<and> frame s t"
    then have ft: "frame s t" by blast
    from t have "returns (\<lambda>i u. i \<noteq> j \<and> ok {i, j} u \<and> blk u j = b \<and> blk u i = a \<and> val u i = view s a \<and> safe u i \<and>
        safe u j \<and> view u = view s \<and> writes u = writes s \<and> pins u = pins s \<and> frame t u) (get a t)"
      using get_law [of "{j}" t a] assms(2,4,6) frame_valid [of s t a] by (auto elim!: returns_mono)
    then show "returns Q (kbind (ga t) (\<lambda>i s. kbind (put j (change j (\<lambda>_. val s i) s)) (\<lambda>_ s.
        kbind (rel i s) (\<lambda>_ s. kbind (rel j s) (\<lambda>_. k)))))"
      unfolding g [OF ft]
    proof (rule returns_kbindI)
      fix i u
      assume u: "i \<noteq> j \<and> ok {i, j} u \<and> blk u j = b \<and> blk u i = a \<and> val u i = view s a \<and> safe u i \<and>
        safe u j \<and> view u = view s \<and> writes u = writes s \<and> pins u = pins s \<and> frame t u"
      with ft have f: "frame s u" using frame_trans by blast
      then have "valid u b" using frame_valid assms(3) by blast
      with u show "returns Q (kbind (put j (change j (\<lambda>_. val u i) u)) (\<lambda>_ s.
          kbind (rel i s) (\<lambda>_ s. kbind (rel j s) (\<lambda>_. k))))"
        by (intro copy_between) (use assms(4) f in \<open>auto intro!: k intro: frame_trans\<close>)
    qed
  qed
qed

lemma update_block:
  assumes "ok {} s" and "valid s b" and "card (pins s) < capacity \<or> b \<in> pins s"
    and c: "\<And>i t. frame s t \<Longrightarrow> ch i t = change i f t"
  shows "returns (\<lambda>_ t. ok {} t \<and> view t = (view s)(b := f (view s b)) \<and> writes t = (b, f (view s b)) # writes s \<and>
      pins t = pins s - {b} \<and> frame s t)
    (kbind (get b s) (\<lambda>i s. kbind (put i (ch i s)) (\<lambda>_ s. rel i s)))"
proof -
  have "returns (\<lambda>i t. ok {i} t \<and> blk t i = b \<and> val t i = view s b \<and> view t = view s \<and>
      writes t = writes s \<and> pins t = pins s \<and> frame s t) (get b s)"
    using get_law [OF assms(1,2)] assms(3) by (auto elim!: returns_mono)
  then show ?thesis
  proof (rule returns_kbindI)
    fix i t
    assume t: "ok {i} t \<and> blk t i = b \<and> val t i = view s b \<and> view t = view s \<and>
      writes t = writes s \<and> pins t = pins s \<and> frame s t"
    then have ch: "ch i t = change i f t" by (intro c) blast
    let ?t = "change i f t"
    have e: "ok {i} ?t" "blk ?t i = b" "val ?t i = f (view s b)" "view ?t = (view s)(b := f (view s b))"
      "writes ?t = writes s" "pins ?t = pins s" "frame t ?t"
      using change_law [of "{i}" t i f] t by auto
    then have fr: "frame s ?t" using t frame_trans by blast
    then have "valid ?t (blk ?t i)" using e frame_valid assms(2) by auto
    with put_law [OF e(1)] have p: "returns (\<lambda>_ u. ok {i} u \<and> safe u i \<and> view u = view ?t \<and>
        writes u = (b, f (view s b)) # writes s \<and> pins u = pins s - {b} \<and> frame ?t u) (put i ?t)"
      using e by (auto elim!: returns_mono)
    show "returns (\<lambda>_ t. ok {} t \<and> view t = (view s)(b := f (view s b)) \<and> writes t = (b, f (view s b)) # writes s \<and>
        pins t = pins s - {b} \<and> frame s t) (kbind (put i (ch i t)) (\<lambda>_ s. rel i s))"
      unfolding ch
    proof (rule returns_kbindI [OF p])
      fix v u
      assume u: "ok {i} u \<and> safe u i \<and> view u = view ?t \<and> writes u = (b, f (view s b)) # writes s \<and>
        pins u = pins s - {b} \<and> frame ?t u"
      then have "frame s u" using frame_trans [OF fr] by blast
      from frame_trans [OF this] u rel_law [of "{i}" u i] e(4)
      show "returns (\<lambda>_ t. ok {} t \<and> view t = (view s)(b := f (view s b)) \<and>
          writes t = (b, f (view s b)) # writes s \<and> pins t = pins s - {b} \<and> frame s t) (rel i u)"
        by (auto elim!: returns_mono)
    qed
  qed
qed

text \<open>Reading a block and releasing it.\<close>

lemma read_block:
  assumes "ok {} s" and "valid s b" and "card (pins s) < capacity \<or> b \<in> pins s"
    and u: "\<And>i t. val t i = view s b \<Longrightarrow> frame s t \<Longrightarrow> ok {i} t \<Longrightarrow> view t = view s \<Longrightarrow> writes t = writes s \<Longrightarrow>
      pins t = pins s \<Longrightarrow> safe t i \<Longrightarrow> returns Q (k i t)"
  shows "returns Q (kbind (get b s) k)"
  by (rule returns_kbindI [OF get_law [OF assms(1,2)]]) (use assms(3) in \<open>auto intro!: u\<close>)

end

section \<open>The cache implements the interface\<close>

lemma bread_law:
  assumes st: "store U s" and v: "b < disksize s" and n: "\<forall>i\<in>U. num s i \<noteq> b"
    and room: "card U + card (pinned s) < NBUF \<or> b \<in> pinned s"
  shows "returns (\<lambda>i t. i \<notin> U \<and> store (insert i U) t \<and> num t i = b \<and> dat t i = content s b \<and> synced t i \<and>
    (\<forall>j\<in>U. num t j = num s j \<and> dat t j = dat s j \<and> synced t j = synced s j) \<and>
    content t = content s \<and> dwrites t = dwrites s \<and> pinned t = pinned s \<and> bframe s t) (bread 1 b s)"
proof -
  have c: "cache U s" using st by (simp add: store_def)
  have av: "(\<exists>i. holds s i b) \<or> (\<exists>i<NBUF. i \<notin> U \<and> \<not> dirty s i)"
    using room store_avail [OF st] by (auto simp: pinned_def)
  have "\<not> holds s i b" if "i \<in> U" for i using n that by (auto simp: holds_def num_def)
  from bread_result [OF c v this av] obtain i nb where i: "i < NBUF" "i \<notin> U" and f: "fetched s i b nb"
    and r: "bread 1 b s = Ret i (own i (s\<lparr>bufs := (bufs s)(i := nb)\<rparr>))" by blast
  let ?t = "own i (s\<lparr>bufs := (bufs s)(i := nb)\<rparr>)"
  note h = grab_holds [OF f i(1)] and gc = grab_cache [OF c i f] and gv = grab_content [OF c i f]
  have d: "dirty ?t j \<longleftrightarrow> dirty s j" for j using f by (simp add: dirty_def fetched_def)
  have "holds ?t i b" unfolding h by simp
  from content_holds [OF gc this] have "dat ?t i = content s b" unfolding gv by (simp add: dat_def)
  moreover have "synced ?t i"
    using f cacheD(9) [OF c _ i(2), of b] unfolding synced_def d by (auto simp: fetched_def)
  moreover have "pinned ?t = pinned s"
  proof -
    have "holds s i e \<and> dirty s i \<longleftrightarrow> e = b \<and> dirty s i" for e using f by (auto simp: fetched_def holds_def)
    then have "holds ?t j e \<and> dirty ?t j \<longleftrightarrow> holds s j e \<and> dirty s j" for j e unfolding h d by auto
    then show ?thesis unfolding pinned_def by simp
  qed
  moreover have "store (insert i U) ?t" using gc st f by (auto simp: store_def fetched_def)
  moreover have "num ?t i = b" using f by (simp add: num_def fetched_def)
  moreover have "num ?t j = num s j \<and> dat ?t j = dat s j \<and> synced ?t j = synced s j" if "j \<in> U" for j
  proof -
    have "j \<noteq> i" using that i by blast
    then show ?thesis unfolding num_def dat_def synced_def d by simp
  qed
  moreover have "bframe s ?t"
    by (rule bframeI [where ps = "procs s" and ws = "dwrites s" and bs = "(bufs s)(i := nb)" and
      sl = "slk ?t"]) (simp add: bufs_slk_commute)
  ultimately show ?thesis using i(2) gv by (simp add: r)
qed

lemma set_data_law:
  assumes st: "store U s" and i: "i \<in> U"
  shows "store U (set_data i f s) \<and>
    (\<forall>j\<in>U. num (set_data i f s) j = num s j \<and> (j \<noteq> i \<longrightarrow> dat (set_data i f s) j = dat s j \<and>
      synced (set_data i f s) j = synced s j)) \<and> dat (set_data i f s) i = f (dat s i) \<and>
    content (set_data i f s) = (content s)(num s i := f (dat s i)) \<and> dwrites (set_data i f s) = dwrites s \<and>
    pinned (set_data i f s) = pinned s \<and> bframe s (set_data i f s)"
proof -
  let ?t = "set_data i f s"
  have c: "cache U s" using st by (simp add: store_def)
  have d: "dirty ?t j \<longleftrightarrow> dirty s j" "holds ?t j b \<longleftrightarrow> holds s j b" "b_dev (bufs ?t j) = b_dev (bufs s j)" for j b
    by (simp_all add: dirty_def set_data_def holds_def)
  have "store U ?t" using set_data_cache [OF c i] st by (simp add: store_def d)
  moreover have "content ?t = (content s)(num s i := f (dat s i))"
    using set_data_content [OF c i store_holds [OF st i]] by (simp add: dat_def)
  moreover have "bframe s ?t"
    by (rule bframeI [where ps = "procs s" and sl = "slk s" and ws = "dwrites s" and bs = "bufs ?t"])
      (simp add: set_data_def upd_buf_def)
  moreover have "pinned ?t = pinned s" unfolding pinned_def d ..
  moreover have "dwrites ?t = dwrites s" "dimage ?t = dimage s" by (simp_all add: set_data_def upd_buf_def)
  moreover have "num ?t j = num s j" "j \<noteq> i \<Longrightarrow> dat ?t j = dat s j" "dat ?t i = f (dat s i)" for j
    by (simp_all add: set_data_def num_def dat_def)
  ultimately show ?thesis unfolding synced_def d by (simp add: num_def dat_def)
qed

lemma bwrite_law:
  assumes st: "store U s" and i: "i \<in> U" and v: "num s i < disksize s"
  shows "returns (\<lambda>_ t. store U t \<and> synced t i \<and>
    (\<forall>j\<in>U. num t j = num s j \<and> dat t j = dat s j \<and> (synced s j \<longrightarrow> synced t j)) \<and>
    content t = content s \<and> dwrites t = (num s i, dat s i) # dwrites s \<and>
    pinned t = pinned s - {num s i} \<and> bframe s t) (bwrite i s)"
proof -
  have c: "cache U s" using st by (simp add: store_def)
  note h = store_holds [OF st i]
  let ?t = "written i s"
  have "store U ?t" using written_cache [OF c i h] st by (simp add: store_def written_simps)
  moreover have "content ?t = content s" by (rule written_content [OF c i h])
  moreover have "pinned ?t = pinned s - {num s i}"
  proof (rule set_eqI)
    fix e
    have "holds s j e \<and> j \<noteq> i \<longleftrightarrow> holds s j e \<and> e \<noteq> num s i" for j
      using h holds_unique [OF c] by (auto simp: holds_def num_def)
    then show "e \<in> pinned ?t \<longleftrightarrow> e \<in> pinned s - {num s i}" unfolding pinned_def written_simps by auto
  qed
  moreover have "dwrites ?t = (num s i, dat s i) # dwrites s" by (simp add: written_def num_def dat_def)
  moreover have "bframe s ?t"
    by (rule bframeI [where ps = "procs s" and sl = "slk s" and ws = "dwrites ?t" and bs = "bufs ?t"])
      (simp add: written_def)
  moreover have "synced ?t j" if "j \<in> U" "j = i \<or> synced s j" for j
  proof -
    have "num s j = num s i \<Longrightarrow> j = i"
      using holds_unique [OF c, of j "num s i" i] store_holds [OF st that(1)] h by simp
    with that(2) show ?thesis unfolding synced_def written_simps num_def by auto
  qed
  moreover have "num ?t j = num s j" "dat ?t j = dat s j" for j by (simp_all add: num_def dat_def written_simps)
  ultimately show ?thesis using i by (simp add: bwrite_result [OF c i h v])
qed

lemma brelse_law:
  assumes st: "store U s" and i: "i \<in> U" and y: "synced s i"
  shows "returns (\<lambda>_ t. store (U - {i}) t \<and>
    (\<forall>j\<in>U - {i}. num t j = num s j \<and> dat t j = dat s j \<and> synced t j = synced s j) \<and>
    content t = content s \<and> dwrites t = dwrites s \<and> pinned t = pinned s \<and> bframe s t) (brelse i s)"
proof -
  have c: "cache U s" using st by (simp add: store_def)
  from brelse_result [OF c i] obtain ps where ps: "\<forall>j. p_pid (ps j) = p_pid (procs s j)"
    and r: "brelse i s = Ret () (released ps i s)" by blast
  let ?t = "released ps i s"
  have "dirty s i \<or> b_data (bufs s i) = disk s b" if "holds s i b" for b
    using y that by (auto simp: synced_def holds_def)
  from released_cache [OF c i this ps] have c': "cache (U - {i}) ?t" .
  then have "store (U - {i}) ?t" using st by (simp add: store_def released_simps)
  moreover have "content ?t = content s" by (rule released_content [OF c c'])
  moreover have "pinned ?t = pinned s" unfolding pinned_def released_simps ..
  moreover have "bframe s ?t" unfolding released_def by (rule bframeI [where ws = "dwrites s"]) simp
  moreover have "num ?t j = num s j" "dat ?t j = dat s j" "synced ?t j = synced s j" for j
    by (simp_all add: num_def dat_def synced_def released_simps)
  ultimately show ?thesis by (simp add: r released_simps)
qed

interpretation blocks: block_store "bread 1" bwrite brelse set_data store num dat synced content dwrites pinned
    "\<lambda>s b. b < disksize s" bframe NBUF
proof (unfold_locales, goal_cases)
  case 1
  then show ?case by (rule bframe_trans)
next
  case 2
  then show ?case by (auto elim!: bframeE)
next
  case 3
  then show ?case by (rule bread_law)
next
  case 4
  then show ?case by (rule set_data_law)
next
  case 5
  then show ?case by (rule bwrite_law)
next
  case 6
  then show ?case by (rule brelse_law)
qed

end
