(* ===== verification/Crash.thy ===== *)
theory Crash
  imports Log Bcache
begin

text \<open>
  The log makes a transaction atomic. The disk is its image with the sequence of writes applied, so
  a crash during \<open>commit\<close> is a point in that sequence: later writes are lost, and so is everything in
  memory. The theorem says that recovery then produces the disk as it was before the transaction or
  as it is after it, for every block outside the log. The log is used by one process at a time
  here, as \<open>end_op\<close> arranges for \<open>commit\<close>.
\<close>

section \<open>Writes\<close>

lemma disk_of_append: "disk_of img (ws' @ ws) = disk_of (disk_of img ws) ws'"
  by (auto simp: disk_of_def fun_eq_iff map_add_Some_iff split: option.splits)

lemma disk_of_Nil [simp]: "disk_of img [] = img"
  by (simp add: disk_of_def fun_eq_iff)

lemma disk_of_other: "b \<notin> fst ` set ws \<Longrightarrow> disk_of img ws b = img b"
  using map_of_eq_None_iff [of ws b] by (simp add: disk_of_def)

text \<open>What every step of the log does to the store: it performs the writes \<open>ws\<close>.\<close>

definition performs :: "(u32 \<times> bytes) list \<Rightarrow> 'a bio_state_scheme \<Rightarrow> 'a bio_state_scheme \<Rightarrow> bool" where
  "performs ws s t \<longleftrightarrow> store {} t \<and> bframe s t \<and> dwrites t = ws @ dwrites s \<and>
     content t = disk_of (content s) ws \<and> pinned t = pinned s - fst ` set ws"

lemma performs_trans:
  assumes "performs ws s t" and "performs ws' t u"
  shows "performs (ws' @ ws) s u"
  using assms bframe_trans by (auto simp: performs_def disk_of_append)

lemma performs_refl: "store {} s \<Longrightarrow> performs [] s s"
  by (simp add: performs_def bframe_refl)

lemma performs_frame: "performs ws s t \<Longrightarrow> bframe s t"
  by (simp add: performs_def)

section \<open>The layout of the log\<close>

definition log_block :: "'a log_state_scheme \<Rightarrow> nat \<Rightarrow> u32" where
  "log_block s k = log_start s + of_nat k + 1"

definition log_area :: "u32 \<Rightarrow> nat \<Rightarrow> u32 set" where
  "log_area start n = insert start ((\<lambda>k. start + of_nat k + 1) ` {..<n})"

text \<open>The log uses \<open>n\<close> log blocks for the home blocks \<open>home k\<close>.\<close>

definition layout :: "nat \<Rightarrow> (nat \<Rightarrow> u32) \<Rightarrow> 'a log_state_scheme \<Rightarrow> bool" where
  "layout n home s \<longleftrightarrow> n \<le> 29 \<and> log_dev s = 1 \<and> distinct (map home [0..<n]) \<and>
     (\<forall>b\<in>log_area (log_start s) n. b < disksize s) \<and>
     (\<forall>k<n. home k < disksize s \<and> home k \<notin> log_area (log_start s) n)"

lemma bframe_log:
  assumes "bframe s (t :: 'a log_state_scheme)"
  shows "log_start t = log_start s" "log_dev t = log_dev s" "lh_n t = lh_n s" "lh_block t = lh_block s"
    "disksize t = disksize s" "dimage t = dimage s" "layout n home t = layout n home s"
    "log_block t = log_block s"
  using assms by (auto elim!: bframeE simp: layout_def log_block_def fun_eq_iff)

lemma of_nat_small_eq: "j < 30 \<Longrightarrow> k < 30 \<Longrightarrow> (of_nat j :: u32) = of_nat k \<longleftrightarrow> j = k"
  by (simp add: of_nat_eq_iff word_of_nat_eq_iff take_bit_eq_mod)

lemma log_block_facts:
  assumes "layout n home s" and "j < n"
  shows "log_block s j \<in> log_area (log_start s) n" and "log_block s j \<noteq> log_start s"
    and "k < n \<Longrightarrow> log_block s j = log_block s k \<longleftrightarrow> j = k"
    and "log_block s j < disksize s" and "k < n \<Longrightarrow> home k \<noteq> log_block s j"
proof -
  have n: "n \<le> 29" using assms(1) by (simp add: layout_def)
  show a: "log_block s j \<in> log_area (log_start s) n" using assms(2) by (auto simp: log_area_def log_block_def)
  show "log_block s j \<noteq> log_start s"
  proof
    assume "log_block s j = log_start s"
    then have "(of_nat (Suc j) :: u32) = of_nat 0" by (simp add: log_block_def add.assoc add.commute)
    with assms(2) n show False by (subst (asm) of_nat_small_eq) auto
  qed
  show "log_block s j = log_block s k \<longleftrightarrow> j = k" if "k < n"
    using that assms(2) n of_nat_small_eq [of j k] by (auto simp: log_block_def)
  show "log_block s j < disksize s" "k < n \<Longrightarrow> home k \<noteq> log_block s j"
    using assms(1) a by (auto simp: layout_def)
qed

lemma home_facts:
  assumes "layout n home s" and "j < n"
  shows "home j < disksize s" and "home j \<noteq> log_start s" and "k < n \<Longrightarrow> home j = home k \<longleftrightarrow> j = k"
  using assms nth_eq_iff_index_eq [of "map home [0..<n]" j k] by (auto simp: layout_def log_area_def)

section \<open>Copying between log and home blocks\<close>

definition log_writes :: "'a log_state_scheme \<Rightarrow> nat \<Rightarrow> nat \<Rightarrow> (u32 \<times> bytes) list" where
  "log_writes s tail m = rev (map (\<lambda>k. (log_block s k, content s (lh_block s k))) [tail..<tail + m])"

definition home_writes :: "'a log_state_scheme \<Rightarrow> nat \<Rightarrow> nat \<Rightarrow> (u32 \<times> bytes) list" where
  "home_writes s tail m = rev (map (\<lambda>k. (lh_block s k, content s (log_block s k))) [tail..<tail + m])"

lemma upt_first: "[tail..<tail + Suc m] = tail # [Suc tail..<Suc tail + m]"
  by (simp add: upt_conv_Cons del: upt_Suc)

lemma card_homes:
  assumes "P \<subseteq> (home :: nat \<Rightarrow> u32) ` {..<n}"
  shows "card P \<le> n"
proof -
  have "card P \<le> card (home ` {..<n})" by (rule card_mono) (use assms in auto)
  also have "\<dots> \<le> n" using card_image_le [of "{..<n}" home] by simp
  finally show ?thesis .
qed

lemma write_log_loop_performs:
  fixes s :: "'a log_state_scheme"
  assumes "store {} s" and "layout n (lh_block s) s" and "tail + m \<le> n"
    and "lh_block s ` {..<n} \<subseteq> pinned s" and "pinned s \<subseteq> lh_block s ` {..<n}"
  shows "returns (\<lambda>_. performs (log_writes s tail m) s) (write_log_loop m tail s)"
  using assms
proof (induction m arbitrary: tail s)
  case 0
  then show ?case by (simp add: log_writes_def performs_refl)
next
  case (Suc m)
  let ?a = "lh_block s tail" and ?b = "log_block s tail"
  note f = log_block_facts [OF Suc.prems(2), of tail] and g = home_facts [OF Suc.prems(2), of tail]
  have t: "tail < n" using Suc.prems(3) by simp
  have dv: "log_dev s = 1" "n \<le> 29" using Suc.prems(2) by (simp_all add: layout_def)
  have card: "card (pinned s) < NBUF" using card_homes [OF Suc.prems(5)] dv by simp
  have b: "?b \<notin> pinned s" using f(5) [OF t] Suc.prems(5) by (metis imageE lessThan_iff subsetD)
  have "returns (\<lambda>_. performs (log_writes s tail (Suc m)) s)
    (kbind (bread 1 ?b s) (\<lambda>to s. kbind (bread (log_dev s) (lh_block s tail) s) (\<lambda>from s.
      kbind (bwrite to (set_data to (\<lambda>_. dat s from) s)) (\<lambda>_ s. kbind (brelse from s) (\<lambda>_ s.
      kbind (brelse to s) (\<lambda>_ s. write_log_loop m (Suc tail) s))))))"
  proof (rule blocks.copy_to_first [where a = ?a])
    show "bread (log_dev u) (lh_block u tail) u = bread 1 ?a u" if "bframe s u" for u
      using dv by (simp add: bframe_log [OF that])
    fix u :: "'a log_state_scheme"
    assume u: "store {} u" "content u = (content s)(?b := content s ?a)"
      "dwrites u = (?b, content s ?a) # dwrites s" "pinned u = pinned s - {?b}" "bframe s u"
    note fr = bframe_log [OF u(5)]
    have step: "performs [(?b, content s ?a)] s u"
      using u by (simp add: performs_def disk_of_Cons)
    have "content u (lh_block s k) = content s (lh_block s k)" if "k < n" for k
      using f(5) [OF t that] u(2) by simp
    then have w: "log_writes u (Suc tail) m @ [(?b, content s ?a)] = log_writes s tail (Suc m)"
      using Suc.prems(3) unfolding log_writes_def upt_first by (auto simp: fr simp del: upt_Suc)
    have "returns (\<lambda>_. performs (log_writes u (Suc tail) m) u) (write_log_loop m (Suc tail) u)"
      by (rule Suc.IH) (use u(1,4) b Suc.prems(2-5) in \<open>simp_all add: fr\<close>)
    then show "returns (\<lambda>_. performs (log_writes s tail (Suc m)) s) (write_log_loop m (Suc tail) u)"
      by (rule returns_mono) (use performs_trans [OF step] w in metis)
  qed (use Suc.prems(1,4) card t f(4,5) g(1) in auto)
  then show ?case using dv by (simp add: log_block_def set_data_def dat_def)
qed

lemma install_loop_performs:
  fixes s :: "'a log_state_scheme"
  assumes "store {} s" and "layout n (lh_block s) s" and "tail + m \<le> n"
    and "pinned s \<subseteq> lh_block s ` {..<n}" and "pinned s = {} \<or> lh_block s ` {tail..<tail + m} \<subseteq> pinned s"
  shows "returns (\<lambda>_. performs (home_writes s tail m) s) (install_loop m tail s)"
  using assms
proof (induction m arbitrary: tail s)
  case 0
  then show ?case by (simp add: home_writes_def performs_refl)
next
  case (Suc m)
  let ?a = "log_block s tail" and ?b = "lh_block s tail"
  note f = log_block_facts [OF Suc.prems(2), of tail] and g = home_facts [OF Suc.prems(2), of tail]
  have t: "tail < n" using Suc.prems(3) by simp
  have dv: "log_dev s = 1" "n \<le> 29" using Suc.prems(2) by (simp_all add: layout_def)
  have card: "card (pinned s) < NBUF" using card_homes [OF Suc.prems(4)] dv by simp
  have p: "pinned s = {} \<or> ?b \<in> pinned s" using Suc.prems(5) by (auto dest!: subsetD [of _ _ "lh_block s tail"])
  have "returns (\<lambda>_. performs (home_writes s tail (Suc m)) s)
    (kbind (bread 1 ?a s) (\<lambda>lbuf s. kbind (bread (log_dev s) (lh_block s tail) s) (\<lambda>dbuf s.
      kbind (bwrite dbuf (set_data dbuf (\<lambda>_. dat s lbuf) s)) (\<lambda>_ s. kbind (brelse lbuf s) (\<lambda>_ s.
      kbind (brelse dbuf s) (\<lambda>_ s. install_loop m (Suc tail) s))))))"
  proof (rule blocks.copy_to_second [where b = ?b])
    show "bread (log_dev u) (lh_block u tail) u = bread 1 ?b u" if "bframe s u" for u
      using dv by (simp add: bframe_log [OF that])
    fix u :: "'a log_state_scheme"
    assume u: "store {} u" "content u = (content s)(?b := content s ?a)"
      "dwrites u = (?b, content s ?a) # dwrites s" "pinned u = pinned s - {?b}" "bframe s u"
    note fr = bframe_log [OF u(5)]
    have step: "performs [(?b, content s ?a)] s u"
      using u by (simp add: performs_def disk_of_Cons)
    have "content u (log_block s k) = content s (log_block s k)" if "k < n" for k
      using log_block_facts(5) [OF Suc.prems(2) that t] u(2) by simp
    then have w: "home_writes u (Suc tail) m @ [(?b, content s ?a)] = home_writes s tail (Suc m)"
      using Suc.prems(3) unfolding home_writes_def upt_first by (auto simp: fr simp del: upt_Suc)
    have "lh_block s k \<noteq> ?b" if "Suc tail \<le> k" "k < Suc tail + m" for k
      using g(3) [OF t, of k] that Suc.prems(3) by auto
    then have pu: "pinned u = {} \<or> lh_block u ` {Suc tail..<Suc tail + m} \<subseteq> pinned u"
      using Suc.prems(5) unfolding fr u(4) by auto
    have "returns (\<lambda>_. performs (home_writes u (Suc tail) m) u) (install_loop m (Suc tail) u)"
      by (rule Suc.IH [OF u(1) _ _ _ pu]) (use u(4) Suc.prems(2-4) in \<open>auto simp: fr\<close>)
    then show "returns (\<lambda>_. performs (home_writes s tail (Suc m)) s) (install_loop m (Suc tail) u)"
      by (rule returns_mono) (use performs_trans [OF step] w in metis)
  qed (use Suc.prems(1) card p t f(4) f(5) [OF t t] g(1) in auto)
  then show ?case using dv by (simp add: log_block_def set_data_def dat_def)
qed

section \<open>The header\<close>

lemma hb_encode_load:
  assumes "0 \<le> n" and "n \<le> 30"
  shows "sint (ld32 (hb_encode n blk d) 0) = n" and "k < nat n \<Longrightarrow> ld32 (hb_encode n blk d) (4 + 4 * k) = blk k"
proof -
  have "ld32 (fold (\<lambda>i d. st32 d (4 + 4 * i) (blk i)) [0..<m] e) 0 = ld32 e 0 \<and>
    (\<forall>k<m. ld32 (fold (\<lambda>i d. st32 d (4 + 4 * i) (blk i)) [0..<m] e) (4 + 4 * k) = blk k)" for m e
  proof (induction m)
    case (Suc m)
    let ?d = "fold (\<lambda>i d. st32 d (4 + 4 * i) (blk i)) [0..<m] e"
    have "ld32 (st32 ?d (4 + 4 * m) (blk m)) (4 + 4 * k) = ld32 ?d (4 + 4 * k)" if "k < m" for k
      by (rule ld32_st32_other) (use that in auto)
    moreover have "ld32 (st32 ?d (4 + 4 * m) (blk m)) 0 = ld32 ?d 0" by (rule ld32_st32_other) auto
    ultimately show ?case using Suc by (auto simp: less_Suc_eq)
  qed simp
  note f = this [of "nat n" "st32 d 0 (of_int n)"]
  show "sint (ld32 (hb_encode n blk d) 0) = n"
    using f assms by (simp add: hb_encode_def int_word_sint)
  show "k < nat n \<Longrightarrow> ld32 (hb_encode n blk d) (4 + 4 * k) = blk k" using f by (simp add: hb_encode_def)
qed

lemma write_head_performs:
  fixes s :: "'a log_state_scheme"
  assumes "store {} s" and "log_dev s = 1" and "log_start s < disksize s" and "card (pinned s) < NBUF"
  shows "returns (\<lambda>_. performs [(log_start s, hb_encode (lh_n s) (lh_block s) (content s (log_start s)))] s)
    (write_head s)"
proof -
  let ?f = "hb_encode (lh_n s) (lh_block s)"
  have "returns (\<lambda>_ t. store {} t \<and> content t = (content s)(log_start s := ?f (content s (log_start s))) \<and>
      dwrites t = (log_start s, ?f (content s (log_start s))) # dwrites s \<and>
      pinned t = pinned s - {log_start s} \<and> bframe s t)
    (kbind (bread 1 (log_start s) s) (\<lambda>i s.
      kbind (bwrite i (upd_buf i (\<lambda>b. b\<lparr>b_data := hb_encode (lh_n s) (lh_block s) (b_data b)\<rparr>) s)) (\<lambda>_ s. brelse i s)))"
  proof (rule blocks.update_block)
    show "upd_buf i (\<lambda>b. b\<lparr>b_data := hb_encode (lh_n u) (lh_block u) (b_data b)\<rparr>) u = set_data i ?f u"
      if "bframe s u" for i u
      by (simp add: bframe_log [OF that] set_data_def)
  qed (use assms in simp_all)
  then show ?thesis unfolding write_head_def assms(2) Let_def
    by (rule returns_mono) (simp add: performs_def disk_of_Cons)
qed

section \<open>Commit\<close>

lemma store_lh [simp]:
  "store U (s\<lparr>lh_n := n\<rparr>) = store U s" "content (s\<lparr>lh_n := n\<rparr>) = content s" "pinned (s\<lparr>lh_n := n\<rparr>) = pinned s"
  "store U (s\<lparr>lh_block := h\<rparr>) = store U s" "content (s\<lparr>lh_block := h\<rparr>) = content s"
  "pinned (s\<lparr>lh_block := h\<rparr>) = pinned s"
  "synced (s\<lparr>lh_n := n\<rparr>) i = synced s i" "synced (s\<lparr>lh_block := h\<rparr>) i = synced s i"
  by (simp_all add: synced_def store_def cache_def holds_def dirty_def content_def pinned_def fun_eq_iff cong: option.case_cong)

lemma layout_lh [simp]: "layout m home (s\<lparr>lh_n := n\<rparr>) = layout m home s"
  "layout m home (s\<lparr>lh_block := h\<rparr>) = layout m home s"
  by (simp_all add: layout_def)

text \<open>The state in which the last \<open>end_op\<close> of a transaction calls \<open>commit\<close>: the blocks of the
  transaction are pinned in the cache, and the header on disk is empty.\<close>

definition log_ready :: "'a log_state_scheme \<Rightarrow> bool" where
  "log_ready s \<longleftrightarrow> store {} s \<and> 0 < lh_n s \<and> layout (nat (lh_n s)) (lh_block s) s \<and>
     pinned s = lh_block s ` {..<nat (lh_n s)} \<and> sint (ld32 (disk s (log_start s)) 0) = 0"

definition head_full :: "'a log_state_scheme \<Rightarrow> bytes" where
  "head_full s = hb_encode (lh_n s) (lh_block s) (content s (log_start s))"

definition head_empty :: "'a log_state_scheme \<Rightarrow> bytes" where
  "head_empty s = hb_encode 0 (lh_block s) (head_full s)"

definition installs :: "'a log_state_scheme \<Rightarrow> (u32 \<times> bytes) list" where
  "installs s = rev (map (\<lambda>k. (lh_block s k, content s (lh_block s k))) [0..<nat (lh_n s)])"

definition log_part :: "'a log_state_scheme \<Rightarrow> (u32 \<times> bytes) list" where
  "log_part s = log_writes s 0 (nat (lh_n s))"

lemma map_of_rev_map:
  assumes "distinct (map f [0..<n])" and "k < n"
  shows "map_of (rev (map (\<lambda>k. (f k, g k)) [0..<n])) (f k) = Some (g k)"
proof (rule map_of_is_SomeI)
  show "distinct (map fst (rev (map (\<lambda>k. (f k, g k)) [0..<n])))"
    using assms(1) by (simp add: rev_map [symmetric] comp_def)
qed (use assms(2) in auto)

lemma log_part_content:
  assumes "log_ready s" and "k < nat (lh_n s)"
  shows "disk_of img (log_part s) (log_block s k) = content s (lh_block s k)"
proof -
  have l: "layout (nat (lh_n s)) (lh_block s) s" using assms(1) by (simp add: log_ready_def)
  have "distinct (map (log_block s) [0..<nat (lh_n s)])"
    unfolding distinct_map by (auto simp: inj_on_def log_block_facts(3) [OF l])
  from map_of_rev_map [OF this assms(2), of "\<lambda>k. content s (lh_block s k)"] show ?thesis
    by (simp add: disk_of_def log_part_def log_writes_def)
qed

lemma log_part_fst:
  assumes "log_ready s"
  shows "fst ` set (log_part s) \<subseteq> log_area (log_start s) (nat (lh_n s))" and "log_start s \<notin> fst ` set (log_part s)"
proof -
  have l: "layout (nat (lh_n s)) (lh_block s) s" using assms(1) by (simp add: log_ready_def)
  show "fst ` set (log_part s) \<subseteq> log_area (log_start s) (nat (lh_n s))"
    by (auto simp: log_part_def log_writes_def log_block_facts(1) [OF l])
  show "log_start s \<notin> fst ` set (log_part s)"
    using log_block_facts(2) [OF l] by (fastforce simp: log_part_def log_writes_def)
qed

lemma installs_facts:
  assumes "log_ready s"
  shows "k < nat (lh_n s) \<Longrightarrow> disk_of img (installs s) (lh_block s k) = content s (lh_block s k)"
    and "b \<in> log_area (log_start s) (nat (lh_n s)) \<Longrightarrow> b \<notin> fst ` set (installs s)"
    and "fst ` set (installs s) = lh_block s ` {..<nat (lh_n s)}"
proof -
  have l: "layout (nat (lh_n s)) (lh_block s) s" using assms(1) by (simp add: log_ready_def)
  then have "distinct (map (lh_block s) [0..<nat (lh_n s)])" by (simp add: layout_def)
  then show "k < nat (lh_n s) \<Longrightarrow> disk_of img (installs s) (lh_block s k) = content s (lh_block s k)"
    using map_of_rev_map [of "lh_block s" "nat (lh_n s)" k "\<lambda>k. content s (lh_block s k)"]
    by (simp add: disk_of_def installs_def)
  show i: "fst ` set (installs s) = lh_block s ` {..<nat (lh_n s)}"
    by (auto simp: installs_def image_image atLeast0LessThan)
  show "b \<in> log_area (log_start s) (nat (lh_n s)) \<Longrightarrow> b \<notin> fst ` set (installs s)"
    using l unfolding i by (auto simp: layout_def)
qed

definition commit_writes :: "'a log_state_scheme \<Rightarrow> (u32 \<times> bytes) list" where
  "commit_writes s = (log_start s, head_empty s) # installs s @ (log_start s, head_full s) # log_part s"

lemma ready_home:
  assumes r: "log_ready s" and k: "k < nat (lh_n s)"
  shows "lh_block s k \<notin> fst ` set (log_part s)" and "lh_block s k \<noteq> log_start s"
    and "lh_block s k \<notin> log_area (log_start s) (nat (lh_n s))"
proof -
  have l: "layout (nat (lh_n s)) (lh_block s) s" using r by (simp add: log_ready_def)
  then show a: "lh_block s k \<notin> log_area (log_start s) (nat (lh_n s))" using k by (simp add: layout_def)
  with log_part_fst(1) [OF r] show "lh_block s k \<notin> fst ` set (log_part s)" by (rule contra_subsetD)
  show "lh_block s k \<noteq> log_start s" using a by (auto simp: log_area_def)
qed

lemma Diff_keep: "(\<And>b. b \<in> A \<Longrightarrow> b \<notin> X) \<Longrightarrow> A - X = A"
  by blast

lemma ready_pinned:
  assumes r: "log_ready s"
  shows "pinned s - fst ` set (log_part s) = pinned s" and "pinned s - {log_start s} = pinned s"
    and "card (pinned s) < NBUF"
proof -
  have p: "pinned s = lh_block s ` {..<nat (lh_n s)}" and "nat (lh_n s) \<le> 29"
    using r by (simp_all add: log_ready_def layout_def)
  then show "card (pinned s) < NBUF" using card_homes [of "pinned s" "lh_block s" "nat (lh_n s)"] by simp
  have h: "\<exists>k<nat (lh_n s). b = lh_block s k" if "b \<in> pinned s" for b using that unfolding p by auto
  show "pinned s - fst ` set (log_part s) = pinned s"
    by (rule Diff_keep) (use h ready_home(1) [OF r] in metis)
  show "pinned s - {log_start s} = pinned s"
    by (rule Diff_keep) (use h ready_home(2) [OF r] in \<open>metis singletonD\<close>)
qed

lemma commit_logs:
  fixes s :: "'a log_state_scheme"
  assumes r: "log_ready s"
  shows "returns (\<lambda>_ v. performs ((log_start s, head_full s) # log_part s) s v \<and> pinned v = pinned s)
    (kbind (write_log s) (\<lambda>_. write_head))"
proof -
  let ?n = "nat (lh_n s)" and ?L = "log_start s"
  have st: "store {} s" and l: "layout ?n (lh_block s) s" and pin: "pinned s = lh_block s ` {..<?n}"
    using r by (simp_all add: log_ready_def)
  have dv: "log_dev s = 1" "?L < disksize s" using l by (simp_all add: layout_def log_area_def)
  have w: "returns (\<lambda>_. performs (log_part s) s) (write_log s)"
    unfolding write_log_def log_part_def by (rule write_log_loop_performs [OF st l]) (simp_all add: pin)
  show ?thesis
  proof (rule returns_kbindI [OF w])
    fix x u
    assume u: "performs (log_part s) s u"
    note fu = bframe_log [OF performs_frame [OF u]]
    have pu: "store {} u" "pinned u = pinned s" "content u = disk_of (content s) (log_part s)"
      using u ready_pinned(1) [OF r] by (simp_all add: performs_def)
    have "content u ?L = content s ?L" using disk_of_other [OF log_part_fst(2) [OF r]] pu(3) by simp
    then have "returns (\<lambda>_. performs [(?L, head_full s)] u) (write_head u)"
      using write_head_performs [OF pu(1)] dv ready_pinned(3) [OF r] by (simp add: fu pu(2) head_full_def)
    then show "returns (\<lambda>_ v. performs ((?L, head_full s) # log_part s) s v \<and> pinned v = pinned s) (write_head u)"
    proof (rule returns_mono)
      fix y v
      assume v: "performs [(?L, head_full s)] u v"
      from performs_trans [OF u v] v pu(2) ready_pinned(2) [OF r]
      show "performs ((?L, head_full s) # log_part s) s v \<and> pinned v = pinned s" by (simp add: performs_def)
    qed
  qed
qed

lemma commit_installs:
  fixes s :: "'a log_state_scheme"
  assumes r: "log_ready s" and v: "performs ((log_start s, head_full s) # log_part s) s v" and p: "pinned v = pinned s"
  shows "returns (\<lambda>_ a. performs (installs s @ (log_start s, head_full s) # log_part s) s a \<and> pinned a = {})
    (install_trans v)"
proof -
  let ?n = "nat (lh_n s)" and ?L = "log_start s"
  have l: "layout ?n (lh_block s) s" and pin: "pinned s = lh_block s ` {..<?n}"
    using r by (simp_all add: log_ready_def)
  note fv = bframe_log [OF performs_frame [OF v]]
  have pv: "store {} v" "content v = disk_of (content s) ((?L, head_full s) # log_part s)"
    using v by (auto simp: performs_def)
  have "content v (log_block s k) = content s (lh_block s k)" if "k < ?n" for k
    using log_part_content [OF r that] log_block_facts(2) [OF l that] by (simp add: pv(2) disk_of_Cons)
  then have hw: "home_writes v 0 ?n = installs s" by (auto simp: home_writes_def installs_def fv)
  have "returns (\<lambda>_. performs (installs s) v) (install_trans v)"
    unfolding install_trans_def hw [symmetric] fv(3)
    by (rule install_loop_performs [where n = ?n, OF pv(1)]) (use l pin p in \<open>simp_all add: fv atLeast0LessThan\<close>)
  then show ?thesis
  proof (rule returns_mono)
    fix x a
    assume a: "performs (installs s) v a"
    have "pinned a = {}" using a p pin installs_facts(3) [OF r] by (simp add: performs_def)
    with performs_trans [OF v a]
    show "performs (installs s @ (?L, head_full s) # log_part s) s a \<and> pinned a = {}" by simp
  qed
qed

definition committed :: "'a log_state_scheme \<Rightarrow> 'a log_state_scheme \<Rightarrow> bool" where
  "committed s t \<longleftrightarrow> store {} t \<and> dwrites t = commit_writes s @ dwrites s \<and> dimage t = dimage s \<and>
     content t = disk_of (content s) (commit_writes s) \<and> pinned t = {} \<and> lh_n t = 0 \<and> bframe (s\<lparr>lh_n := 0\<rparr>) t"

lemma bframe_lh: "bframe s t \<Longrightarrow> bframe (s\<lparr>lh_n := n\<rparr>) (t\<lparr>lh_n := n\<rparr>)"
proof (elim bframeE)
  fix ps sl bs ws
  assume "t = s\<lparr>procs := ps, slk := sl, bufs := bs, dwrites := ws\<rparr>"
  then have "t\<lparr>lh_n := n\<rparr> = s\<lparr>lh_n := n, procs := ps, slk := sl, bufs := bs, dwrites := ws\<rparr>"
    by (simp add: log_state.equality)
  then show ?thesis by (rule bframeI)
qed

lemma commit_performs:
  fixes s :: "'a log_state_scheme"
  assumes r: "log_ready s"
  shows "returns (\<lambda>_. committed s) (commit s)"
proof -
  let ?L = "log_start s"
  have n: "0 < lh_n s" and dv: "log_dev s = 1" "?L < disksize s"
    using r by (simp_all add: log_ready_def layout_def log_area_def)
  have "returns (\<lambda>_. committed s) (kbind (kbind (write_log s) (\<lambda>_. write_head)) (\<lambda>_ s.
      kbind (install_trans s) (\<lambda>_ s. write_head (s\<lparr>lh_n := 0\<rparr>))))"
  proof (rule returns_kbindI [OF commit_logs [OF r]], elim conjE, rule returns_kbindI [OF commit_installs [OF r]])
    fix x a
    assume a0: "performs (installs s @ (?L, head_full s) # log_part s) s a \<and> pinned a = {}"
    then have a: "performs (installs s @ (?L, head_full s) # log_part s) s a" ..
    note fa = bframe_log [OF performs_frame [OF a]]
    have pa: "store {} a" "pinned a = {}"
      "content a = disk_of (content s) (installs s @ (?L, head_full s) # log_part s)"
      using a0 by (auto simp: performs_def)
    have "content a ?L = head_full s"
      using disk_of_other [OF installs_facts(2) [OF r, of ?L]]
      by (simp add: pa(3) disk_of_append disk_of_Cons log_area_def)
    then have "returns (\<lambda>_. performs [(?L, head_empty s)] (a\<lparr>lh_n := 0\<rparr>)) (write_head (a\<lparr>lh_n := 0\<rparr>))"
      using write_head_performs [of "a\<lparr>lh_n := 0\<rparr>"] dv pa by (simp add: fa head_empty_def)
    then show "returns (\<lambda>_. committed s) (write_head (a\<lparr>lh_n := 0\<rparr>))"
    proof (rule returns_mono)
      fix b t
      assume t: "performs [(?L, head_empty s)] (a\<lparr>lh_n := 0\<rparr>) t"
      note ft = bframe_log [OF performs_frame [OF t]]
      have "bframe (s\<lparr>lh_n := 0\<rparr>) t"
        by (rule bframe_trans [OF bframe_lh [OF performs_frame [OF a]] performs_frame [OF t]])
      then show "committed s t"
        using t a pa by (simp add: ft fa performs_def committed_def commit_writes_def disk_of_Cons disk_of_append)
    qed
  qed
  then show ?thesis using n by (simp add: commit_def kbind_assoc)
qed

section \<open>Recovery\<close>

lemma content_unpinned:
  assumes "store {} s" and "b \<notin> pinned s"
  shows "content s b = disk s b"
proof -
  have c: "cache {} s" using assms(1) by (simp add: store_def)
  show "content s b = disk s b"
  proof (cases "\<exists>i. holds s i b")
    case True
    then obtain i where i: "holds s i b" by blast
    then have "\<not> dirty s i" using assms(2) by (auto simp: pinned_def)
    with content_holds [OF c i] cacheD(9) [OF c i] show ?thesis by simp
  next
    case False
    then show ?thesis by (simp add: content_not_held)
  qed
qed

lemma content_clean: "store {} s \<Longrightarrow> pinned s = {} \<Longrightarrow> content s = disk s"
  by (rule ext) (simp add: content_unpinned)

lemma layout_cong: "(\<And>k. k < n \<Longrightarrow> f k = g k) \<Longrightarrow> layout n f s = layout n g s"
proof -
  assume a: "\<And>k. k < n \<Longrightarrow> f k = g k"
  then have eq: "map f [0..<n] = map g [0..<n]" by simp
  show ?thesis unfolding layout_def eq using a by simp
qed

text \<open>Recovery starts with an empty cache.\<close>

definition clean :: "'a log_state_scheme \<Rightarrow> bool" where
  "clean r \<longleftrightarrow> store {} r \<and> pinned r = {} \<and> log_dev r = 1 \<and> log_start r < disksize r"

definition same_disk :: "'a log_state_scheme \<Rightarrow> 'a log_state_scheme \<Rightarrow> bool" where
  "same_disk r u \<longleftrightarrow> clean u \<and> content u = content r \<and> dwrites u = dwrites r \<and> dimage u = dimage r \<and>
     disksize u = disksize r \<and> log_start u = log_start r"

lemma read_head_result:
  fixes r :: "'a log_state_scheme"
  assumes r: "clean r"
  defines "h \<equiv> content r (log_start r)"
  shows "returns (\<lambda>_ u. same_disk r u \<and> lh_n u = sint (ld32 h 0) \<and>
    (\<forall>k. int k < lh_n u \<longrightarrow> lh_block u k = ld32 h (4 + 4 * k))) (read_head r)"
proof -
  have st: "store {} r" "log_start r < disksize r" "card (pinned r) < NBUF" and p: "pinned r = {}"
    and dv: "log_dev r = 1" using r by (simp_all add: clean_def)
  show ?thesis unfolding read_head_def dv
  proof (rule blocks.read_block [OF st(1,2)])
    fix i and t :: "'a log_state_scheme"
    assume t: "dat t i = content r (log_start r)" "bframe r t" "store {i} t" "content t = content r"
      "dwrites t = dwrites r" "pinned t = pinned r" "synced t i"
    note ft = bframe_log [OF t(2)]
    let ?n = "sint (ld32 h 0)"
    let ?t = "t\<lparr>lh_n := ?n, lh_block := (\<lambda>k. if int k < ?n then ld32 h (4 + 4 * k) else lh_block t k)\<rparr>"
    have d: "b_data (bufs t i) = h" using t(1) by (simp add: dat_def h_def)
    have "returns (\<lambda>_ u. store {} u \<and> content u = content ?t \<and> dwrites u = dwrites ?t \<and> pinned u = pinned ?t \<and>
        bframe ?t u) (brelse i ?t)"
      using brelse_law [of "{i}" ?t i] t(3,7) by (auto elim!: returns_mono)
    then have "returns (\<lambda>_ u. same_disk r u \<and> lh_n u = ?n \<and> (\<forall>k. int k < lh_n u \<longrightarrow> lh_block u k = ld32 h (4 + 4 * k)))
        (brelse i ?t)"
    proof (rule returns_mono)
      fix x u
      assume u: "store {} u \<and> content u = content ?t \<and> dwrites u = dwrites ?t \<and> pinned u = pinned ?t \<and> bframe ?t u"
      then have "bframe ?t u" by blast
      note fu = bframe_log [OF this]
      show "same_disk r u \<and> lh_n u = ?n \<and> (\<forall>k. int k < lh_n u \<longrightarrow> lh_block u k = ld32 h (4 + 4 * k))"
        using u t r p by (simp add: same_disk_def clean_def fu ft)
    qed
    then show "returns (\<lambda>_ u. same_disk r u \<and> lh_n u = ?n \<and> (\<forall>k. int k < lh_n u \<longrightarrow> lh_block u k = ld32 h (4 + 4 * k)))
       (let d = b_data (bufs t i); n = sint (ld32 d 0);
            s = t\<lparr>lh_n := n, lh_block := \<lambda>k. if int k < n then ld32 d (4 + 4 * k) else lh_block t k\<rparr>
        in brelse i s)"
      by (simp add: d Let_def)
  qed (use st in simp)
qed

definition recovered :: "(nat \<Rightarrow> u32) \<Rightarrow> nat \<Rightarrow> 'a log_state_scheme \<Rightarrow> (u32 \<times> bytes) list" where
  "recovered home n r = rev (map (\<lambda>k. (home k, disk r (log_block r k))) [0..<n])"

lemma recover_result:
  fixes r :: "'a log_state_scheme"
  assumes r: "clean r"
  defines "h \<equiv> disk r (log_start r)"
  defines "n \<equiv> sint (ld32 h 0)" and "home \<equiv> \<lambda>k. ld32 h (4 + 4 * k)"
  assumes n: "0 \<le> n" and l: "layout (nat n) home r"
  shows "returns (\<lambda>_ u. \<exists>h0. disk u = disk_of (disk r) ((log_start r, h0) # recovered home (nat n) r)) (recover_from_log r)"
proof -
  have c: "content r = disk r" using r by (intro content_clean) (simp_all add: clean_def)
  show ?thesis unfolding recover_from_log_def
  proof (rule returns_kbindI [OF read_head_result [OF r]])
    fix x u
    assume "same_disk r u \<and> lh_n u = sint (ld32 (content r (log_start r)) 0) \<and>
      (\<forall>k. int k < lh_n u \<longrightarrow> lh_block u k = ld32 (content r (log_start r)) (4 + 4 * k))"
    then have u: "clean u" "content u = disk r" "disksize u = disksize r" "log_start u = log_start r"
      "lh_n u = n" and hb: "\<And>k. k < nat n \<Longrightarrow> lh_block u k = home k"
      unfolding c same_disk_def n_def home_def h_def by auto
    have lu: "layout (nat n) (lh_block u) u"
      using l u r layout_cong [of "nat n" "lh_block u" home u] hb by (simp add: layout_def clean_def)
    have lb: "log_block u = log_block r" by (simp add: log_block_def u(4) fun_eq_iff)
    have hw: "home_writes u 0 (nat n) = recovered home (nat n) r"
      using hb by (simp add: home_writes_def recovered_def u(2) lb cong: map_cong)
    have i: "returns (\<lambda>_. performs (recovered home (nat n) r) u) (install_trans u)"
      unfolding install_trans_def u(5) hw [symmetric]
      by (rule install_loop_performs [where n = "nat n"]) (use u(1) lu in \<open>simp_all add: clean_def\<close>)
    show "returns (\<lambda>_ u. \<exists>h0. disk u = disk_of (disk r) ((log_start r, h0) # recovered home (nat n) r))
      (kbind (install_trans u) (\<lambda>_ s. write_head (s\<lparr>lh_n := 0\<rparr>)))"
    proof (rule returns_kbindI [OF i])
      fix y v
      assume v: "performs (recovered home (nat n) r) u v"
      note fv = bframe_log [OF performs_frame [OF v]]
      have pv: "store {} v" "pinned v = {}" "content v = disk_of (disk r) (recovered home (nat n) r)"
        using v u by (auto simp: performs_def clean_def)
      have "returns (\<lambda>_. performs [(log_start r, hb_encode 0 (lh_block v) (content v (log_start r)))] (v\<lparr>lh_n := 0\<rparr>))
          (write_head (v\<lparr>lh_n := 0\<rparr>))"
        using write_head_performs [of "v\<lparr>lh_n := 0\<rparr>"] u pv by (simp add: fv clean_def)
      then show "returns (\<lambda>_ u. \<exists>h0. disk u = disk_of (disk r) ((log_start r, h0) # recovered home (nat n) r))
          (write_head (v\<lparr>lh_n := 0\<rparr>))"
      proof (rule returns_mono)
        fix z w
        assume w: "performs [(log_start r, hb_encode 0 (lh_block v) (content v (log_start r)))] (v\<lparr>lh_n := 0\<rparr>) w"
        then have "disk w = content w" using content_clean [of w] pv(2) by (simp add: performs_def)
        with w pv(3) show "\<exists>h0. disk w = disk_of (disk r) ((log_start r, h0) # recovered home (nat n) r)"
          by (auto simp: performs_def disk_of_Cons)
      qed
    qed
  qed
qed

section \<open>Crashes\<close>

text \<open>The state after a crash at which the writes \<open>done\<close> of the transaction had reached the disk and
  a reboot: the cache is empty.\<close>

definition rebooted :: "(u32 \<times> bytes) list \<Rightarrow> 'a log_state_scheme \<Rightarrow> 'a log_state_scheme \<Rightarrow> bool" where
  "rebooted done s r \<longleftrightarrow> clean r \<and> dimage r = dimage s \<and> dwrites r = done @ dwrites s \<and>
     disksize r = disksize s \<and> log_start r = log_start s"

lemma append_split:
  assumes "xs @ ys = as @ h # bs"
  shows "(\<exists>z. bs = z @ ys) \<or> (\<exists>z. as = xs @ z \<and> ys = z @ h # bs)"
  using assms by (auto simp: append_eq_append_conv2 append_eq_Cons_conv)

lemma crash_points:
  assumes "lost @ done = commit_writes s"
  shows "(\<exists>x. log_part s = x @ done) \<or>
    (\<exists>x y. installs s = x @ y \<and> done = y @ (log_start s, head_full s) # log_part s) \<or>
    done = commit_writes s"
proof (cases lost)
  case Nil
  with assms show ?thesis by simp
next
  case (Cons w lost')
  with assms have "lost' @ done = installs s @ (log_start s, head_full s) # log_part s"
    by (simp add: commit_writes_def)
  from append_split [OF this] show ?thesis by blast
qed

abbreviation area :: "'a log_state_scheme \<Rightarrow> u32 set" where
  "area s \<equiv> log_area (log_start s) (nat (lh_n s))"

lemma new_content:
  assumes r: "log_ready s" and "b \<notin> area s" and "\<And>w. w \<in> fst ` set ws \<Longrightarrow> w \<in> area s"
  shows "disk_of (disk_of (disk s) ws) (installs s) b = content s b"
proof (cases "\<exists>k<nat (lh_n s). b = lh_block s k")
  case True
  then show ?thesis using installs_facts(1) [OF r] by auto
next
  case False
  then have "b \<notin> fst ` set (installs s)" "b \<notin> pinned s"
    unfolding installs_facts(3) [OF r] using r by (auto simp: log_ready_def)
  moreover have "b \<notin> fst ` set ws" using assms(2,3) by blast
  ultimately show ?thesis using content_unpinned [of s b] r by (simp add: log_ready_def disk_of_other)
qed

lemma recover_empty:
  assumes "clean r" and "sint (ld32 (disk r (log_start r)) 0) = 0"
  shows "returns (\<lambda>_ u. \<forall>b. b \<noteq> log_start r \<longrightarrow> disk u b = disk r b) (recover_from_log r)"
proof -
  have "layout 0 home r" for home using assms(1) by (simp add: layout_def clean_def log_area_def)
  with recover_result [OF assms(1)] assms(2) show ?thesis
    by (auto simp: recovered_def disk_of_Cons elim!: returns_mono)
qed

lemma recover_full:
  fixes s r :: "'a log_state_scheme"
  assumes s: "log_ready s" and r: "rebooted (y @ (log_start s, head_full s) # log_part s) s r"
    and y: "fst ` set y \<subseteq> fst ` set (installs s)"
  shows "returns (\<lambda>_ u. \<forall>b. b \<notin> area s \<longrightarrow> disk u b = content s b) (recover_from_log r)"
proof -
  let ?n = "nat (lh_n s)" and ?L = "log_start s"
  have l: "layout ?n (lh_block s) s" and n: "0 < lh_n s" "lh_n s \<le> 30"
    using s by (auto simp: log_ready_def layout_def)
  have c: "clean r" and L: "log_start r = ?L" and sz: "disksize r = disksize s" using r by (simp_all add: rebooted_def)
  have d: "disk r = disk_of (disk_of (disk s) ((?L, head_full s) # log_part s)) y"
    using r by (simp add: rebooted_def disk_of_append disk_of_Cons)
  have ya: "b \<notin> fst ` set y" if "b \<in> area s" for b using y installs_facts(2) [OF s that] by blast
  have "?L \<in> area s" by (simp add: log_area_def)
  then have h: "disk r ?L = head_full s" by (simp add: d disk_of_other [OF ya] disk_of_Cons)
  have hd: "sint (ld32 (disk r ?L) 0) = lh_n s" "\<And>k. k < ?n \<Longrightarrow> ld32 (disk r ?L) (4 + 4 * k) = lh_block s k"
    unfolding h head_full_def using hb_encode_load n by simp_all
  have lb: "log_block r = log_block s" by (simp add: log_block_def L fun_eq_iff)
  have dl: "disk r (log_block s k) = content s (lh_block s k)" if "k < ?n" for k
    using log_part_content [OF s that] log_block_facts(1,2) [OF l that]
    by (simp add: d disk_of_other [OF ya] disk_of_Cons)
  have lr: "layout ?n (\<lambda>k. ld32 (disk r ?L) (4 + 4 * k)) r"
    using l layout_cong [of ?n "\<lambda>k. ld32 (disk r ?L) (4 + 4 * k)" "lh_block s" r] hd(2) c
    by (simp add: layout_def L sz clean_def)
  have rec: "recovered (\<lambda>k. ld32 (disk r ?L) (4 + 4 * k)) ?n r = installs s"
    using hd(2) dl by (simp add: recovered_def installs_def lb cong: map_cong)
  have "returns (\<lambda>_ u. \<exists>h0. disk u = disk_of (disk r) ((?L, h0) # installs s)) (recover_from_log r)"
    using recover_result [OF c] lr n(1) by (simp add: L hd(1) rec)
  then show ?thesis
  proof (rule returns_mono, elim exE, intro allI impI)
    fix u h0 b
    assume u: "disk u = disk_of (disk r) ((?L, h0) # installs s)" and b: "b \<notin> area s"
    show "disk u b = content s b"
    proof (cases "b \<in> fst ` set (installs s)")
      case True
      then obtain k where "k < ?n" "b = lh_block s k" unfolding installs_facts(3) [OF s] by auto
      with u b show ?thesis using installs_facts(1) [OF s] by (auto simp: disk_of_Cons log_area_def)
    next
      case False
      then have "b \<notin> pinned s" "b \<notin> fst ` set y"
        using s y unfolding installs_facts(3) [OF s] by (auto simp: log_ready_def)
      moreover have "b \<noteq> ?L" "b \<notin> fst ` set (log_part s)" using b log_part_fst(1) [OF s] by (auto simp: log_area_def)
      ultimately show ?thesis using False content_unpinned [of s b] s
        by (simp add: u d disk_of_Cons disk_of_other log_ready_def)
    qed
  qed
qed

lemma commit_new:
  assumes "log_ready s" and "b \<notin> area s"
  shows "disk_of (disk s) (commit_writes s) b = content s b"
proof -
  have la: "b \<in> area s" if "b \<in> fst ` set ((log_start s, x) # log_part s)" for b x
    using that log_part_fst(1) [OF assms(1)] by (auto simp: log_area_def)
  show ?thesis
    using new_content [OF assms la, of "(log_start s, head_full s) # log_part s"] assms(2)
    by (simp add: commit_writes_def disk_of_Cons disk_of_append log_area_def)
qed

text \<open>C2: a transaction is atomic. From a state in which a transaction is ready to be committed,
  \<open>commit\<close> returns with the new content of every block on disk and an empty log. If the machine
  crashes after any number of the writes that \<open>commit\<close> makes, recovery returns, and then every
  block outside the log has its content from before the transaction, or every one has its
  content from after it.\<close>

theorem commit_crash_atomic:
  fixes s :: "'a log_state_scheme"
  assumes "log_ready s"
  shows "\<exists>t ws. commit s = Ret () t \<and> lh_n t = 0 \<and> dwrites t = ws @ dwrites s \<and>
    (\<forall>b. b \<notin> area s \<longrightarrow> disk t b = content s b) \<and>
    (\<forall>lost done r. ws = lost @ done \<longrightarrow> rebooted done s (r :: 'a log_state_scheme) \<longrightarrow>
       returns (\<lambda>_ u. (\<forall>b. b \<notin> area s \<longrightarrow> disk u b = disk s b) \<or> (\<forall>b. b \<notin> area s \<longrightarrow> disk u b = content s b))
         (recover_from_log r))"
proof -
  from commit_performs [OF assms] obtain t where t: "commit s = Ret () t" "committed s t" by (auto elim!: returnsE)
  have ne: "b \<noteq> log_start s" if "b \<notin> area s" for b using that by (auto simp: log_area_def)
  note new = commit_new [OF assms]
  have "disk t b = content s b" if "b \<notin> area s" for b
    using t(2) new [OF that] by (simp add: committed_def disk_of_append)
  moreover have "returns (\<lambda>_ u. (\<forall>b. b \<notin> area s \<longrightarrow> disk u b = disk s b) \<or> (\<forall>b. b \<notin> area s \<longrightarrow> disk u b = content s b))
         (recover_from_log r)"
    if ws: "commit_writes s = lost @ done" and r: "rebooted done s r" for lost "done" and r :: "'a log_state_scheme"
  proof -
    have c: "clean r" "log_start r = log_start s" and d: "disk r = disk_of (disk s) done"
      using r by (simp_all add: rebooted_def disk_of_append)
    from crash_points [OF ws [symmetric]] consider x where "log_part s = x @ done"
      | x y where "installs s = x @ y" "done = y @ (log_start s, head_full s) # log_part s"
      | "done = commit_writes s" by blast
    then show ?thesis
    proof cases
      case 1
      then have f: "fst ` set done \<subseteq> fst ` set (log_part s)" by auto
      then have same: "disk r b = disk s b" if "b \<notin> fst ` set (log_part s)" for b
        unfolding d using that by (intro disk_of_other) blast
      have "sint (ld32 (disk r (log_start r)) 0) = 0"
        using same [OF log_part_fst(2) [OF assms]] assms c(2) by (simp add: log_ready_def)
      moreover have "disk r b = disk s b" if "b \<notin> area s" for b
        by (rule same, rule contra_subsetD [OF log_part_fst(1) [OF assms] that])
      ultimately show ?thesis using recover_empty [OF c(1)] ne by (auto simp: c(2) elim!: returns_mono)
    next
      case 2
      then have "fst ` set y \<subseteq> fst ` set (installs s)" by auto
      from recover_full [OF assms r [unfolded 2(2)] this] show ?thesis by (auto elim!: returns_mono)
    next
      case 3
      then have "disk r (log_start r) = head_empty s" using c(2) by (simp add: d commit_writes_def disk_of_Cons)
      then have "sint (ld32 (disk r (log_start r)) 0) = 0" by (simp add: head_empty_def hb_encode_load(1))
      from recover_empty [OF c(1) this] new ne show ?thesis unfolding c(2) d 3 by (auto elim!: returns_mono)
    qed
  qed
  ultimately show ?thesis using t unfolding committed_def by blast
qed

text \<open>A transaction for the witness: buffer 7 holds the new content of block 50, and the log starts at
  block 2.\<close>

definition demo_bufs :: "nat \<Rightarrow> buf" where
  "demo_bufs i = \<lparr>b_flags = (if i = 7 then 6 else 0), b_dev = (if i = 7 then 1 else 0), b_blockno = (if i = 7 then 50 else 0),
     b_refcnt = 0, b_prev = (if i = NBUF then 0 else i + 1), b_next = (if i = 0 then NBUF else i - 1),
     b_qnext = None, b_data = (\<lambda>_. 1)\<rparr>"

definition demo_log :: log_state where
  "demo_log = bio_state.extend (cons_state.extend cons_start (bio_state.fields demo_bufs 100 (\<lambda>_ _. 0) []))
     (log_state.fields 2 30 0 True 1 1 (\<lambda>_. 50))"

lemma demo_log_simps [simp]:
  "held demo_log = {}" "curproc demo_log = Some 0" "bufs demo_log = demo_bufs" "disksize demo_log = 100"
  "dimage demo_log = (\<lambda>_ _. 0)" "dwrites demo_log = []" "log_start demo_log = 2" "log_dev demo_log = 1"
  "lh_n demo_log = 1" "lh_block demo_log = (\<lambda>_. 50)" "slk demo_log = slk sched_start"
  by (simp_all add: demo_log_def cons_start_def pipe_start_def sched_start_def log_state.defs bio_state.defs
    cons_state.defs hw_state.defs pipe_state.defs sched_state.defs)

lemma demo_next: "chain (\<lambda>i. if i = 0 then NBUF else i - 1) n (rev [0..<n]) NBUF"
  by (induction n) auto

lemma demo_prev: "k + m < N \<Longrightarrow> chain (\<lambda>i. if i = N then 0 else i + 1) k [Suc k..<Suc k + m] (Suc (k + m))"
proof (induction m arbitrary: k)
  case (Suc m)
  then show ?case using Suc.IH [of "Suc k"] unfolding upt_first by auto
qed simp

lemma demo_lru: "lru demo_bufs (rev [0..<NBUF])"
proof -
  have "chain (\<lambda>i. if i = NBUF then 0 else i + 1) 0 [Suc 0..<Suc 29] NBUF" using demo_prev [of 0 29 NBUF] by simp
  then have "chain (\<lambda>i. if i = NBUF then 0 else i + 1) NBUF (0 # [Suc 0..<Suc 29]) NBUF" by simp
  then have "chain (\<lambda>i. if i = NBUF then 0 else i + 1) NBUF [0..<NBUF] NBUF"
    using upt_conv_Cons [of 0 NBUF] by simp
  then show ?thesis using demo_next [of NBUF] by (simp add: lru_def demo_bufs_def atLeast0LessThan)
qed

lemma demo_ready: "log_ready demo_log"
proof -
  have h: "holds demo_log i b \<longleftrightarrow> i = 7 \<and> b = 50" for i b by (auto simp: holds_def demo_bufs_def)
  have d: "dirty demo_log i \<longleftrightarrow> i = 7" for i by (simp add: dirty_def demo_bufs_def)
  have "cache {} demo_log"
    by (rule cacheI [where p = 0 and xs = "rev [0..<NBUF]"])
      (use demo_lru in \<open>auto simp: h d demo_bufs_def sched_start_def\<close>)
  moreover have "pinned demo_log = {50}" by (auto simp: pinned_def h d)
  ultimately show ?thesis by (auto simp: log_ready_def store_def layout_def log_area_def ld32_def disk_of_def)
qed

theorem commit_crash_atomic_witness:
  "\<exists>t. commit demo_log = Ret () t \<and> disk t 50 = (\<lambda>_. 1)"
proof -
  have "holds demo_log 7 50" by (simp add: holds_def demo_bufs_def)
  then have "content demo_log 50 = (\<lambda>_. 1)"
    using content_holds [of "{}" demo_log 7 50] demo_ready by (simp add: log_ready_def store_def demo_bufs_def)
  moreover have "(50 :: u32) \<notin> area demo_log" by (auto simp: log_area_def)
  ultimately show ?thesis using commit_crash_atomic [OF demo_ready] by metis
qed

end
