(* ===== verification/Txn.thy ===== *)
theory Txn
  imports Crash
begin

text \<open>
  Inside a transaction: a system call changes a block with \<open>bread\<close>, \<open>log_write\<close> and \<open>brelse\<close>. Every
  such update keeps the invariant \<open>log_pending\<close>, under which \<open>commit\<close> is atomic.
\<close>

section \<open>log_write\<close>

definition logged :: "nat \<Rightarrow> 'a log_state_scheme \<Rightarrow> 'a log_state_scheme" where
  "logged i s = upd_buf i (\<lambda>b. b\<lparr>b_flags := b_flags b OR B_DIRTY\<rparr>) s"

lemma or_dirty [simp]: "(fl OR B_DIRTY) AND B_DIRTY \<noteq> (0 :: u32)" "fl AND B_VALID \<noteq> 0 \<Longrightarrow> (fl OR B_DIRTY) AND B_VALID \<noteq> 0"
proof -
  have "bit ((fl OR B_DIRTY) AND B_DIRTY) 2" by (simp add: bit_simps)
  then show "(fl OR B_DIRTY) AND B_DIRTY \<noteq> 0" by auto
  assume "fl AND B_VALID \<noteq> 0"
  then obtain n where "bit (fl AND B_VALID) n" by (metis bit_eq_iff bit_0_eq bot_apply bot_bool_def)
  then have "bit ((fl OR B_DIRTY) AND B_VALID) n" by (auto simp: bit_simps)
  then show "(fl OR B_DIRTY) AND B_VALID \<noteq> 0" by auto
qed

lemma logged_simps:
  "holds (logged i s) j e \<longleftrightarrow> holds s j e" "dirty (logged i s) j \<longleftrightarrow> j = i \<or> dirty s j"
  "b_data (bufs (logged i s) j) = b_data (bufs s j)" "b_refcnt (bufs (logged i s) j) = b_refcnt (bufs s j)"
  "b_dev (bufs (logged i s) j) = b_dev (bufs s j)" "b_blockno (bufs (logged i s) j) = b_blockno (bufs s j)"
  "slk (logged i s) = slk s" "curproc (logged i s) = curproc s" "procs (logged i s) = procs s"
  "held (logged i s) = held s" "dimage (logged i s) = dimage s" "dwrites (logged i s) = dwrites s"
  "disksize (logged i s) = disksize s" "log_start (logged i s) = log_start s" "log_dev (logged i s) = log_dev s"
  "log_size (logged i s) = log_size s" "log_outstanding (logged i s) = log_outstanding s"
  "lh_n (logged i s) = lh_n s" "lh_block (logged i s) = lh_block s"
  by (auto simp: logged_def upd_buf_def holds_def dirty_def)

lemma logged_store:
  assumes st: "store U s" and i: "i \<in> U"
  shows "store U (logged i s)" and "content (logged i s) = content s" and "synced (logged i s) i"
    and "pinned (logged i s) = insert (num s i) (pinned s)"
proof -
  have c: "cache U s" using st by (simp add: store_def)
  note h = store_holds [OF st i]
  obtain p where p: "curproc s = Some p" "\<forall>i\<in>U. sl_pid (slk s (BufLk i)) = p_pid (procs s p)"
    using cacheD(3) [OF c] by blast
  obtain xs where "lru (bufs s) xs" using cacheD(4) [OF c] by blast
  then have l: "lru (bufs (logged i s)) xs" by (subst lru_cong [of _ "bufs s"]) (auto simp: logged_def)
  have c': "cache U (logged i s)"
  proof (rule cacheI [where p = p and xs = xs], goal_cases)
    case (9 j d)
    then have "b_flags (bufs s j) AND B_VALID \<noteq> 0" using cacheD(7) [OF c, of j d] by (simp add: logged_simps)
    then show ?case by (cases "j = i") (simp_all add: logged_def)
  next
    case (10 j)
    then show ?case using cacheD(8) [OF c, of j] st i by (auto simp: logged_simps store_def)
  qed (use p l cacheD(1,2,5,6,9) [OF c] holds_unique [OF c] in \<open>simp_all add: logged_simps\<close>)
  then show "store U (logged i s)" using st by (simp add: store_def logged_simps)
  show "content (logged i s) = content s"
    by (rule ext, rule content_cong [OF c c']) (simp_all add: logged_simps)
  show "synced (logged i s) i" by (simp add: synced_def logged_simps)
  have "holds s i e \<longleftrightarrow> e = num s i" for e using h by (auto simp: holds_def num_def)
  then show "pinned (logged i s) = insert (num s i) (pinned s)" by (auto simp: pinned_def logged_simps)
qed

section \<open>The invariant of a transaction\<close>

abbreviation log_region :: "'a log_state_scheme \<Rightarrow> u32 set" where
  "log_region s \<equiv> log_area (log_start s) 29"

definition log_blocks :: "'a log_state_scheme \<Rightarrow> u32 list" where
  "log_blocks s = map (lh_block s) [0..<nat (lh_n s)]"

definition log_pending :: "'a log_state_scheme \<Rightarrow> bool" where
  "log_pending s \<longleftrightarrow> store {} s \<and> log_dev s = 1 \<and> log_size s = 30 \<and> 1 \<le> log_outstanding s \<and>
     0 \<le> lh_n s \<and> lh_n s \<le> 29 \<and> distinct (log_blocks s) \<and> pinned s = set (log_blocks s) \<and>
     (\<forall>b\<in>log_region s. b < disksize s) \<and> (\<forall>b\<in>set (log_blocks s). b < disksize s \<and> b \<notin> log_region s) \<and>
     sint (ld32 (disk s (log_start s)) 0) = 0"

lemma log_area_mono: "m \<le> n \<Longrightarrow> log_area start m \<subseteq> log_area start n"
  unfolding log_area_def by (intro insert_mono image_mono) auto

lemma pending_ready:
  assumes "log_pending s" and "0 < lh_n s"
  shows "log_ready s"
proof -
  have "log_area (log_start s) (nat (lh_n s)) \<subseteq> log_region s"
    using assms(1) by (intro log_area_mono) (simp add: log_pending_def nat_le_iff)
  then show ?thesis using assms
    by (auto simp: log_ready_def log_pending_def layout_def log_blocks_def atLeast0LessThan)
qed

text \<open>Recording a block in the header: nothing changes if it is there already.\<close>

definition record_block :: "u32 \<Rightarrow> 'a log_state_scheme \<Rightarrow> 'a log_state_scheme" where
  "record_block b s =
     (if b \<in> set (log_blocks s) then s
      else s\<lparr>lh_block := (lh_block s)(nat (lh_n s) := b), lh_n := lh_n s + 1\<rparr>)"

lemma log_blocks_record:
  "0 \<le> lh_n s \<Longrightarrow> log_blocks (record_block b s) = (if b \<in> set (log_blocks s) then log_blocks s else log_blocks s @ [b])"
  by (auto simp: record_block_def log_blocks_def nat_add_distrib)

lemma fun_upd_same: "f k = v \<Longrightarrow> f(k := v) = f"
  by auto

lemma log_write_eq:
  assumes "held s = {}" and "1 \<le> log_outstanding s" and "log_size s = 30" and "0 \<le> lh_n s" and "lh_n s < 29"
  shows "log_write i s = Ret () (logged i (record_block (num s i) s))"
proof (cases "scan (\<lambda>k. lh_block s k = num s i) (nat (lh_n s)) 0")
  case None
  then have n: "num s i \<notin> set (log_blocks s)" by (auto simp: scan_None_iff log_blocks_def)
  have "s\<lparr>held := {}\<rparr> = s" using assms(1) by (intro held_same)
  then show ?thesis using None n assms
    by (simp add: log_write_def num_def record_block_def logged_def upd_buf_def)
next
  case (Some k)
  from scan_SomeD [OF this] have k: "k < nat (lh_n s)" "lh_block s k = num s i" by simp_all
  then have m: "num s i \<in> set (log_blocks s)" by (force simp: log_blocks_def)
  have "int k \<noteq> lh_n s" "(lh_block s)(k := num s i) = lh_block s" using k by (auto intro: fun_upd_same)
  then show ?thesis using Some k m assms
    by (simp add: log_write_def num_def record_block_def logged_def upd_buf_def Let_def log_state.equality)
qed

section \<open>One update\<close>

definition tx_update :: "u32 \<Rightarrow> (bytes \<Rightarrow> bytes) \<Rightarrow> 'a log_state_scheme \<Rightarrow> ('a log_state_scheme, unit) kres" where
  "tx_update b f s =
     kbind (bread 1 b s) (\<lambda>i s.
     kbind (log_write i (set_data i f s)) (\<lambda>_ s. brelse i s))"

lemma record_block_simps [simp]:
  "store U (record_block b s) = store U s" "content (record_block b s) = content s"
  "pinned (record_block b s) = pinned s" "num (record_block b s) i = num s i" "dat (record_block b s) i = dat s i"
  "dwrites (record_block b s) = dwrites s" "dimage (record_block b s) = dimage s"
  "disksize (record_block b s) = disksize s" "log_start (record_block b s) = log_start s"
  "log_dev (record_block b s) = log_dev s" "log_size (record_block b s) = log_size s"
  "log_outstanding (record_block b s) = log_outstanding s" "log_committing (record_block b s) = log_committing s"
  by (simp_all add: record_block_def num_def dat_def)

lemma bframe_log_blocks:
  "bframe s t \<Longrightarrow> log_blocks t = log_blocks s \<and> log_size t = log_size s \<and> log_outstanding t = log_outstanding s \<and>
     log_committing t = log_committing s \<and> lh_n t = lh_n s \<and> log_start t = log_start s \<and> log_dev t = log_dev s \<and>
     disksize t = disksize s \<and> dimage t = dimage s"
  by (auto elim!: bframeE simp: log_blocks_def)

definition tx_step :: "u32 \<Rightarrow> (bytes \<Rightarrow> bytes) \<Rightarrow> 'a log_state_scheme \<Rightarrow> 'a log_state_scheme \<Rightarrow> bool" where
  "tx_step b f s t \<longleftrightarrow> log_pending t \<and> content t = (content s)(b := f (content s b)) \<and>
     set (log_blocks t) = insert b (set (log_blocks s)) \<and> dwrites t = dwrites s \<and> dimage t = dimage s \<and>
     disksize t = disksize s \<and> log_start t = log_start s \<and> log_committing t = log_committing s \<and>
     log_outstanding t = log_outstanding s"

lemma log_blocks_card: "log_pending s \<Longrightarrow> card (set (log_blocks s)) = nat (lh_n s)"
  by (simp add: log_pending_def distinct_card) (simp add: log_blocks_def)

lemma log_pending_record:
  assumes s: "log_pending s" and n: "lh_n s < 29" and b: "b < disksize s" "b \<notin> log_region s"
    and t: "store {} t" "pinned t = insert b (pinned s)" "bframe (record_block b s) t" "dwrites t = dwrites s"
  shows "log_pending t"
proof -
  have "0 \<le> lh_n s" using s by (simp add: log_pending_def)
  note lb = log_blocks_record [OF this, of b]
  have "lh_n (record_block b s) \<le> 29" "0 \<le> lh_n (record_block b s)"
    using n s by (auto simp: record_block_def log_pending_def)
  then show ?thesis using s b t(1,2,4) bframe_log_blocks [OF t(3)]
    by (auto simp: log_pending_def lb)
qed

lemma bframe_record:
  assumes "bframe s t"
  shows "bframe (record_block b s) (record_block b t)"
proof -
  obtain ps sl bs ws where t: "t = s\<lparr>procs := ps, slk := sl, bufs := bs, dwrites := ws\<rparr>" using assms by (rule bframeE)
  have "record_block b t = record_block b s\<lparr>procs := ps, slk := sl, bufs := bs, dwrites := ws\<rparr>"
    by (simp add: t record_block_def log_blocks_def log_state.equality)
  then show ?thesis by (rule bframeI)
qed

lemma bframe_logged: "bframe s (logged i s)"
  by (rule bframeI [where ps = "procs s" and sl = "slk s" and ws = "dwrites s"])
    (simp add: logged_def upd_buf_def log_state.equality)

lemma tx_update_step:
  assumes s: "log_pending s" and n: "lh_n s < 29" and b: "b < disksize s" "b \<notin> log_region s"
  shows "returns (\<lambda>_. tx_step b f s) (tx_update b f s)"
  unfolding tx_update_def
proof (rule returns_kbindI [OF bread_law [of "{}"]], goal_cases)
  case 1 show ?case using s by (simp add: log_pending_def)
next
  case 2 show ?case by (rule b(1))
next
  case 4 show ?case using log_blocks_card [OF s] s n by (simp add: log_pending_def nat_less_iff)
next
  case (5 i a)
  let ?a = "set_data i f a" and ?r = "record_block b (set_data i f a)"
  let ?l = "logged i ?r"
  have a: "store {i} a" "num a i = b" "dat a i = content s b" "content a = content s" "dwrites a = dwrites s"
    "pinned a = pinned s" "bframe s a" using 5 by auto
  from set_data_law [OF a(1), of i f] have
    a': "store {i} ?a" "num ?a i = b" "content ?a = (content s)(b := f (content s b))" "dwrites ?a = dwrites s"
    "pinned ?a = pinned s" "bframe a ?a" by (simp_all add: a)
  note fr = bframe_log_blocks [OF bframe_trans [OF a(7) a'(6)]]
  have "held ?a = {}" using a'(1) by (simp add: store_def cache_def)
  then have lw: "log_write i ?a = Ret () ?l"
    using log_write_eq [of ?a i] s n by (simp add: fr a' log_pending_def)
  have st: "store {i} ?r" using a'(1) by simp
  note l = logged_store [OF st, of i, simplified]
  show ?case unfolding lw kbind_simps
  proof (rule returns_mono [OF brelse_law [OF l(1)]], goal_cases)
    case (3 u t)
    then have t: "store {} t" "content t = content ?r" "dwrites t = dwrites s" "pinned t = insert b (pinned s)"
      "bframe ?l t" by (auto simp: l a' logged_simps)
    have fr': "bframe (record_block b s) t"
      by (rule bframe_trans [OF bframe_trans [OF bframe_record [OF bframe_trans [OF a(7) a'(6)]] bframe_logged] t(5)])
    have "0 \<le> lh_n s" using s by (simp add: log_pending_def)
    then have "set (log_blocks t) = insert b (set (log_blocks s))"
      using log_blocks_record [of s b] bframe_log_blocks [OF fr'] by auto
    then show ?case using log_pending_record [OF s n b t(1,4) fr' t(3)] t(2,3) bframe_log_blocks [OF fr']
      by (simp add: tx_step_def a')
  qed (use l in simp_all)
qed simp

section \<open>A whole transaction\<close>

fun tx_run :: "(u32 \<times> (bytes \<Rightarrow> bytes)) list \<Rightarrow> 'a log_state_scheme \<Rightarrow> ('a log_state_scheme, unit) kres" where
  "tx_run [] s = Ret () s"
| "tx_run ((b, f) # us) s = kbind (tx_update b f s) (\<lambda>_. tx_run us)"

definition transaction :: "(u32 \<times> (bytes \<Rightarrow> bytes)) list \<Rightarrow> 'a log_state_scheme \<Rightarrow> ('a log_state_scheme, unit) kres" where
  "transaction us s = kbind (begin_op s) (\<lambda>_ s. kbind (tx_run us s) (\<lambda>_. end_op))"

text \<open>What the updates mean on a plain map of blocks.\<close>

fun apply_updates :: "(u32 \<times> (bytes \<Rightarrow> bytes)) list \<Rightarrow> (u32 \<Rightarrow> bytes) \<Rightarrow> u32 \<Rightarrow> bytes" where
  "apply_updates [] c = c"
| "apply_updates ((b, f) # us) c = apply_updates us (c(b := f (c b)))"

definition tx_same :: "'a log_state_scheme \<Rightarrow> 'a log_state_scheme \<Rightarrow> bool" where
  "tx_same s t \<longleftrightarrow> dwrites t = dwrites s \<and> dimage t = dimage s \<and> disksize t = disksize s \<and> log_start t = log_start s \<and>
     log_committing t = log_committing s \<and> log_outstanding t = log_outstanding s"

lemma apply_updates_cong:
  assumes "X \<inter> fst ` set us = {}" and "\<And>b. b \<notin> X \<Longrightarrow> c b = d b" and "b \<notin> X"
  shows "apply_updates us c b = apply_updates us d b"
  using assms(1,2)
proof (induction us arbitrary: c d)
  case Nil
  show ?case using Nil.prems(2) [OF assms(3)] by simp
next
  case (Cons u us)
  obtain e f where u: "u = (e, f)" by (cases u)
  have e: "c e = d e" "X \<inter> fst ` set us = {}" using Cons.prems(1) Cons.prems(2) [of e] by (auto simp: u)
  show ?case unfolding u apply_updates.simps
    by (rule Cons.IH [OF e(2)]) (simp add: e(1) Cons.prems(2))
qed

lemma tx_run_steps:
  assumes "log_pending s" and "\<forall>b\<in>fst ` set us. b < disksize s \<and> b \<notin> log_region s"
    and "card (set (log_blocks s) \<union> fst ` set us) < 29"
  shows "returns (\<lambda>_ t. log_pending t \<and> content t = apply_updates us (content s) \<and>
    set (log_blocks t) = set (log_blocks s) \<union> fst ` set us \<and> tx_same s t) (tx_run us s)"
  using assms
proof (induction us arbitrary: s)
  case Nil
  then show ?case by (simp add: tx_same_def)
next
  case (Cons bf us)
  obtain b f where bf: "bf = (b, f)" by (cases bf)
  have "card (set (log_blocks s)) \<le> card (set (log_blocks s) \<union> fst ` set (bf # us))" by (rule card_mono) auto
  then have "card (set (log_blocks s)) < 29" using Cons.prems(3) by linarith
  then have n: "lh_n s < 29" using log_blocks_card [OF Cons.prems(1)] by linarith
  have "returns (\<lambda>_. tx_step b f s) (tx_update b f s)"
    using Cons.prems(2) by (intro tx_update_step [OF Cons.prems(1) n]) (simp_all add: bf)
  then show ?case unfolding bf tx_run.simps
  proof (rule returns_kbindI)
    fix u :: unit and a
    assume a: "tx_step b f s a"
    then have "returns (\<lambda>_ t. log_pending t \<and> content t = apply_updates us (content a) \<and>
        set (log_blocks t) = set (log_blocks a) \<union> fst ` set us \<and> tx_same a t) (tx_run us a)"
      using Cons.prems(2,3) by (intro Cons.IH) (auto simp: tx_step_def bf)
    then show "returns (\<lambda>_ t. log_pending t \<and> content t = apply_updates ((b, f) # us) (content s) \<and>
        set (log_blocks t) = set (log_blocks s) \<union> fst ` set ((b, f) # us) \<and> tx_same s t) (tx_run us a)"
      using a by (auto simp: tx_step_def tx_same_def elim!: returns_mono)
  qed
qed

definition log_idle :: "'a log_state_scheme \<Rightarrow> bool" where
  "log_idle s \<longleftrightarrow> store {} s \<and> log_dev s = 1 \<and> log_size s = 30 \<and> log_outstanding s = 0 \<and> \<not> log_committing s \<and>
     lh_n s = 0 \<and> pinned s = {} \<and> (\<forall>b\<in>log_region s. b < disksize s) \<and> sint (ld32 (disk s (log_start s)) 0) = 0"

lemma store_cong:
  assumes "held t = held s" "curproc t = curproc s" "slk t = slk s" "bufs t = bufs s" "disksize t = disksize s"
    "dimage t = dimage s" "dwrites t = dwrites s" "\<And>i. p_pid (procs t i) = p_pid (procs s i)"
  shows "store U t = store U s" "content t = content s" "pinned t = pinned s"
  by (simp_all add: assms store_def cache_def holds_def dirty_def content_def pinned_def fun_eq_iff cong: option.case_cong)

lemma begin_op_idle:
  assumes "log_idle s"
  shows "begin_op s = Ret () (s\<lparr>log_outstanding := 1\<rparr>)" and "log_pending (s\<lparr>log_outstanding := 1\<rparr>)"
proof -
  have "held s = {}" using assms by (simp add: log_idle_def store_def cache_def)
  then show "begin_op s = Ret () (s\<lparr>log_outstanding := 1\<rparr>)" using assms
    by (simp add: begin_op_def begin_op_loop_def log_idle_def log_state.equality)
  note st = store_cong [of "s\<lparr>log_outstanding := 1\<rparr>" s, simplified]
  show "log_pending (s\<lparr>log_outstanding := 1\<rparr>)" using assms
    by (simp add: log_idle_def log_pending_def st log_blocks_def)
qed

lemma end_op_last:
  assumes "held s = {}" and "log_outstanding s = 1" and "\<not> log_committing s"
    and "commit (s\<lparr>log_outstanding := 0, log_committing := True\<rparr>) = Ret () t" and "held t = {}"
  shows "end_op s = Ret () (wakeup1 ChLog (t\<lparr>log_committing := False\<rparr>))"
proof -
  have 1: "s\<lparr>log_outstanding := 0, log_committing := True, held := {}\<rparr> =
      s\<lparr>log_outstanding := 0, log_committing := True\<rparr>"
    using assms(1) by (simp add: log_state.equality)
  have 2: "wakeup ChLog (t\<lparr>held := {LogLock}, log_committing := False\<rparr>) =
      Ret () (wakeup1 ChLog (t\<lparr>held := {LogLock}, log_committing := False\<rparr>))"
    by (rule wakeup_eq) simp
  have 3: "wakeup1 ChLog (t\<lparr>held := {LogLock}, log_committing := False\<rparr>)\<lparr>held := {}\<rparr> =
      wakeup1 ChLog (t\<lparr>log_committing := False\<rparr>)"
    using assms(5) by (simp add: wakeup1_def log_state.equality)
  show ?thesis using assms by (simp add: end_op_def Let_def 1 2 3)
qed

lemma commit_empty: "lh_n s = 0 \<Longrightarrow> commit s = Ret () s"
  by (simp add: commit_def)

lemma end_op_commits:
  assumes p: "log_pending s" and o: "log_outstanding s = 1" and c: "\<not> log_committing s"
  shows "returns (\<lambda>_ t. log_idle t \<and> disksize t = disksize s \<and> log_start t = log_start s \<and>
    (\<forall>b. b \<notin> log_region s \<longrightarrow> disk t b = content s b)) (end_op s)"
proof -
  let ?s = "s\<lparr>log_outstanding := 0, log_committing := True\<rparr>"
  note st = store_cong [of ?s s, simplified]
  have h: "held s = {}" and 0: "0 \<le> lh_n s" using p by (simp_all add: log_pending_def store_def cache_def)
  have "returns (\<lambda>_ t. store {} t \<and> pinned t = {} \<and> lh_n t = 0 \<and> bframe (?s\<lparr>lh_n := 0\<rparr>) t \<and>
      sint (ld32 (disk t (log_start s)) 0) = 0 \<and> (\<forall>b. b \<notin> log_region s \<longrightarrow> disk t b = content s b)) (commit ?s)"
  proof (cases "lh_n s = 0")
    case True
    then have e: "pinned s = {}" "store {} s" using p by (simp_all add: log_pending_def log_blocks_def)
    have "?s\<lparr>lh_n := 0\<rparr> = ?s" using True by simp
    then have "bframe (?s\<lparr>lh_n := 0\<rparr>) ?s" by (simp only: bframe_refl)
    then show ?thesis using True p e content_clean [OF e(2,1)]
      by (simp add: commit_empty st log_pending_def)
  next
    case False
    then have "log_ready s" using p 0 by (intro pending_ready) simp_all
    then have r: "log_ready ?s" by (simp add: log_ready_def st layout_def)
    have sub: "area ?s \<subseteq> log_region s" using p by (simp add: log_area_mono nat_le_iff log_pending_def)
    show ?thesis
    proof (rule returns_mono [OF commit_performs [OF r]])
      fix u t
      assume t: "committed ?s t"
      then have d: "disk t = disk_of (disk ?s) (commit_writes ?s)" by (simp add: committed_def disk_of_append)
      have "disk t (log_start s) = head_empty ?s" by (simp add: d commit_writes_def disk_of_Cons)
      then have "sint (ld32 (disk t (log_start s)) 0) = 0" by (simp add: head_empty_def hb_encode_load(1))
      moreover have "disk t b = content s b" if "b \<notin> log_region s" for b
        unfolding d commit_new [OF r contra_subsetD [OF sub that]] st(2) ..
      ultimately show "store {} t \<and> pinned t = {} \<and> lh_n t = 0 \<and> bframe (?s\<lparr>lh_n := 0\<rparr>) t \<and>
        sint (ld32 (disk t (log_start s)) 0) = 0 \<and> (\<forall>b. b \<notin> log_region s \<longrightarrow> disk t b = content s b)"
        using t by (simp add: committed_def)
    qed
  qed
  then obtain t where t: "commit ?s = Ret () t" "store {} t" "pinned t = {}" "lh_n t = 0" "bframe (?s\<lparr>lh_n := 0\<rparr>) t"
      "sint (ld32 (disk t (log_start s)) 0) = 0" "\<And>b. b \<notin> log_region s \<Longrightarrow> disk t b = content s b"
    by (auto elim!: returnsE)
  let ?u = "wakeup1 ChLog (t\<lparr>log_committing := False\<rparr>)"
  have "held t = {}" using t(2) by (simp add: store_def cache_def)
  from end_op_last [OF h o c t(1) this] have e: "end_op s = Ret () ?u" .
  have pid: "p_pid (procs ?u i) = p_pid (procs t i)" for i by (simp add: woken_def)
  have u: "bufs ?u = bufs t" "disksize ?u = disksize t" "dimage ?u = dimage t" "dwrites ?u = dwrites t"
    "log_start ?u = log_start t" "log_dev ?u = log_dev t" "log_size ?u = log_size t" "lh_n ?u = lh_n t"
    "log_outstanding ?u = log_outstanding t" "\<not> log_committing ?u" by (simp_all add: wakeup1_def)
  have "store {} ?u = store {} t" "pinned ?u = pinned t"
    by (rule store_cong; simp add: u pid del: procs_wakeup1)+
  then show ?thesis unfolding e using t bframe_log_blocks [OF t(5)] p
    by (simp add: u log_idle_def log_pending_def)
qed

text \<open>C1: a transaction implements its updates. When the log is idle, a system call that calls
  \<open>begin_op\<close>, changes any blocks outside the log (fewer than 29 different ones) with \<open>bread\<close>,
  \<open>log_write\<close> and \<open>brelse\<close>, and calls \<open>end_op\<close>, returns without panic or sleep; the log is idle
  again and the disk holds, outside the log, the old blocks with the updates applied in order.\<close>

theorem transaction_refines:
  assumes i: "log_idle s" and us: "\<forall>b\<in>fst ` set us. b < disksize s \<and> b \<notin> log_region s"
    and n: "card (fst ` set us) < 29"
  shows "returns (\<lambda>_ t. log_idle t \<and> disksize t = disksize s \<and> log_start t = log_start s \<and>
    (\<forall>b. b \<notin> log_region s \<longrightarrow> disk t b = apply_updates us (disk s) b)) (transaction us s)"
proof -
  let ?s = "s\<lparr>log_outstanding := 1\<rparr>"
  have "store {} s" "pinned s = {}" and e: "log_blocks ?s = []" using i by (simp_all add: log_idle_def log_blocks_def)
  then have c: "content ?s = disk s" using store_cong(2) [of ?s s] content_clean by simp
  have "returns (\<lambda>_ t. log_pending t \<and> content t = apply_updates us (content ?s) \<and>
      set (log_blocks t) = set (log_blocks ?s) \<union> fst ` set us \<and> tx_same ?s t) (tx_run us ?s)"
    using us n by (intro tx_run_steps begin_op_idle(2) [OF i]) (simp_all add: e)
  then have "returns (\<lambda>_ t. log_idle t \<and> disksize t = disksize s \<and> log_start t = log_start s \<and>
    (\<forall>b. b \<notin> log_region s \<longrightarrow> disk t b = apply_updates us (disk s) b)) (kbind (tx_run us ?s) (\<lambda>_. end_op))"
  proof (rule returns_kbindI)
    fix u :: unit and t
    assume "log_pending t \<and> content t = apply_updates us (content ?s) \<and>
      set (log_blocks t) = set (log_blocks ?s) \<union> fst ` set us \<and> tx_same ?s t"
    then have t: "log_pending t" "content t = apply_updates us (disk s)" "log_outstanding t = 1" "\<not> log_committing t"
        "disksize t = disksize s" "log_start t = log_start s"
      using i c by (simp_all add: tx_same_def log_idle_def)
    show "returns (\<lambda>_ t. log_idle t \<and> disksize t = disksize s \<and> log_start t = log_start s \<and>
      (\<forall>b. b \<notin> log_region s \<longrightarrow> disk t b = apply_updates us (disk s) b)) (end_op t)"
      using end_op_commits [OF t(1,3,4)] unfolding t(2,5,6) .
  qed
  then show ?thesis by (simp add: transaction_def begin_op_idle(1) [OF i])
qed

text \<open>The start of the witness: the log of \<open>demo_log\<close> with nothing pinned.\<close>

definition demo_idle :: log_state where
  "demo_idle = demo_log\<lparr>bufs := (\<lambda>i. demo_bufs i\<lparr>b_flags := 0, b_dev := 0\<rparr>), lh_n := 0, log_outstanding := 0,
     log_committing := False, log_size := 30, log_start := 2\<rparr>"

lemma demo_idle_simps [simp]:
  "held demo_idle = {}" "curproc demo_idle = Some 0" "bufs demo_idle = (\<lambda>i. demo_bufs i\<lparr>b_flags := 0, b_dev := 0\<rparr>)"
  "disksize demo_idle = 100" "dimage demo_idle = (\<lambda>_ _. 0)" "dwrites demo_idle = []" "log_start demo_idle = 2"
  "log_dev demo_idle = 1" "lh_n demo_idle = 0" "slk demo_idle = slk sched_start" "log_size demo_idle = 30"
  "log_outstanding demo_idle = 0" "\<not> log_committing demo_idle"
  by (simp_all add: demo_idle_def)

lemma demo_idle: "log_idle demo_idle"
proof -
  have h: "\<not> holds demo_idle i b" "\<not> dirty demo_idle i" for i b by (auto simp: holds_def dirty_def)
  have "lru (bufs demo_idle) (rev [0..<NBUF])"
    using demo_lru by (subst lru_cong [of _ demo_bufs]) simp_all
  then have "cache {} demo_idle"
    by (intro cacheI [where p = 0 and xs = "rev [0..<NBUF]"])
      (auto simp: h demo_bufs_def sched_start_def)
  moreover have "pinned demo_idle = {}" by (auto simp: pinned_def h)
  moreover have "\<forall>b\<in>log_region demo_idle. b < disksize demo_idle"
    by (auto simp: log_area_def word_less_nat_alt unat_word_ariths unat_of_nat)
  ultimately show ?thesis by (simp add: log_idle_def store_def ld32_def disk_of_def)
qed

theorem transaction_refines_witness:
  "\<exists>t. transaction [(50, \<lambda>_ _. 7), (51, \<lambda>d. d(3 := 9)), (50, \<lambda>d. d(0 := 1))] demo_idle = Ret () t \<and>
     disk t 50 0 = 1 \<and> disk t 50 1 = 7 \<and> disk t 51 3 = 9"
proof -
  have r: "b \<in> log_region demo_idle \<Longrightarrow> b < 40" for b
    by (auto simp: log_area_def word_less_nat_alt unat_word_ariths unat_of_nat)
  have "50 \<notin> log_region demo_idle" "51 \<notin> log_region demo_idle" "card {50, 51, 50 :: u32} < 29"
    using r [of 50] r [of 51] by (auto simp: card_insert_if)
  with transaction_refines [OF demo_idle, of "[(50, \<lambda>_ _. 7), (51, \<lambda>d. d(3 := 9)), (50, \<lambda>d. d(0 := 1))]"]
  show ?thesis by (auto elim!: returnsE)
qed

end
