(* ===== verification/Safe.thy ===== *)
theory Safe
  imports Trap
begin

text \<open>
  What every kernel routine keeps: an invariant \<open>I\<close> of the process table (the processes, the current
  process and the next pid) and the set of spin locks held. \<open>safe I H m\<close> says that the outcome \<open>m\<close>
  keeps \<open>I\<close>, holds exactly the locks \<open>H\<close> if it returns, and no lock and no process on the CPU if it
  sleeps. The routines that do not touch the process table are safe for every \<open>I\<close>; those that wake
  and sleep need the laws of the locale \<open>table_laws\<close>.
\<close>

type_synonym tableinv = "(nat \<Rightarrow> proc) \<Rightarrow> nat option \<Rightarrow> int \<Rightarrow> bool"

named_theorems safe "rules for safe"

section \<open>Safe outcomes\<close>

definition tab :: "tableinv \<Rightarrow> 'a sched_state_scheme \<Rightarrow> bool" where
  "tab I s \<longleftrightarrow> I (procs s) (curproc s) (nextpid s)"

definition safe :: "tableinv \<Rightarrow> lock set \<Rightarrow> ('a sched_state_scheme, 'b) kres \<Rightarrow> bool" where
  "safe I H m = (case m of
     Ret a t \<Rightarrow> tab I t \<and> held t = H
   | Panic e \<Rightarrow> True
   | Sleep ch t \<Rightarrow> tab I t \<and> held t = {} \<and> curproc t = None)"

lemma safe_simps [simp]:
  "safe I H (Ret a t) \<longleftrightarrow> tab I t \<and> held t = H" "safe I H (Panic e)"
  "safe I H (Sleep ch t) \<longleftrightarrow> tab I t \<and> held t = {} \<and> curproc t = None"
  by (simp_all add: safe_def)

lemma tab_simps [simp]:
  "tab I (s\<lparr>held := v1\<rparr>) = tab I s" "tab I (s\<lparr>use_lock := v2\<rparr>) = tab I s" "tab I (s\<lparr>freelist := v3\<rparr>) = tab I s"
  "tab I (s\<lparr>pages := v4\<rparr>) = tab I s" "tab I (s\<lparr>initproc := v5\<rparr>) = tab I s" "tab I (s\<lparr>ticks := v6\<rparr>) = tab I s"
  "tab I (s\<lparr>slk := v7\<rparr>) = tab I s"
  by (simp_all add: tab_def)

lemma tab_pipe [simp]: "tab I (s\<lparr>pipes := v\<rparr>) = tab I s" "tab I (upd_pipe p f s) = tab I s" "held (upd_pipe p f s) = held s"
  by (simp_all add: tab_def upd_pipe_def)

lemma tab_hw [simp]:
  "tab I (s\<lparr>io := v1\<rparr>) = tab I s" "tab I (s\<lparr>uart := v2\<rparr>) = tab I s" "tab I (s\<lparr>kbd_shift := v3\<rparr>) = tab I s"
  "tab I (outb p v s) = tab I s" "tab I (snd (inb p s)) = tab I s" "held (snd (inb p s)) = held s"
  "tab I (vwrite a v s) = tab I s" "held (vwrite a v s) = held s"
  by (simp_all add: tab_def outb_def inb_def vwrite_def)

lemma tab_cons [simp]:
  "tab I (s\<lparr>cons_locking := v1\<rparr>) = tab I s" "tab I (s\<lparr>panicked := v2\<rparr>) = tab I s" "tab I (s\<lparr>currentvgamode := v3\<rparr>) = tab I s"
  "tab I (s\<lparr>crt := v4\<rparr>) = tab I s" "tab I (s\<lparr>cursorPos := v5\<rparr>) = tab I s" "tab I (s\<lparr>registerCopy := v6\<rparr>) = tab I s"
  "tab I (s\<lparr>ibuf := v7\<rparr>) = tab I s" "tab I (s\<lparr>ir := v8\<rparr>) = tab I s" "tab I (s\<lparr>iw := v9\<rparr>) = tab I s" "tab I (s\<lparr>ie := v10\<rparr>) = tab I s"
  by (simp_all add: tab_def)

lemma tab_bio [simp]:
  "tab I (s\<lparr>bufs := v1\<rparr>) = tab I s" "tab I (s\<lparr>disksize := v2\<rparr>) = tab I s" "tab I (s\<lparr>dwrites := v3\<rparr>) = tab I s"
  "tab I (upd_buf i f s) = tab I s" "held (upd_buf i f s) = held s" "tab I (upd_data i g s) = tab I s"
  "held (upd_data i g s) = held s"
  by (simp_all add: tab_def upd_buf_def upd_data_def)

lemma tab_log [simp]:
  "tab I (s\<lparr>log_start := v1\<rparr>) = tab I s" "tab I (s\<lparr>log_size := v2\<rparr>) = tab I s" "tab I (s\<lparr>log_outstanding := v3\<rparr>) = tab I s"
  "tab I (s\<lparr>log_committing := v4\<rparr>) = tab I s" "tab I (s\<lparr>log_dev := v5\<rparr>) = tab I s" "tab I (s\<lparr>lh_n := v6\<rparr>) = tab I s"
  "tab I (s\<lparr>lh_block := v7\<rparr>) = tab I s"
  by (simp_all add: tab_def)

lemma tab_fs [simp]:
  "tab I (s\<lparr>inodes := v1\<rparr>) = tab I s" "tab I (upd_inode i f s) = tab I s" "held (upd_inode i f s) = held s"
  "tab I (set_addr i k a s) = tab I s" "held (set_addr i k a s) = held s" "tab I (add_nlink i d s) = tab I s"
  "held (add_nlink i d s) = held s"
  by (simp_all add: tab_def upd_inode_def set_addr_def add_nlink_def)

lemma tab_vm [simp]:
  "tab I (s\<lparr>cr3 := v1\<rparr>) = tab I s" "tab I (s\<lparr>ts_esp0 := v2\<rparr>) = tab I s" "tab I (s\<lparr>kpgdir := v3\<rparr>) = tab I s"
  by (simp_all add: tab_def)

lemma tab_pages [simp]:
  "tab I (set_word pg k w s) = tab I s" "held (set_word pg k w s) = held s" "tab I (zero_page pg s) = tab I s"
  "held (zero_page pg s) = held s" "tab I (set_byte a v s) = tab I s" "held (set_byte a v s) = held s"
  by (simp_all add: tab_def set_word_def zero_page_def set_byte_def Let_def)

lemma tab_set_bytes [simp]: "tab I (set_bytes a bs s) = tab I s" "held (set_bytes a bs s) = held s"
  by (induction bs arbitrary: a s) simp_all

lemma tab_file [simp]:
  "tab I (s\<lparr>files := v1\<rparr>) = tab I s" "tab I (upd_file i f s) = tab I s" "held (upd_file i f s) = held s"
  by (simp_all add: tab_def upd_file_def)

section \<open>Rules\<close>

lemma safe_kbind [safe]:
  assumes "safe I H' m" and "\<And>a t. tab I t \<Longrightarrow> held t = H' \<Longrightarrow> safe I H (f a t)"
  shows "safe I H (kbind m f)"
  using assms by (cases m) simp_all

text \<open>A lock that is acquired was not held; the state is known exactly.\<close>

lemma safe_acquire:
  assumes "l \<notin> held s \<Longrightarrow> safe I H (f () (s\<lparr>held := insert l (held s)\<rparr>))"
  shows "safe I H (kbind (lk_acquire l s) f)"
  using assms by (cases "l \<in> held s") simp_all

lemma safe_lk_acquire [safe]: "tab I s \<Longrightarrow> insert l (held s) = H \<Longrightarrow> safe I H (lk_acquire l s)"
  by (cases "l \<in> held s") simp_all

lemma safe_release [safe]: "tab I s \<Longrightarrow> held s - {l} = H \<Longrightarrow> safe I H (lk_release l s)"
  by (cases "l \<in> held s") simp_all

lemma safe_if [safe]: "(b \<Longrightarrow> safe I H m) \<Longrightarrow> (\<not> b \<Longrightarrow> safe I H n) \<Longrightarrow> safe I H (if b then m else n)"
  by simp

lemma safe_option [safe]:
  "(x = None \<Longrightarrow> safe I H m) \<Longrightarrow> (\<And>y. x = Some y \<Longrightarrow> safe I H (n y)) \<Longrightarrow> safe I H (case x of None \<Rightarrow> m | Some y \<Rightarrow> n y)"
  by (cases x) simp_all

lemma safe_prod [safe]: "(\<And>y z. x = (y, z) \<Longrightarrow> safe I H (f y z)) \<Longrightarrow> safe I H (case x of (y, z) \<Rightarrow> f y z)"
  by (cases x) simp

lemma safe_Let [safe]: "safe I H (f x) \<Longrightarrow> safe I H (Let x f)"
  by simp

lemma safe_with_proc [safe]: "(\<And>p. curproc s = Some p \<Longrightarrow> safe I H (k p)) \<Longrightarrow> safe I H (with_proc s k)"
  by (cases "curproc s") simp_all

lemma safe_Ret [safe]: "tab I t \<Longrightarrow> held t = H \<Longrightarrow> safe I H (Ret a t)"
  by simp

lemma safe_Panic [safe]: "safe I H (Panic e)" "safe I H null_deref"
  by simp_all

section \<open>Memory\<close>

lemma safe_kalloc [safe]: "tab I s \<Longrightarrow> held s = H \<Longrightarrow> safe I H (kalloc s)"
  unfolding kalloc_def
  by (cases "use_lock s"; cases "KmemLock \<in> held s") (auto simp: Let_def insert_Diff_if)

lemma safe_kfree [safe]: "tab I s \<Longrightarrow> held s = H \<Longrightarrow> safe I H (kfree kend v s)"
  unfolding kfree_def
  by (cases "use_lock s"; cases "KmemLock \<in> held s") (auto simp: Let_def insert_Diff_if)

lemma safe_walkpgdir [safe]: "tab I s \<Longrightarrow> held s = H \<Longrightarrow> safe I H (walkpgdir pgdir va al s)"
  unfolding walkpgdir_def by (rule safe | simp)+

lemma safe_mappages_loop: "tab I s \<Longrightarrow> held s = H \<Longrightarrow> safe I H (mappages_loop pgdir m a pa perm s)"
proof (induction m arbitrary: a pa s)
  case 0
  then show ?case by (subst mappages_loop.simps) (rule safe | simp)+
next
  case (Suc m)
  then show ?case by (subst mappages_loop.simps) (rule safe Suc.IH | simp)+
qed

lemma safe_mappages [safe]: "tab I s \<Longrightarrow> held s = H \<Longrightarrow> safe I H (mappages pgdir va sz pa perm s)"
  unfolding mappages_def by (rule safe safe_mappages_loop | simp)+

lemma safe_dealloc_loop: "tab I s \<Longrightarrow> held s = H \<Longrightarrow> safe I H (dealloc_loop kend pgdir oldsz n a s)"
proof (induction n arbitrary: a s)
  case (Suc n)
  show ?case unfolding dealloc_loop.simps by (insert Suc.prems, (rule safe Suc.IH | simp)+)
qed simp

lemma safe_deallocuvm [safe]: "tab I s \<Longrightarrow> held s = H \<Longrightarrow> safe I H (deallocuvm kend pgdir oldsz newsz s)"
  unfolding deallocuvm_def by (rule safe safe_dealloc_loop | simp)+

lemma safe_freevm_loop: "tab I s \<Longrightarrow> held s = H \<Longrightarrow> safe I H (freevm_loop kend pgdir n i s)"
proof (induction n arbitrary: i s)
  case (Suc n)
  show ?case unfolding freevm_loop.simps by (insert Suc.prems, (rule safe Suc.IH | simp)+)
qed simp

lemma safe_freevm [safe]: "tab I s \<Longrightarrow> held s = H \<Longrightarrow> safe I H (freevm kend pgdir s)"
  unfolding freevm_def by (rule safe safe_freevm_loop | simp)+

lemma safe_setupkvm_loop: "tab I s \<Longrightarrow> held s = H \<Longrightarrow> safe I H (setupkvm_loop K pgdir ks s)"
proof (induction ks arbitrary: s)
  case (Cons k ks)
  obtain virt start stop perm where k: "k = (virt, start, stop, perm)" by (cases k)
  show ?case unfolding k setupkvm_loop.simps by (insert Cons.prems, (rule safe Cons.IH | simp)+)
qed simp

lemma safe_setupkvm [safe]: "tab I s \<Longrightarrow> held s = H \<Longrightarrow> safe I H (setupkvm K s)"
  unfolding setupkvm_def by (rule safe safe_setupkvm_loop | simp)+

lemma safe_switchuvm [safe]: "tab I s \<Longrightarrow> held s = H \<Longrightarrow> safe I H (switchuvm p s)"
  unfolding switchuvm_def by (rule safe | simp)+

lemma safe_clearpteu [safe]: "tab I s \<Longrightarrow> held s = H \<Longrightarrow> safe I H (clearpteu pgdir uva s)"
  unfolding clearpteu_def by (rule safe | simp)+

lemma safe_copyuvm_loop: "tab I s \<Longrightarrow> held s = H \<Longrightarrow> safe I H (copyuvm_loop K pgdir d m i s)"
proof (induction m arbitrary: i s)
  case (Suc m)
  show ?case unfolding copyuvm_loop.simps by (insert Suc.prems, (rule safe Suc.IH | simp)+)
qed simp

lemma safe_copyuvm [safe]: "tab I s \<Longrightarrow> held s = H \<Longrightarrow> safe I H (copyuvm K pgdir sz s)"
  unfolding copyuvm_def by (rule safe safe_copyuvm_loop | simp)+

lemma safe_uva2ka [safe]: "tab I s \<Longrightarrow> held s = H \<Longrightarrow> safe I H (uva2ka pgdir uva s)"
  unfolding uva2ka_def by (rule safe | simp)+

lemma safe_copyout [safe]:
  fixes s :: "'a vm_state_scheme"
  shows "tab I s \<Longrightarrow> held s = H \<Longrightarrow> safe I H (copyout pgdir va buf s)"
proof (induction "length buf" arbitrary: va buf s rule: less_induct)
  case less
  have IH: "safe I H (copyout pgdir (PGROUNDDOWN va + PGSIZE) (drop n buf) t)"
    if "buf \<noteq> []" "n = 4096 - unat (va - PGROUNDDOWN va) \<or> n = length buf" "tab I t" "held t = H" for n and t :: "'a vm_state_scheme"
  proof -
    have "unat va mod 4096 < 4096" "0 < length buf" using that(1) by simp_all
    then have "length buf - n < length buf" using that(2) unfolding page_offset by linarith
    then show ?thesis using that(3,4) by (intro less.hyps) simp_all
  qed
  show ?case by (subst copyout.simps) (insert less.prems, (rule safe IH | simp)+)
qed

lemma safe_user_store [safe]: "tab I s \<Longrightarrow> held s = H \<Longrightarrow> safe I H (user_store a bs s)"
proof (induction bs arbitrary: a s)
  case (Cons b bs)
  show ?case unfolding user_store.simps by (insert Cons.prems, (rule safe Cons.IH | simp)+)
qed simp

section \<open>The screen\<close>

text \<open>Device accesses only add to the history.\<close>

lemma rest_tab:
  assumes "rest t = rest s"
  shows "tab I t = tab I s" and "held t = held s"
proof -
  have "tab I (rest t) = tab I (rest s)" "held (rest t) = held (rest s)" by (simp_all only: assms)
  then show "tab I t = tab I s" "held t = held s" by (simp_all add: rest_def)
qed

lemma rest_uart [simp]: "rest (uart_wait n s) = rest s" "rest (uartputc c s) = rest s"
proof -
  have w: "rest (uart_wait n s) = rest s" for n
    by (induction n arbitrary: s) (auto simp: rest_def inb_def)
  show "rest (uart_wait n s) = rest s" by (rule w)
  show "rest (uartputc c s) = rest s" by (simp add: uartputc_def w)
qed

lemma rest_cursor [simp]: "rest (snd (read_cursor s)) = rest s"
  by (simp add: read_cursor_def rest_def inb_def outb_def)

lemma rest_read_bytes [simp]: "rest (snd (read_bytes a n s)) = rest s"
  by (induction n) (simp_all add: read_bytes_def rest_def vread_def split_beta)

lemma rest_plane_pixel [simp]: "rest (plane_pixel p x y b s) = rest s"
  by (simp add: plane_pixel_def Let_def split_beta)

lemma rest_folds [simp]:
  "rest (fold (\<lambda>i s. vwrite (f i) (v i) (vwrite (g i) (w i) s)) js s) = rest s"
  "rest (fold (\<lambda>i. fold (\<lambda>j. vwrite (h i j) (u i j)) ks) js s) = rest s"
proof -
  have 1: "rest (fold (\<lambda>j. vwrite (h j) (u j)) ks s) = rest s" for h u and s :: "'z hw_state_scheme"
    by (induction ks arbitrary: s) simp_all
  show "rest (fold (\<lambda>i s. vwrite (f i) (v i) (vwrite (g i) (w i) s)) js s) = rest s" by (induction js arbitrary: s) simp_all
  show "rest (fold (\<lambda>i. fold (\<lambda>j. vwrite (h i j) (u i j)) ks) js s) = rest s" by (induction js arbitrary: s) (simp_all add: 1)
qed

lemma rest_zero_fill [simp]: "rest (zeroFillScreen13h s) = rest s" "rest (zeroFillScreen12h s) = rest s"
proof -
  have z: "rest (zero_plane k s) = rest s" for k and s :: "'z hw_state_scheme"
    by (simp only: zero_plane_def Let_def split_beta rest_folds rest_video)
  have "rest (fold zero_plane ks s) = rest s" for ks by (induction ks arbitrary: s) (simp_all add: z)
  then show "rest (zeroFillScreen12h s) = rest s" unfolding zeroFillScreen12h_def .
  show "rest (zeroFillScreen13h s) = rest s" unfolding zeroFillScreen13h_def by (rule rest_folds)
qed

lemmas tab_rest = rest_tab [OF rest_uart(2)] rest_tab [OF rest_cursor] rest_tab [OF rest_video(1)] rest_tab [OF rest_video(2)]
  rest_tab [OF rest_video(3)] rest_tab [OF rest_video(4)] rest_tab [OF rest_video(5)]

declare tab_rest [simp]

lemma safe_cgaputc [safe]: "tab I s \<Longrightarrow> held s = H \<Longrightarrow> safe I H (cgaputc c s)"
  by (simp add: cgaputc_def Let_def split_beta)

lemma safe_consputc [safe]: "tab I s \<Longrightarrow> held s = H \<Longrightarrow> safe I H (consputc c s)"
  unfolding consputc_def by (rule safe | simp)+

lemma safe_consputs [safe]: "tab I s \<Longrightarrow> held s = H \<Longrightarrow> safe I H (consputs cs s)"
proof (induction cs arbitrary: s)
  case (Cons c cs)
  show ?case unfolding consputs.simps by (insert Cons.prems, (rule safe Cons.IH | simp)+)
qed simp

lemma safe_cprintf_loop: "tab I s \<Longrightarrow> held s = H \<Longrightarrow> safe I H (cprintf_loop fmt arg str i s)"
proof (induction "length fmt" arbitrary: fmt i s rule: less_induct)
  case less
  consider "fmt = []" | c where "fmt = [c]" | c d cs where "fmt = c # d # cs" by (cases fmt; cases "tl fmt") auto
  then show ?case
  proof cases
    case 1
    then show ?thesis using less.prems by simp
  next
    case 2
    show ?thesis unfolding 2 cprintf_loop.simps by (insert less.prems, (rule safe | simp)+)
  next
    case 3
    show ?thesis unfolding 3 cprintf_loop.simps printint_def
      by (insert less.prems, (rule safe less.hyps | simp add: 3)+)
  qed
qed

lemma safe_cprintf [safe]: "tab I s \<Longrightarrow> held s = H \<Longrightarrow> safe I H (cprintf fmt arg str s)"
  unfolding cprintf_def
  by (cases "cons_locking s") (simp_all, (rule safe_acquire | rule safe safe_cprintf_loop | simp)+)

lemma safe_consolewrite_body [safe]: "tab I s \<Longrightarrow> held s = H \<Longrightarrow> safe I H (consolewrite_body bs s)"
  unfolding consolewrite_body_def by (rule safe_acquire | rule safe | simp)+

lemma tab_snapshot [simp]: "tab I (snapshotTextTake s) = tab I s" "held (snapshotTextTake s) = held s"
  "tab I (snapshotTextRestore s) = tab I s" "held (snapshotTextRestore s) = held s"
  by (simp_all add: snapshotTextTake_def snapshotTextRestore_def Let_def split_beta)

lemma tab_video [simp]:
  "tab I (snd (consolevgamode m s)) = tab I s" "held (snd (consolevgamode m s)) = held s"
  "tab I (snd (setpixel x y c s)) = tab I s" "held (snd (setpixel x y c s)) = held s"
  by (simp_all add: consolevgamode_def setpixel_def Let_def split_beta rest_tab [OF rest_plane_pixel])

end
