(* ===== verification/Safefs.thy ===== *)
theory Safefs
  imports Safe
begin

text \<open>
  The routines that may wake or put to sleep processes keep every invariant of the process table
  that these two steps and changes of a process's data keep (locale \<open>table_laws\<close>): the buffer cache,
  the log, inodes, directories, open files, pipes, programs and the system calls built on them.
\<close>

lemma safe_holdingsleep [safe]: "tab I s \<Longrightarrow> held s = H \<Longrightarrow> safe I H (holdingsleep l s)"
  unfolding holdingsleep_def by (rule safe_acquire | rule safe | simp)+

lemma safe_iderw [safe]: "tab I s \<Longrightarrow> held s = H \<Longrightarrow> safe I H (iderw i s)"
  unfolding iderw_def by (rule safe | simp)+

lemma safe_bwrite [safe]: "tab I s \<Longrightarrow> held s = H \<Longrightarrow> safe I H (bwrite i s)"
  unfolding bwrite_def by (rule safe | simp)+

lemma safe_log_write [safe]: "tab I s \<Longrightarrow> held s = H \<Longrightarrow> safe I H (log_write i s)"
  unfolding log_write_def by (rule safe_acquire | rule safe | simp)+

lemma safe_iget [safe]: "tab I s \<Longrightarrow> held s = H \<Longrightarrow> safe I H (iget dv inum s)"
  unfolding iget_def by (rule safe_acquire | rule safe | simp)+

lemma safe_idup [safe]: "tab I s \<Longrightarrow> held s = H \<Longrightarrow> safe I H (idup i s)"
  unfolding idup_def by (rule safe_acquire | rule safe | simp)+

lemma safe_filealloc [safe]: "tab I s \<Longrightarrow> held s = H \<Longrightarrow> safe I H (filealloc s)"
  unfolding filealloc_def by (rule safe_acquire | rule safe | simp)+

lemma safe_filedup [safe]: "tab I s \<Longrightarrow> held s = H \<Longrightarrow> safe I H (filedup i s)"
  unfolding filedup_def by (rule safe_acquire | rule safe | simp)+

lemma tab_links [simp]:
  "tab I (link_front i s) = tab I s" "held (link_front i s) = held s"
  "tab I (unlink_buf i s) = tab I s" "held (unlink_buf i s) = held s"
  by (simp_all add: link_front_def unlink_buf_def Let_def)

section \<open>The laws\<close>

locale table_laws =
  fixes I :: tableinv
  assumes wake: "I ps c n \<Longrightarrow> I (wake_all ch NPROC ps) c n"
    and doze: "I ps (Some p) n \<Longrightarrow> I (ps(p := (ps p)\<lparr>p_chan := Some ch, p_state := SLEEPING\<rparr>)) None n"
    and touch: "I ps c n \<Longrightarrow> p_pid q = p_pid (ps p) \<Longrightarrow> p_state q = p_state (ps p) \<Longrightarrow> p_chan q = p_chan (ps p) \<Longrightarrow>
      I (ps(p := q)) c n"
begin

lemma tab_upd_proc:
  "tab I s \<Longrightarrow> (\<And>q. p_pid (f q) = p_pid q \<and> p_state (f q) = p_state q \<and> p_chan (f q) = p_chan q) \<Longrightarrow> tab I (upd_proc p f s)"
  by (simp add: tab_def touch)

lemma tab_set_fd: "tab I s \<Longrightarrow> tab I (set_fd p fd f s)"
  by (simp add: set_fd_def tab_upd_proc)

lemma safe_wakeup [safe]: "tab I s \<Longrightarrow> held s = H \<Longrightarrow> safe I H (wakeup ch s)"
  unfolding wakeup_def wakeup1_def
  by (rule safe_acquire, rule safe_release) (auto simp: tab_def wake)

lemma safe_sleep [safe]:
  fixes s :: "'a sched_state_scheme"
  shows "tab I s \<Longrightarrow> safe I H (sleep ch l s :: ('a sched_state_scheme, 'c) kres)"
proof (cases "sleep ch l s :: ('a sched_state_scheme, 'c) kres")
  case (Sleep c t)
  then obtain p where "curproc s = Some p" "t = s\<lparr>procs := (procs s)(p := (procs s p)\<lparr>p_chan := Some ch, p_state := SLEEPING\<rparr>),
      curproc := None, held := {}\<rparr>" unfolding sleep_Sleep_iff by blast
  then show "tab I s \<Longrightarrow> ?thesis" using Sleep doze [of "procs s" p "nextpid s" ch] by (simp add: tab_def)
qed simp_all

lemma safe_acquiresleep [safe]: "tab I s \<Longrightarrow> held s = H \<Longrightarrow> safe I H (acquiresleep l s)"
  unfolding acquiresleep_def acquiresleep_loop_def by (rule safe_acquire | rule safe | simp)+

lemma safe_releasesleep [safe]: "tab I s \<Longrightarrow> held s = H \<Longrightarrow> safe I H (releasesleep l s)"
  unfolding releasesleep_def by (rule safe_acquire | rule safe | simp)+

lemma safe_bget [safe]: "tab I s \<Longrightarrow> held s = H \<Longrightarrow> safe I H (bget dv b s)"
  unfolding bget_def by (rule safe_acquire | rule safe | simp)+

lemma safe_bread [safe]: "tab I s \<Longrightarrow> held s = H \<Longrightarrow> safe I H (bread dv b s)"
  unfolding bread_def by (rule safe | simp)+

lemma safe_brelse [safe]: "tab I s \<Longrightarrow> held s = H \<Longrightarrow> safe I H (brelse i s)"
  unfolding brelse_def by (rule safe_acquire | rule safe | simp)+

lemma safe_commit_loops:
  "tab I s \<Longrightarrow> held s = H \<Longrightarrow> safe I H (install_loop m k s)" "tab I s \<Longrightarrow> held s = H \<Longrightarrow> safe I H (write_log_loop m k s)"
proof (induction m arbitrary: k s)
  case (Suc m)
  case 1
  show ?case unfolding install_loop.simps by (insert 1, (rule safe Suc.IH | simp)+)
  case 2
  show ?case unfolding write_log_loop.simps by (insert 2, (rule safe Suc.IH | simp)+)
qed simp_all

lemma safe_write_head [safe]: "tab I s \<Longrightarrow> held s = H \<Longrightarrow> safe I H (write_head s)"
  unfolding write_head_def by (rule safe | simp)+

lemma safe_commit [safe]: "tab I s \<Longrightarrow> held s = H \<Longrightarrow> safe I H (commit s)"
  unfolding commit_def write_log_def install_trans_def by (rule safe safe_commit_loops | simp)+

lemma safe_begin_op [safe]: "tab I s \<Longrightarrow> held s = H \<Longrightarrow> safe I H (begin_op s)"
  unfolding begin_op_def begin_op_loop_def by (rule safe_acquire | rule safe | simp)+

lemma safe_end_op [safe]: "tab I s \<Longrightarrow> held s = H \<Longrightarrow> safe I H (end_op s)"
  unfolding end_op_def by (rule safe_acquire | rule safe | simp)+

section \<open>Inodes\<close>

lemma safe_bzero [safe]: "tab I s \<Longrightarrow> held s = H \<Longrightarrow> safe I H (bzero dv b s)"
  unfolding bzero_def by (rule safe | simp)+

lemma safe_balloc_loop: "tab I s \<Longrightarrow> held s = H \<Longrightarrow> safe I H (balloc_loop dv m b s)"
proof (induction m arbitrary: b s)
  case (Suc m)
  show ?case unfolding balloc_loop.simps by (insert Suc.prems, (rule safe Suc.IH | simp)+)
qed simp

lemma safe_balloc [safe]: "tab I s \<Longrightarrow> held s = H \<Longrightarrow> safe I H (balloc dv s)"
  unfolding balloc_def by (rule safe_balloc_loop)

lemma safe_bfree [safe]: "tab I s \<Longrightarrow> held s = H \<Longrightarrow> safe I H (bfree dv b s)"
  unfolding bfree_def by (rule safe | simp)+

lemma safe_iupdate [safe]: "tab I s \<Longrightarrow> held s = H \<Longrightarrow> safe I H (iupdate i s)"
  unfolding iupdate_def by (rule safe | simp)+

lemma safe_ialloc_loop: "tab I s \<Longrightarrow> held s = H \<Longrightarrow> safe I H (ialloc_loop dv ty m inum s)"
proof (induction m arbitrary: inum s)
  case (Suc m)
  show ?case unfolding ialloc_loop.simps by (insert Suc.prems, (rule safe Suc.IH | simp)+)
qed simp

lemma safe_ialloc [safe]: "tab I s \<Longrightarrow> held s = H \<Longrightarrow> safe I H (ialloc dv ty s)"
  unfolding ialloc_def by (rule safe_ialloc_loop)

lemma safe_ilock [safe]: "tab I s \<Longrightarrow> held s = H \<Longrightarrow> safe I H (ilock i s)"
  unfolding ilock_def by (rule safe | simp)+

lemma safe_iunlock [safe]: "tab I s \<Longrightarrow> held s = H \<Longrightarrow> safe I H (iunlock i s)"
  unfolding iunlock_def by (rule safe | simp)+

lemma safe_bmap [safe]: "tab I s \<Longrightarrow> held s = H \<Longrightarrow> safe I H (bmap i bn s)"
  unfolding bmap_def by (rule safe | simp)+

lemma safe_itrunc_loops:
  "tab I s \<Longrightarrow> held s = H \<Longrightarrow> safe I H (itrunc_direct i m k s)"
  "tab I s \<Longrightarrow> held s = H \<Longrightarrow> safe I H (itrunc_indirect dv bp m k s)"
proof (induction m arbitrary: k s)
  case (Suc m)
  case 1
  show ?case unfolding itrunc_direct.simps by (insert 1, (rule safe Suc.IH | simp)+)
  case 2
  show ?case unfolding itrunc_indirect.simps by (insert 2, (rule safe Suc.IH | simp)+)
qed simp_all

lemma safe_itrunc [safe]: "tab I s \<Longrightarrow> held s = H \<Longrightarrow> safe I H (itrunc i s)"
  unfolding itrunc_def by (rule safe safe_itrunc_loops | simp)+

lemma safe_iput [safe]: "tab I s \<Longrightarrow> held s = H \<Longrightarrow> safe I H (iput i s)"
  unfolding iput_def by (rule safe_acquire | rule safe | simp)+

lemma safe_iunlockput [safe]: "tab I s \<Longrightarrow> held s = H \<Longrightarrow> safe I H (iunlockput i s)"
  unfolding iunlockput_def by (rule safe | simp)+

section \<open>Files and directories\<close>

lemma safe_consoleread_loop:
  "tab I s \<Longrightarrow> held s = insert ConsLock H \<Longrightarrow> ConsLock \<notin> H \<Longrightarrow> safe I H (consoleread_loop target n dst s)"
proof (induction n arbitrary: dst s)
  case 0
  show ?case unfolding consoleread_loop.simps by (insert 0, (rule safe | simp)+)
next
  case (Suc n)
  show ?case unfolding consoleread_loop.simps by (insert Suc.prems, (rule safe Suc.IH | simp)+)
qed

lemma safe_consoleread [safe]: "tab I s \<Longrightarrow> held s = H \<Longrightarrow> safe I H (consoleread i n s)"
  unfolding consoleread_def by (rule safe_acquire | rule safe safe_consoleread_loop | simp)+

lemma safe_consolewrite [safe]: "tab I s \<Longrightarrow> held s = H \<Longrightarrow> safe I H (consolewrite i bs s)"
  unfolding consolewrite_def by (rule safe | simp)+

lemma safe_readi_loop [safe]: "tab I s \<Longrightarrow> held s = H \<Longrightarrow> safe I H (readi_loop i r off s)"
proof (induction r arbitrary: off s rule: less_induct)
  case (less r)
  show ?case by (subst readi_loop.simps) (insert less.prems, (rule safe less.IH | simp)+)
qed

lemma safe_readi [safe]: "tab I s \<Longrightarrow> held s = H \<Longrightarrow> safe I H (readi i off n s)"
  unfolding readi_def by (rule safe | simp)+

lemma safe_writei_loop [safe]: "tab I s \<Longrightarrow> held s = H \<Longrightarrow> safe I H (writei_loop i src off s)"
proof (induction "length src" arbitrary: src off s rule: less_induct)
  case less
  show ?case by (subst writei_loop.simps) (insert less.prems, (rule safe less.hyps | simp)+)
qed

lemma safe_writei [safe]: "tab I s \<Longrightarrow> held s = H \<Longrightarrow> safe I H (writei i src off s)"
  unfolding writei_def by (rule safe | simp)+

lemma safe_dirlookup_loop: "tab I s \<Longrightarrow> held s = H \<Longrightarrow> safe I H (dirlookup_loop dp name m off s)"
proof (induction m arbitrary: off s)
  case (Suc m)
  show ?case unfolding dirlookup_loop.simps by (insert Suc.prems, (rule safe Suc.IH | simp)+)
qed simp

lemma safe_dirlookup [safe]: "tab I s \<Longrightarrow> held s = H \<Longrightarrow> safe I H (dirlookup dp name s)"
  unfolding dirlookup_def by (rule safe safe_dirlookup_loop | simp)+

lemma safe_dirlink_free: "tab I s \<Longrightarrow> held s = H \<Longrightarrow> safe I H (dirlink_free dp m off s)"
proof (induction m arbitrary: off s)
  case (Suc m)
  show ?case unfolding dirlink_free.simps by (insert Suc.prems, (rule safe Suc.IH | simp)+)
qed simp

lemma safe_dirlink [safe]: "tab I s \<Longrightarrow> held s = H \<Longrightarrow> safe I H (dirlink dp name inum s)"
  unfolding dirlink_def by (rule safe safe_dirlink_free | simp)+

lemma safe_namex_loop [safe]: "tab I s \<Longrightarrow> held s = H \<Longrightarrow> safe I H (namex_loop parent path name i s)"
proof (induction "length path" arbitrary: path name i s rule: less_induct)
  case less
  show ?case
    by (subst namex_loop.simps) (insert less.prems, (rule safe less.hyps | erule skipelem_shorter | simp)+)
qed

lemma safe_namex [safe]: "tab I s \<Longrightarrow> held s = H \<Longrightarrow> safe I H (namex path parent s)"
  unfolding namex_def by (rule safe | simp)+

lemma safe_namei [safe]: "tab I s \<Longrightarrow> held s = H \<Longrightarrow> safe I H (namei path s)" "tab I s \<Longrightarrow> held s = H \<Longrightarrow> safe I H (nameiparent path s)"
  unfolding namei_def nameiparent_def by (rule safe | simp)+

section \<open>Open files and pipes\<close>

lemma safe_pipeclose [safe]: "tab I s \<Longrightarrow> held s = H \<Longrightarrow> safe I H (pipeclose kend p w s)"
  unfolding pipeclose_def by (rule safe_acquire | rule safe | simp)+

lemma safe_pipewrite_loop:
  "tab I s \<Longrightarrow> held s = insert (PipeLock p) H \<Longrightarrow> PipeLock p \<notin> H \<Longrightarrow> safe I H (pipewrite_loop p addr n m i s)"
proof (induction m arbitrary: i s)
  case 0
  show ?case unfolding pipewrite_loop.simps by (insert 0, (rule safe | simp)+)
next
  case (Suc m)
  show ?case unfolding pipewrite_loop.simps by (insert Suc.prems, (rule safe Suc.IH | simp)+)
qed

lemma safe_pipewrite [safe]: "tab I s \<Longrightarrow> held s = H \<Longrightarrow> safe I H (pipewrite p addr n s)"
  unfolding pipewrite_def by (rule safe_acquire | rule safe_pipewrite_loop | simp)+

lemma safe_piperead [safe]: "tab I s \<Longrightarrow> held s = H \<Longrightarrow> safe I H (piperead p n s)"
  unfolding piperead_def piperead_loop_def by (rule safe_acquire | rule safe | simp)+

lemma safe_fileclose [safe]: "tab I s \<Longrightarrow> held s = H \<Longrightarrow> safe I H (fileclose K i s)"
  unfolding fileclose_def
  by (rule safe_acquire | rule safe | simp split: fdtype.splits | intro conjI impI)+

lemma safe_filestat [safe]: "tab I s \<Longrightarrow> held s = H \<Longrightarrow> safe I H (filestat i s)"
  unfolding filestat_def by (rule safe | simp)+

lemma safe_fileread [safe]: "tab I s \<Longrightarrow> held s = H \<Longrightarrow> safe I H (fileread i n s)"
  unfolding fileread_def by (cases "f_type (files s i)"; (rule safe | simp)+)

lemma safe_filewrite_loop [safe]: "tab I s \<Longrightarrow> held s = H \<Longrightarrow> safe I H (filewrite_loop i src s)"
proof (induction "length src" arbitrary: src s rule: less_induct)
  case less
  show ?case by (subst filewrite_loop.simps) (insert less.prems, (rule safe less.hyps | simp)+)
qed

lemma safe_filewrite [safe]: "tab I s \<Longrightarrow> held s = H \<Longrightarrow> safe I H (filewrite i src s)"
  unfolding filewrite_def by (cases "f_type (files s i)"; (rule safe | simp)+)

lemma safe_pipealloc [safe]: "tab I s \<Longrightarrow> held s = {} \<Longrightarrow> safe I {} (pipealloc K s)"
  unfolding pipealloc_def cleanuppipealloc_def lk_init_def by (rule safe | simp)+

end

end
