(* ===== verification/Safecalls.thy ===== *)
theory Safecalls
  imports Safefs
begin

text \<open>
  Programs and system calls keep the invariants of the process table and release the locks they
  acquire. The laws of \<open>table_laws\<close> hold of \<open>ptable_inv\<close> (interpretation \<open>pt\<close>); \<open>fork\<close>, \<open>exit\<close>, \<open>wait\<close>, \<open>kill\<close>
  and \<open>yield\<close>, which change states and pids, are done for that invariant.
\<close>

lemma safe_fetchint [safe]: "tab I s \<Longrightarrow> held s = H \<Longrightarrow> safe I H (fetchint a s)"
  unfolding fetchint_def by (rule safe | simp)+

lemma safe_argint [safe]: "tab I s \<Longrightarrow> held s = H \<Longrightarrow> safe I H (argint n s)"
  unfolding argint_def by (rule safe | simp)+

lemma safe_argptr [safe]: "tab I s \<Longrightarrow> held s = H \<Longrightarrow> safe I H (argptr n sz s)"
  unfolding argptr_def by (rule safe | simp)+

lemma safe_fetchstr_loop: "tab I s \<Longrightarrow> held s = H \<Longrightarrow> safe I H (fetchstr_loop m a acc s)"
proof (induction m arbitrary: a acc)
  case (Suc m)
  show ?case unfolding fetchstr_loop.simps by (insert Suc.prems, (rule safe Suc.IH | simp)+)
qed simp

lemma safe_fetchstr [safe]: "tab I s \<Longrightarrow> held s = H \<Longrightarrow> safe I H (fetchstr a s)"
  unfolding fetchstr_def by (rule safe safe_fetchstr_loop | simp)+

lemma safe_argstr [safe]: "tab I s \<Longrightarrow> held s = H \<Longrightarrow> safe I H (argstr n s)"
  unfolding argstr_def by (rule safe | simp)+

lemma safe_argfd [safe]: "tab I s \<Longrightarrow> held s = H \<Longrightarrow> safe I H (argfd n s)"
  unfolding argfd_def by (rule safe | simp)+

lemma safe_arg_rw [safe]: "tab I s \<Longrightarrow> held s = H \<Longrightarrow> safe I H (arg_rw s)"
  unfolding arg_rw_def by (rule safe | simp)+

lemma safe_fetch_argv [safe]: "tab I s \<Longrightarrow> held s = H \<Longrightarrow> safe I H (fetch_argv m a s)"
proof (induction m arbitrary: a s)
  case (Suc m)
  show ?case unfolding fetch_argv.simps by (insert Suc.prems, (rule safe Suc.IH | simp)+)
qed simp

lemma safe_store_stat [safe]: "tab I s \<Longrightarrow> held s = H \<Longrightarrow> safe I H (store_stat a st s)"
  unfolding store_stat_def by (rule safe | simp)+

lemma safe_allocuvm_loop: "tab I s \<Longrightarrow> held s = H \<Longrightarrow> safe I H (allocuvm_loop kend pgdir oldsz newsz m a s)"
proof (induction m arbitrary: a s)
  case (Suc m)
  show ?case unfolding allocuvm_loop.simps by (insert Suc.prems, (rule safe Suc.IH | simp)+)
qed simp

lemma safe_allocuvm [safe]: "tab I s \<Longrightarrow> held s = H \<Longrightarrow> safe I H (allocuvm kend pgdir oldsz newsz s)"
  unfolding allocuvm_def by (rule safe safe_allocuvm_loop | simp)+

lemma safe_exec_args [safe]: "tab I s \<Longrightarrow> held s = H \<Longrightarrow> safe I H (exec_args pgdir argv sp us s)"
proof (induction argv arbitrary: sp us s)
  case (Cons arg argv)
  show ?case unfolding exec_args.simps by (insert Cons.prems, (rule safe Cons.IH | simp)+)
qed simp

lemma safe_say [safe]: "tab I s \<Longrightarrow> held s = H \<Longrightarrow> safe I H (say msg s)"
  unfolding say_def by (rule safe | simp)+

section \<open>Programs and files\<close>

context table_laws
begin

lemma safe_loaduvm_loop: "tab I s \<Longrightarrow> held s = H \<Longrightarrow> safe I H (loaduvm_loop pgdir addr ip off sz m i s)"
proof (induction m arbitrary: i s)
  case (Suc m)
  show ?case unfolding loaduvm_loop.simps by (insert Suc.prems, (rule safe Suc.IH | simp)+)
qed simp

lemma safe_loaduvm [safe]: "tab I s \<Longrightarrow> held s = H \<Longrightarrow> safe I H (loaduvm pgdir addr ip off sz s)"
  unfolding loaduvm_def by (rule safe safe_loaduvm_loop | simp)+

lemma safe_exec_load [safe]: "tab I s \<Longrightarrow> held s = H \<Longrightarrow> safe I H (exec_load K pgdir ip m off sz s)"
proof (induction m arbitrary: off sz s)
  case (Suc m)
  show ?case unfolding exec_load.simps by (insert Suc.prems, (rule safe Suc.IH | simp)+)
qed simp

lemma safe_exec_fail [safe]: "tab I s \<Longrightarrow> held s = H \<Longrightarrow> safe I H (exec_fail K pgdir ip s)"
  unfolding exec_fail_def cleanupexec_def by (rule safe | simp)+

lemma safe_exec [safe]: "tab I s \<Longrightarrow> held s = H \<Longrightarrow> safe I H (exec K path argv s)"
  unfolding exec_def by (rule safe tab_upd_proc | simp)+

lemma safe_growproc [safe]: "tab I s \<Longrightarrow> held s = H \<Longrightarrow> safe I H (growproc kend n s)"
  unfolding growproc_def by (rule safe tab_upd_proc | simp)+

lemma safe_fdalloc [safe]: "tab I s \<Longrightarrow> held s = H \<Longrightarrow> safe I H (fdalloc f s)"
  unfolding fdalloc_def by (rule safe tab_set_fd | simp add: set_fd_def)+

lemma safe_fail_op [safe]: "tab I s \<Longrightarrow> held s = H \<Longrightarrow> safe I H (fail_op s)"
  unfolding fail_op_def by (rule safe | simp)+

lemma safe_cleanupsyslink [safe]: "tab I s \<Longrightarrow> held s = H \<Longrightarrow> safe I H (cleanupsyslink i s)"
  unfolding cleanupsyslink_def by (rule safe | simp)+

lemma safe_isdirempty_loop: "tab I s \<Longrightarrow> held s = H \<Longrightarrow> safe I H (isdirempty_loop d m off s)"
proof (induction m arbitrary: off s)
  case (Suc m)
  show ?case unfolding isdirempty_loop.simps by (insert Suc.prems, (rule safe Suc.IH | simp)+)
qed simp

lemma safe_isdirempty [safe]: "tab I s \<Longrightarrow> held s = H \<Longrightarrow> safe I H (isdirempty d s)"
  unfolding isdirempty_def by (rule safe_isdirempty_loop)

lemma safe_create_dots [safe]: "tab I s \<Longrightarrow> held s = H \<Longrightarrow> safe I H (create_dots d i s)"
  unfolding create_dots_def by (rule safe | simp)+

lemma safe_create [safe]: "tab I s \<Longrightarrow> held s = H \<Longrightarrow> safe I H (create path ty major minor s)"
  unfolding create_def by (rule safe | simp)+

lemma safe_open_inode [safe]: "tab I s \<Longrightarrow> held s = H \<Longrightarrow> safe I H (open_inode path omode s)"
  unfolding open_inode_def by (rule safe | simp)+

lemma safe_finish_create [safe]: "tab I s \<Longrightarrow> held s = H \<Longrightarrow> safe I H (finish_create ip s)"
  unfolding finish_create_def by (rule safe | simp)+

section \<open>System calls\<close>

lemma safe_sys_dup: "tab I s \<Longrightarrow> held s = H \<Longrightarrow> safe I H (sys_dup s)"
  unfolding sys_dup_def by (rule safe | simp)+

lemma safe_sys_read: "tab I s \<Longrightarrow> held s = H \<Longrightarrow> safe I H (sys_read s)"
  unfolding sys_read_def by (rule safe | simp)+

lemma safe_sys_write: "tab I s \<Longrightarrow> held s = H \<Longrightarrow> safe I H (sys_write s)"
  unfolding sys_write_def by (rule safe | simp)+

lemma safe_sys_fstat: "tab I s \<Longrightarrow> held s = H \<Longrightarrow> safe I H (sys_fstat s)"
  unfolding sys_fstat_def by (rule safe | simp)+

lemma safe_sys_link: "tab I s \<Longrightarrow> held s = H \<Longrightarrow> safe I H (sys_link s)"
  unfolding sys_link_def by (rule safe | simp)+

lemma safe_sys_unlink: "tab I s \<Longrightarrow> held s = H \<Longrightarrow> safe I H (sys_unlink s)"
  unfolding sys_unlink_def by (rule safe | simp)+

lemma safe_sys_mkdir: "tab I s \<Longrightarrow> held s = H \<Longrightarrow> safe I H (sys_mkdir s)"
  unfolding sys_mkdir_def by (rule safe | simp)+

lemma safe_sys_mknod: "tab I s \<Longrightarrow> held s = H \<Longrightarrow> safe I H (sys_mknod s)"
  unfolding sys_mknod_def by (rule safe | simp)+

lemma safe_sys_close: "tab I s \<Longrightarrow> held s = H \<Longrightarrow> safe I H (sys_close K s)"
  unfolding sys_close_def by (rule safe tab_set_fd | simp add: set_fd_def)+

lemma safe_sys_open: "tab I s \<Longrightarrow> held s = H \<Longrightarrow> safe I H (sys_open K s)"
  unfolding sys_open_def by (rule safe | simp)+

lemma safe_sys_chdir: "tab I s \<Longrightarrow> held s = H \<Longrightarrow> safe I H (sys_chdir s)"
  unfolding sys_chdir_def by (rule safe tab_upd_proc | simp)+

lemma safe_sys_exec: "tab I s \<Longrightarrow> held s = H \<Longrightarrow> safe I H (sys_exec K s)"
  unfolding sys_exec_def by (rule safe | simp)+

lemma safe_sys_pipe: "tab I s \<Longrightarrow> held s = {} \<Longrightarrow> safe I {} (sys_pipe K s)"
  unfolding sys_pipe_def by (rule safe tab_set_fd | simp add: set_fd_def)+

lemma safe_sys_sbrk: "tab I s \<Longrightarrow> held s = H \<Longrightarrow> safe I H (sys_sbrk K s)"
  unfolding sys_sbrk_def by (rule safe | simp)+

lemma safe_sys_sleep: "tab I s \<Longrightarrow> held s = H \<Longrightarrow> safe I H (sys_sleep s)"
  unfolding sys_sleep_def sys_sleep_loop_def by (rule safe_acquire | rule safe | simp)+

end

lemma safe_sys_quiet:
  "tab I s \<Longrightarrow> held s = H \<Longrightarrow> safe I H (sys_getpid s)" "tab I s \<Longrightarrow> held s = H \<Longrightarrow> safe I H (sys_uptime s)"
  unfolding sys_getpid_def sys_uptime_def by (rule safe_acquire | rule safe | simp)+

lemma safe_sys_video:
  "tab I s \<Longrightarrow> held s = H \<Longrightarrow> safe I H (sys_greeting s)" "tab I s \<Longrightarrow> held s = H \<Longrightarrow> safe I H (sys_videomodevga13 s)"
  "tab I s \<Longrightarrow> held s = H \<Longrightarrow> safe I H (sys_videomodevga12 s)" "tab I s \<Longrightarrow> held s = H \<Longrightarrow> safe I H (sys_videomodetext s)"
  unfolding sys_greeting_def sys_videomodevga13_def sys_videomodevga12_def sys_videomodetext_def
  by (rule safe | simp)+

lemma safe_sys_pixels:
  "tab I s \<Longrightarrow> held s = H \<Longrightarrow> safe I H (sys_setspecificpixel junk s)" "tab I s \<Longrightarrow> held s = H \<Longrightarrow> safe I H (sys_clearscreen13h s)"
  "tab I s \<Longrightarrow> held s = H \<Longrightarrow> safe I H (sys_clearscreen12h s)"
  unfolding sys_setspecificpixel_def sys_clearscreen13h_def sys_clearscreen12h_def
  by (rule safe | simp add: rest_tab [OF rest_zero_fill(1)] rest_tab [OF rest_zero_fill(2)])+

lemma kbdgetc_tab [simp]: "tab I (snd (kbdgetc s)) = tab I s" "held (snd (kbdgetc s)) = held s"
  by (simp_all add: kbdgetc_def inb_def split_beta)

lemma consoleget_loop_tab:
  fixes s :: "'a hw_state_scheme"
  assumes "consoleget_loop s = Some y"
  shows "tab I (snd y) = tab I s \<and> held (snd y) = held s"
  using assms
proof (rule consoleget_loop.raw_induct [where P = "\<lambda>s y. tab I (snd y) = tab I s \<and> held (snd y) = held s", rotated])
  fix loop and s :: "'a hw_state_scheme" and y :: "int \<times> 'a hw_state_scheme"
  assume IH: "\<And>(s :: 'a hw_state_scheme) (y :: int \<times> 'a hw_state_scheme). loop s = Some y \<Longrightarrow> tab I (snd y) = tab I s \<and> held (snd y) = held s"
  assume e: "(case kbdgetc s of (c, s) \<Rightarrow> if c \<le> 0 then if c = 0 then loop (snd (kbdgetc s)) else loop s else Some (c, s)) = Some y"
  obtain c u where k: "kbdgetc s = (c, u)" by (cases "kbdgetc s")
  then have "tab I u = tab I s" "held u = held s" using kbdgetc_tab(1) [of I s] kbdgetc_tab(2) [of s] by simp_all
  then have u: "tab I (snd (kbdgetc u)) = tab I s" "held (snd (kbdgetc u)) = held s" "tab I u = tab I s" "held u = held s"
    by (simp_all only: kbdgetc_tab)
  show "tab I (snd y) = tab I s \<and> held (snd y) = held s"
  proof (cases "c \<le> 0")
    case True
    then have "loop (snd (kbdgetc u)) = Some y \<or> loop u = Some y"
      using e unfolding k prod.case by (cases "c = 0") simp_all
    then show ?thesis using IH u by metis
  next
    case False
    then have "y = (c, u)" using e unfolding k prod.case by simp
    then show ?thesis using u by simp
  qed
qed

lemma safe_sys_getch:
  assumes "tab I s" and "held s = H" and "sys_getch s = Some m"
  shows "safe I H m"
proof (cases "ConsLock \<in> held s")
  case False
  let ?s = "s\<lparr>held := insert ConsLock (held s)\<rparr>"
  from False assms(3) obtain y where y: "consoleget_loop ?s = Some y"
    and m: "m = kbind (lk_release ConsLock (snd y)) (\<lambda>_ s. Ret (fst y) s)"
    by (auto simp: sys_getch_def consoleget_def split: option.splits prod.splits)
  from consoleget_loop_tab [OF y, of I] False assms(1,2) show ?thesis unfolding m by (simp add: safe_def)
qed (use assms in \<open>auto simp: sys_getch_def consoleget_def\<close>)

section \<open>The process table\<close>

definition ptable_ok :: tableinv where
  "ptable_ok ps c n \<longleftrightarrow> 0 < n \<and>
     (\<forall>i<NPROC. p_state (ps i) = RUNNING \<longleftrightarrow> c = Some i) \<and>
     (\<forall>i. c = Some i \<longrightarrow> i < NPROC) \<and>
     (\<forall>i<NPROC. p_state (ps i) \<noteq> UNUSED \<longrightarrow> 0 < p_pid (ps i) \<and> p_pid (ps i) < n) \<and>
     (\<forall>i<NPROC. \<forall>j<NPROC. p_state (ps i) \<noteq> UNUSED \<longrightarrow> p_state (ps j) \<noteq> UNUSED \<longrightarrow>
        p_pid (ps i) = p_pid (ps j) \<longrightarrow> i = j) \<and>
     (\<forall>i<NPROC. p_state (ps i) = SLEEPING \<longrightarrow> p_chan (ps i) \<noteq> None)"

lemma tab_ptable: "tab ptable_ok s = ptable_inv s"
  by (simp add: tab_def ptable_ok_def ptable_inv_def)

lemma ptable_inv_ok: "ptable_inv s = ptable_ok (procs s) (curproc s) (nextpid s)"
  by (simp add: ptable_inv_def ptable_ok_def)

interpretation pt: table_laws ptable_ok
proof
  fix ps c n ch p and q :: proc
  let ?s = "sched_start\<lparr>procs := ps, curproc := c, nextpid := n\<rparr>"
  assume ok: "ptable_ok ps c n"
  then show "ptable_ok (wake_all ch NPROC ps) c n"
    using ptable_inv_wakeup1 [of ?s ch] by (simp add: ptable_inv_ok wakeup1_def)
  assume "p_pid q = p_pid (ps p)" "p_state q = p_state (ps p)" "p_chan q = p_chan (ps p)"
  then have "p_pid ((ps(p := q)) i) = p_pid (ps i)" "p_state ((ps(p := q)) i) = p_state (ps i)"
    "p_chan ((ps(p := q)) i) = p_chan (ps i)" for i by simp_all
  then show "ptable_ok (ps(p := q)) c n" using ok by (simp add: ptable_ok_def)
next
  fix ps p n ch
  assume "ptable_ok ps (Some p) n"
  then show "ptable_ok (ps(p := (ps p)\<lparr>p_chan := Some ch, p_state := SLEEPING\<rparr>)) None n"
    using ptable_inv_leave [of "sched_start\<lparr>procs := ps, curproc := Some p, nextpid := n\<rparr>" p
      "(ps p)\<lparr>p_chan := Some ch, p_state := SLEEPING\<rparr>"]
    by (simp add: ptable_inv_ok)
qed

end
