(* ===== verification/Kernel.thy ===== *)
theory Kernel
  imports Safecalls
begin

text \<open>
  Every trap into the kernel keeps the process table well formed and gives back the locks it took:
  the processes that \<open>fork\<close>, \<open>exit\<close>, \<open>wait\<close>, \<open>kill\<close> and \<open>yield\<close> change, the interrupts, and the dispatch
  in \<open>syscall\<close> and \<open>trap\<close>.
\<close>

lemma safe_mono:
  assumes "safe J H m" and "\<And>ps c n. J ps c n \<Longrightarrow> I ps c n"
  shows "safe I H m"
  using assms by (cases m) (auto simp: tab_def)

text \<open>The first step keeps a stronger invariant.\<close>

lemma safe_strong:
  assumes "safe J H' m" and "\<And>ps c n. J ps c n \<Longrightarrow> I ps c n" and "\<And>a t. tab J t \<Longrightarrow> held t = H' \<Longrightarrow> safe I H (f a t)"
  shows "safe I H (kbind m f)"
  using assms by (cases m) (auto simp: tab_def)

section \<open>States of a process\<close>

lemma tab_state:
  assumes "tab ptable_ok s" and "p_pid (f (procs s i)) = p_pid (procs s i)"
    and "p_state (f (procs s i)) = RUNNING \<longleftrightarrow> p_state (procs s i) = RUNNING"
    and "p_state (f (procs s i)) \<noteq> UNUSED \<longrightarrow> p_state (procs s i) \<noteq> UNUSED"
    and "p_state (f (procs s i)) = SLEEPING \<longrightarrow> p_chan (f (procs s i)) \<noteq> None"
  shows "tab ptable_ok (upd_proc i f s)"
  using ptable_inv_upd [of s "f (procs s i)" i] assms by (simp add: tab_ptable upd_proc_def)

lemma tab_unused:
  assumes "tab ptable_ok s" and "p_state (procs s i) \<noteq> RUNNING" and "p_state (f (procs s i)) = UNUSED"
  shows "tab ptable_ok (upd_proc i f s)"
proof -
  have "ptable_ok ((procs s)(i := f (procs s i))) (curproc s) (nextpid s)"
    using assms unfolding tab_def ptable_ok_def by auto
  then show ?thesis by (simp add: tab_def)
qed

text \<open>Slot \<open>i\<close> is in state \<open>st\<close>, which is neither \<open>RUNNING\<close> nor \<open>SLEEPING\<close>.\<close>

definition in_state :: "nat \<Rightarrow> procstate \<Rightarrow> tableinv" where
  "in_state i st ps c n \<longleftrightarrow> ptable_ok ps c n \<and> i < NPROC \<and> p_state (ps i) = st"

lemma in_state_laws:
  assumes "st \<noteq> RUNNING" and "st \<noteq> SLEEPING"
  shows "table_laws (in_state i st)"
proof
  fix ps c n ch p and q :: proc
  assume a: "in_state i st ps c n"
  show "in_state i st (wake_all ch NPROC ps) c n"
    using a assms pt.wake [of ps c n ch] by (simp add: in_state_def wake_all_eq woken_def)
  assume "p_pid q = p_pid (ps p)" "p_state q = p_state (ps p)" "p_chan q = p_chan (ps p)"
  then show "in_state i st (ps(p := q)) c n" using a pt.touch [of ps c n q p] by (auto simp: in_state_def)
next
  fix ps p n ch
  assume a: "in_state i st ps (Some p) n"
  then have "p_state (ps p) = RUNNING" by (simp add: in_state_def ptable_ok_def)
  with a assms have "i \<noteq> p" by (auto simp: in_state_def)
  then show "in_state i st (ps(p := (ps p)\<lparr>p_chan := Some ch, p_state := SLEEPING\<rparr>)) None n"
    using a pt.doze [of ps p n ch] by (simp add: in_state_def)
qed

lemma tab_in_state: "tab (in_state i st) s \<longleftrightarrow> tab ptable_ok s \<and> i < NPROC \<and> p_state (procs s i) = st"
  by (simp add: tab_def in_state_def)

text \<open>Process \<open>c\<close> is on the CPU, or nobody after it has gone to sleep.\<close>

definition on_cpu :: "nat \<Rightarrow> tableinv" where
  "on_cpu p ps c n \<longleftrightarrow> ptable_ok ps c n \<and> (c = Some p \<or> c = None)"

lemma on_cpu_laws: "table_laws (on_cpu p)"
  by (unfold_locales; unfold on_cpu_def; use pt.wake pt.doze pt.touch in blast)

lemma tab_on_cpu: "tab (on_cpu p) s \<longleftrightarrow> tab ptable_ok s \<and> (curproc s = Some p \<or> curproc s = None)"
  by (simp add: tab_def on_cpu_def)

section \<open>kill and yield\<close>

lemma kill_locks: "held s = H \<Longrightarrow> safe (\<lambda>_ _ _. True) H (kill pid s)"
  unfolding kill_def by (rule safe_acquire | rule safe | simp add: tab_def)+

lemma safe_kill [safe]:
  assumes "tab ptable_ok s" and "held s = H"
  shows "safe ptable_ok H (kill pid s)"
proof (cases "kill pid s")
  case (Ret r t)
  then show ?thesis using kill_locks [OF assms(2), of pid] kill_inv [OF _ Ret] assms(1) by (simp add: tab_ptable)
next
  case (Sleep c t)
  then show ?thesis
    by (cases "PtableLock \<in> held s") (auto simp: kill_def Let_def kbind_def lk_release_def split: option.splits kres.splits if_splits)
qed simp

lemma safe_yield [safe]:
  assumes "tab ptable_ok s" and "held s = {}"
  shows "safe ptable_ok {} (yield s)"
proof (cases "curproc s")
  case None
  then show ?thesis using assms by (simp add: yield_def)
next
  case (Some p)
  from yield_inv [OF _ yield_eq [OF Some assms(2)]] assms(1) show ?thesis
    unfolding yield_eq [OF Some assms(2)] by (simp add: tab_ptable)
qed

section \<open>fork\<close>

lemma allocproc_locks: "held s = H \<Longrightarrow> safe (\<lambda>_ _ _. True) H (allocproc f tr s)"
  unfolding allocproc_def by (rule safe_acquire | rule safe | simp add: tab_def)+

lemma allocproc_awake: "allocproc f tr s \<noteq> Sleep c t"
proof -
  have k: "kalloc u \<noteq> Sleep c v" for u v :: "'a sched_state_scheme"
    by (cases "use_lock u"; cases "KmemLock \<in> held u") (simp_all add: kalloc_def Let_def)
  show ?thesis
    by (cases "PtableLock \<in> held s")
      (auto simp: allocproc_def Let_def kbind_def lk_release_def k split: option.splits kres.splits)
qed

lemma safe_allocproc:
  assumes "tab ptable_ok s" and "held s = H"
    and "\<And>t. tab ptable_ok t \<Longrightarrow> held t = H \<Longrightarrow> safe ptable_ok H (g None t)"
    and "\<And>i t. tab (in_state i EMBRYO) t \<Longrightarrow> held t = H \<Longrightarrow> safe ptable_ok H (g (Some i) t)"
  shows "safe ptable_ok H (kbind (allocproc f tr s) g)"
proof (cases "allocproc f tr s")
  case (Ret r t)
  have "held t = H" using allocproc_locks [OF assms(2), of f tr] Ret by simp
  moreover have "tab ptable_ok t" "\<And>i. r = Some i \<Longrightarrow> i < NPROC \<and> p_state (procs t i) = EMBRYO"
    using allocproc_inv [OF _ Ret] assms(1) by (auto simp: tab_ptable)
  ultimately show ?thesis using assms(3,4) Ret by (cases r) (simp_all add: tab_in_state)
qed (use allocproc_awake [of f tr s] in simp_all)

lemma safe_fork_files:
  assumes "table_laws I"
  shows "tab I s \<Longrightarrow> held s = H \<Longrightarrow> safe I H (fork_files np c m fd s)"
proof (induction m arbitrary: fd s)
  case (Suc m)
  show ?case unfolding fork_files.simps
    by (insert Suc.prems, (rule safe Suc.IH table_laws.tab_upd_proc [OF assms] | simp)+)
qed simp

text \<open>The two ways in which \<open>fork\<close> leaves the new process.\<close>

lemma fork_undo:
  assumes "tab (in_state i EMBRYO) s" and "held s = H"
  shows "safe ptable_ok H (kbind (kfree kend v s) (\<lambda>_ s. Ret r (upd_proc i (\<lambda>q. q\<lparr>p_kstack := 0, p_state := UNUSED\<rparr>) s)))"
  by (rule safe_strong [OF safe_kfree [OF assms]])
    (auto simp: in_state_def tab_in_state intro!: tab_unused)

lemma fork_ready:
  assumes "tab (in_state i EMBRYO) s" and "held s = H"
  shows "safe ptable_ok H (kbind (lk_acquire PtableLock s) (\<lambda>_ s.
    kbind (lk_release PtableLock (upd_proc i (\<lambda>q. q\<lparr>p_state := RUNNABLE\<rparr>) s)) (\<lambda>_ s. Ret pid s)))"
  using assms by (intro safe_acquire safe tab_state) (auto simp: tab_in_state)

lemma embryo_laws: "table_laws (in_state i EMBRYO)"
  by (rule in_state_laws) simp_all

lemma in_state_ok: "in_state i st ps c n \<Longrightarrow> ptable_ok ps c n"
  by (simp add: in_state_def)

lemma fork_child:
  fixes s :: "'a file_state_scheme"
  assumes "tab (in_state i EMBRYO) s" and "held s = H"
  shows "safe ptable_ok H (kbind (fork_files i c NOFILE 0 s) (\<lambda>_ s.
    case p_cwd (procs s c) of
      None \<Rightarrow> null_deref
    | Some j \<Rightarrow>
        kbind (idup j s) (\<lambda>j s.
        let s = upd_proc i (\<lambda>q. q\<lparr>p_cwd := Some j, p_name := take 15 (p_name (procs s c))\<rparr>) s;
            pid = p_pid (procs s i)
        in kbind (lk_acquire PtableLock s) (\<lambda>_ s.
           kbind (lk_release PtableLock (upd_proc i (\<lambda>q. q\<lparr>p_state := RUNNABLE\<rparr>) s)) (\<lambda>_ s. Ret pid s)))))"
proof (rule safe_strong [OF safe_fork_files [OF embryo_laws assms]], erule in_state_ok, rule safe_option, simp)
  fix u j and t :: "'a file_state_scheme"
  assume "tab (in_state i EMBRYO) t" "held t = H"
  then show "safe ptable_ok H (kbind (idup j t) (\<lambda>j s.
        let s = upd_proc i (\<lambda>q. q\<lparr>p_cwd := Some j, p_name := take 15 (p_name (procs s c))\<rparr>) s;
            pid = p_pid (procs s i)
        in kbind (lk_acquire PtableLock s) (\<lambda>_ s.
           kbind (lk_release PtableLock (upd_proc i (\<lambda>q. q\<lparr>p_state := RUNNABLE\<rparr>) s)) (\<lambda>_ s. Ret pid s))))"
    by - (rule safe_strong [OF safe_idup], assumption, assumption, erule in_state_ok, unfold Let_def,
      (rule fork_ready table_laws.tab_upd_proc [OF embryo_laws] | simp)+)
qed

lemma safe_fork [safe]:
  assumes "tab ptable_ok s" and "held s = H"
  shows "safe ptable_ok H (fork K s)"
  unfolding fork_def
proof (rule safe_with_proc, rule safe_allocproc [OF assms], goal_cases)
  case (2 c i t)
  note keep = table_laws.tab_upd_proc [OF embryo_laws]
  show ?case unfolding option.case Let_def
  proof (rule safe_strong [OF safe_copyuvm [OF 2(2,3)]], erule in_state_ok, rule safe_if, goal_cases)
    case (1 pgdir u)
    then show ?case by (intro fork_undo keep) simp_all
  next
    case (2 pgdir u)
    then show ?case by (intro fork_child [unfolded Let_def] keep) simp_all
  qed
qed simp

section \<open>exit and wait\<close>

lemma safe_exit_files:
  assumes "table_laws I"
  shows "tab I s \<Longrightarrow> held s = H \<Longrightarrow> safe I H (exit_files K c m fd s)"
proof (induction m arbitrary: fd s)
  case (Suc m)
  show ?case unfolding exit_files.simps
    by (insert Suc.prems, (rule safe Suc.IH table_laws.safe_fileclose [OF assms] table_laws.tab_upd_proc [OF assms] | simp)+)
qed simp

lemma tab_reparent:
  assumes "table_laws I" and "tab I s"
  shows "tab I (wake_proc p s)" and "tab I (reparent c n s)"
proof -
  have w: "tab I (wakeup1 ch t)" if "tab I t" for ch and t :: "'a sched_state_scheme"
    using table_laws.wake [OF assms(1)] that by (simp add: tab_def wakeup1_def)
  then have p: "tab I (wake_proc p t)" if "tab I t" for p and t :: "'a sched_state_scheme"
    using that by (simp add: wake_proc_def split: option.split)
  then show "tab I (wake_proc p s)" using assms(2) .
  have r: "tab I (reparent1 c i t)" if "tab I t" for i and t :: "'a sched_state_scheme"
    using that by (simp add: reparent1_def Let_def p table_laws.tab_upd_proc [OF assms(1)])
  have "tab I (fold (reparent1 c) is t)" if "tab I t" for "is" and t :: "'a sched_state_scheme"
    using that by (induction "is" arbitrary: t) (simp_all add: r)
  then show "tab I (reparent c n s)" using assms(2) by (simp add: reparent_def)
qed

lemma held_reparent [simp]: "held (wake_proc p s) = held s" "held (reparent c n s) = held s"
proof -
  show w: "held (wake_proc p s) = held s" for p and s :: "'a sched_state_scheme"
    by (simp add: wake_proc_def split: option.split)
  have "held (fold (reparent1 c) is t) = held t" for "is" and t :: "'a sched_state_scheme"
    by (induction "is" arbitrary: t) (simp_all add: reparent1_def Let_def w)
  then show "held (reparent c n s) = held s" by (simp add: reparent_def)
qed

text \<open>The end of \<open>exit\<close>: the process becomes a zombie and leaves the CPU.\<close>

lemma exit_leave:
  assumes "tab (on_cpu c) s" and "held s = insert PtableLock H" and "PtableLock \<notin> H"
  shows "safe ptable_ok H (sched (upd_proc c (\<lambda>q. q\<lparr>p_state := ZOMBIE\<rparr>) s))"
proof (cases "curproc s = Some c \<and> H = {}")
  case True
  then show ?thesis
    using ptable_inv_leave [of s c "(procs s c)\<lparr>p_state := ZOMBIE\<rparr>"] assms
    by (simp add: tab_on_cpu tab_ptable sched_def upd_proc_def)
next
  case False
  moreover have "\<not> H \<subseteq> {PtableLock}" if "H \<noteq> {}" using that assms(3) by blast
  ultimately show ?thesis using assms by (cases "H = {}") (auto simp: tab_on_cpu sched_def)
qed

lemma on_cpu_ok: "on_cpu p ps c n \<Longrightarrow> ptable_ok ps c n"
  by (simp add: on_cpu_def)

lemma safe_exit [safe]:
  assumes "tab ptable_ok s" and "held s = H"
  shows "safe ptable_ok H (exit K s)"
  unfolding exit_def
proof (rule safe_with_proc, rule safe_if, simp)
  fix c
  assume c: "curproc s = Some c"
  note laws = on_cpu_laws [of c]
  note rules = table_laws.safe_begin_op [OF laws] table_laws.safe_iput [OF laws] table_laws.safe_end_op [OF laws]
  have on: "tab (on_cpu c) s" using assms(1) c by (simp add: tab_on_cpu)
  show "safe ptable_ok H (kbind (exit_files K c NOFILE 0 s) (\<lambda>_ s.
         kbind (begin_op s) (\<lambda>_ s.
         case p_cwd (procs s c) of
           None \<Rightarrow> null_deref
         | Some i \<Rightarrow>
             kbind (iput i s) (\<lambda>_ s.
             kbind (end_op s) (\<lambda>_ s.
             let s = upd_proc c (\<lambda>q. q\<lparr>p_cwd := None\<rparr>) s
             in kbind (lk_acquire PtableLock s) (\<lambda>_ s.
                let s = wake_proc (p_parent (procs s c)) s;
                    s = reparent c NPROC s;
                    s = upd_proc c (\<lambda>q. q\<lparr>p_state := ZOMBIE\<rparr>) s
                in sched s))))))"
    unfolding Let_def
    by (rule safe_strong [OF safe_exit_files [OF laws on assms(2)] on_cpu_ok], assumption,
      (rule safe_acquire safe_option exit_leave tab_reparent laws table_laws.tab_upd_proc [OF laws] |
       rule safe_strong [OF rules(1) on_cpu_ok] safe_strong [OF rules(2) on_cpu_ok] safe_strong [OF rules(3) on_cpu_ok] | simp)+)
qed

section \<open>wait\<close>

lemma safe_reap:
  assumes "tab (in_state i ZOMBIE) s" and "held s = insert PtableLock H" and "PtableLock \<notin> H"
  shows "safe ptable_ok H (reap kend i s)"
proof -
  have laws: "table_laws (in_state i ZOMBIE)" by (rule in_state_laws) simp_all
  have k: "tab (in_state i ZOMBIE) (upd_proc i (\<lambda>q. q\<lparr>p_kstack := 0\<rparr>) t)" if "tab (in_state i ZOMBIE) t" for t :: "'a sched_state_scheme"
    using that by (rule table_laws.tab_upd_proc [OF laws]) simp
  show ?thesis unfolding reap_def Let_def
    by (rule safe_strong [OF safe_kfree [OF assms(1,2)] in_state_ok], assumption,
      rule safe_strong [OF safe_freevm in_state_ok], erule k, simp, assumption)
      (use assms(3) in \<open>auto simp: tab_in_state insert_Diff_if intro!: safe tab_unused\<close>)
qed

lemma safe_wait [safe]:
  assumes "tab ptable_ok s" and "held s = H"
  shows "safe ptable_ok H (wait kend s)"
proof -
  have "tab (in_state i ZOMBIE) (s\<lparr>held := h\<rparr>)"
    if "scan (\<lambda>i. p_parent (procs s i) = Some c \<and> p_state (procs s i) = ZOMBIE) NPROC 0 = Some i" for c i h
    using scan_SomeD [OF that] assms(1) by (simp add: tab_in_state)
  with assms show ?thesis unfolding wait_def wait_loop_def
    by (intro safe_acquire) (rule safe safe_reap | simp)+
qed

section \<open>System calls\<close>

lemma safe_sys_procs [safe]:
  "tab ptable_ok s \<Longrightarrow> held s = H \<Longrightarrow> safe ptable_ok H (sys_fork K s)" "tab ptable_ok s \<Longrightarrow> held s = H \<Longrightarrow> safe ptable_ok H (sys_exit K s)"
  "tab ptable_ok s \<Longrightarrow> held s = H \<Longrightarrow> safe ptable_ok H (sys_wait K s)" "tab ptable_ok s \<Longrightarrow> held s = H \<Longrightarrow> safe ptable_ok H (sys_kill s)"
  unfolding sys_fork_def sys_exit_def sys_wait_def sys_kill_def by (rule safe | simp)+

lemmas safe_calls = safe_sys_procs safe_sys_quiet safe_sys_video safe_sys_pixels safe_sys_getch pt.safe_sys_dup pt.safe_sys_read
  pt.safe_sys_write pt.safe_sys_fstat pt.safe_sys_link pt.safe_sys_unlink pt.safe_sys_mkdir pt.safe_sys_mknod pt.safe_sys_close
  pt.safe_sys_open pt.safe_sys_chdir pt.safe_sys_exec pt.safe_sys_pipe pt.safe_sys_sbrk pt.safe_sys_sleep

lemma safe_table:
  assumes "syscalls K junk num = Some f" and "tab ptable_ok s" and "held s = {}" and "f s = Some m"
  shows "safe ptable_ok {} m"
  using assms(1) unfolding syscalls_def
  by (simp split: if_splits) (use assms(2-4) in \<open>auto intro: safe_calls\<close>)

lemma tab_set_tf: "tab ptable_ok s \<Longrightarrow> tab ptable_ok (set_tf p f s)"
  by (simp add: set_tf_def pt.tab_upd_proc)

lemma held_set_tf [simp]: "held (set_tf p f s) = held s" "curproc (set_tf p f s) = curproc s"
  by (simp_all add: set_tf_def)

lemma safe_syscall:
  fixes s :: "'a apic_state_scheme"
  assumes "tab ptable_ok s" and "held s = {}" and "syscall K junk s = Some m"
  shows "safe ptable_ok {} m"
proof (cases "curproc s")
  case None
  then show ?thesis using assms(3) by (auto simp: syscall_def)
next
  case (Some p)
  show ?thesis
  proof (cases "syscalls K junk (sint (tf_eax (p_tf (procs s p)))) ::
      ('a apic_state_scheme \<Rightarrow> ('a apic_state_scheme, int) kres option) option")
    case None
    then show ?thesis using assms Some
      by (auto simp: syscall_def set_eax_def Let_def intro!: safe tab_set_tf)
  next
    case f: (Some f)
    with assms(3) Some obtain r where r: "f s = Some r"
      and m: "m = kbind r (\<lambda>r s. Ret () (if curproc s = None then s else set_eax p r s))"
      by (auto simp: syscall_def Let_def)
    show ?thesis unfolding m
      by (rule safe_kbind [OF safe_table [OF f assms(1,2) r]]) (simp add: set_eax_def tab_set_tf)
  qed
qed

section \<open>Interrupts\<close>

lemma safe_fold:
  assumes "\<And>x t. tab I t \<Longrightarrow> held t = H \<Longrightarrow> safe I H (f x t)" and "safe I H m"
  shows "safe I H (fold (\<lambda>x m. kbind m (\<lambda>_. f x)) xs m)"
  using assms(2)
proof (induction xs arbitrary: m)
  case (Cons x xs)
  have "safe I H (kbind m (\<lambda>_. f x))" by (rule safe_kbind [OF Cons.prems assms(1)])
  then show ?case by (simp add: Cons.IH)
qed simp

lemma safe_procdump_pcs [safe]: "tab I s \<Longrightarrow> held s = H \<Longrightarrow> safe I H (procdump_pcs pcs s)"
  unfolding procdump_pcs_def by (rule safe_fold) (rule safe | simp)+

lemma safe_procdump_one: "tab I s \<Longrightarrow> held s = H \<Longrightarrow> safe I H (procdump_one i s)"
  unfolding procdump_one_def by (rule safe | simp)+

lemma safe_procdump [safe]: "tab I s \<Longrightarrow> held s = H \<Longrightarrow> safe I H (procdump s)"
  unfolding procdump_def by (rule safe_fold) (rule safe_procdump_one | simp)+

lemma safe_kill_line [safe]: "tab I s \<Longrightarrow> held s = H \<Longrightarrow> safe I H (kill_line n s)"
proof (induction n arbitrary: s)
  case (Suc n)
  show ?case unfolding kill_line.simps by (insert Suc.prems, (rule safe Suc.IH | simp)+)
qed simp

lemma safe_consoleintr_char: "tab ptable_ok s \<Longrightarrow> held s = H \<Longrightarrow> safe ptable_ok H (consoleintr_char c s)"
  unfolding consoleintr_char_def ipush_def by (rule safe | simp)+

lemma safe_consoleintr_loop:
  fixes s :: "'a cons_state_scheme"
  assumes getc: "\<And>u :: 'a cons_state_scheme. tab ptable_ok (snd (getc u)) = tab ptable_ok u \<and> held (snd (getc u)) = held u"
    and r: "consoleintr_loop getc d s = Some r" and ok: "tab ptable_ok s" "held s = H"
  shows "safe ptable_ok H r"
proof -
  have "getc = getc \<longrightarrow> tab ptable_ok s \<longrightarrow> held s = H \<longrightarrow> safe ptable_ok H r"
  proof (rule consoleintr_loop.raw_induct [OF _ r, where P = "\<lambda>g d s r. g = getc \<longrightarrow> tab ptable_ok s \<longrightarrow> held s = H \<longrightarrow>
      safe ptable_ok H r"], intro impI)
    fix loop g d r and s :: "'a cons_state_scheme"
    assume IH: "\<And>g d s r. loop g d s = Some r \<Longrightarrow> g = getc \<longrightarrow> tab ptable_ok s \<longrightarrow> held s = H \<longrightarrow> safe ptable_ok H r"
      and e: "(case g s of (c, s) \<Rightarrow> if c < 0 then Some (Ret d s) else case consoleintr_char c s of
          Ret d' s \<Rightarrow> loop g (d \<or> d') s | Panic e \<Rightarrow> Some (Panic e) | Sleep ch s \<Rightarrow> Some (Sleep ch s)) = Some r"
      and g: "g = getc" "tab ptable_ok s" "held s = H"
    obtain c u where u: "g s = (c, u)" by (cases "g s")
    then have ok: "tab ptable_ok u" "held u = H" using getc [of s] g by simp_all
    note ch = safe_consoleintr_char [OF ok, of c]
    show "safe ptable_ok H r"
    proof (cases "c < 0")
      case False
      with e u show ?thesis using ch IH g(1) by (cases "consoleintr_char c u") auto
    qed (use e u ok in auto)
  qed
  with ok show ?thesis by blast
qed

lemma safe_consoleintr:
  fixes s :: "'a cons_state_scheme"
  assumes "\<And>u :: 'a cons_state_scheme. tab ptable_ok (snd (getc u)) = tab ptable_ok u \<and> held (snd (getc u)) = held u"
    and "consoleintr getc s = Some m" and "tab ptable_ok s" "held s = H"
  shows "safe ptable_ok H m"
proof (cases "ConsLock \<in> held s")
  case False
  let ?s = "s\<lparr>held := insert ConsLock (held s)\<rparr>"
  from False assms(2) obtain r where r: "consoleintr_loop getc False ?s = Some r"
    and m: "m = kbind r (\<lambda>doprocdump s. kbind (lk_release ConsLock s) (\<lambda>_ s. if doprocdump then procdump s else Ret () s))"
    by (auto simp: consoleintr_def split: option.splits)
  have "safe ptable_ok (insert ConsLock H) r" using assms(3,4) by (intro safe_consoleintr_loop [OF assms(1) r]) simp_all
  then show ?thesis unfolding m using False assms(4) by - (rule safe_kbind, assumption, (rule safe | simp)+)
qed (use assms in \<open>auto simp: consoleintr_def\<close>)

lemma tab_lapiceoi [simp]: "tab I (lapiceoi s) = tab I s" "held (lapiceoi s) = held s"
  by (simp_all add: lapiceoi_def lapicw_def mload_def mstore_def tab_def)

lemma safe_eoi: "safe I H m \<Longrightarrow> safe I H (kbind m (\<lambda>_ s. Ret () (lapiceoi s)))"
  by (rule safe_kbind) simp_all

lemma safe_clock_tick: "tab ptable_ok s \<Longrightarrow> held s = H \<Longrightarrow> safe ptable_ok H (clock_tick s)"
  unfolding clock_tick_def by (rule safe_acquire | rule safe | simp)+

lemma safe_bad_trap: "tab ptable_ok s \<Longrightarrow> held s = H \<Longrightarrow> safe ptable_ok H (bad_trap cpu cr2 tf s)"
  unfolding bad_trap_def by (rule safe pt.tab_upd_proc | simp)+

lemma uartgetc_tab [simp]: "tab I (snd (uartgetc s)) = tab I s" "held (snd (uartgetc s)) = held s"
  by (simp_all add: uartgetc_def inb_def)

lemma safe_interrupt:
  assumes ok: "tab ptable_ok s" and "interrupt cpu cr2 tf s = Some m"
  shows "safe ptable_ok (held s) m"
proof -
  have k: "safe ptable_ok (held s) r" if "kbdintr s = Some r" for r
    using that unfolding kbdintr_def by (intro safe_consoleintr [of kbdgetc s]) (simp_all add: ok)
  have u: "safe ptable_ok (held s) r" if "uartintr s = Some r" for r
    using that unfolding uartintr_def by (intro safe_consoleintr [of uartgetc s]) (simp_all add: ok)
  show ?thesis using assms unfolding interrupt_def Let_def
    by (auto intro: safe_eoi k u safe_clock_tick safe_bad_trap safe_cprintf split: if_splits)
qed

lemma safe_exit_if_killed:
  "tab ptable_ok s \<Longrightarrow> held s = H \<Longrightarrow> (tab ptable_ok s \<Longrightarrow> held s = H \<Longrightarrow> safe ptable_ok H (k s)) \<Longrightarrow>
    safe ptable_ok H (exit_if_killed K tf k s)"
  unfolding exit_if_killed_def by (rule safe | simp)+

lemma safe_trap_tail: "tab ptable_ok s \<Longrightarrow> held s = {} \<Longrightarrow> safe ptable_ok {} (trap_tail K tf s)"
  unfolding trap_tail_def by (rule safe safe_exit_if_killed | simp)+


text \<open>A machine for the witness: the process of \<open>demo_user\<close> calls \<open>getpid\<close>.\<close>

definition demo_machine :: apic_state where
  "demo_machine = proc_state.extend (file_state.extend (vm_state.extend demo_user
       (file_state.fields (\<lambda>_. \<lparr>f_type = FD_NONE, f_ref = 0, f_readable = False, f_writable = False, f_pipe = 0, f_ip = 0, f_off = 0\<rparr>)))
       (proc_state.fields False))
     (apic_state.fields [] (\<lambda>_ _. 0) 0 1 (\<lambda>_. 0) 0)"

lemma demo_machine_simps [simp]:
  "held demo_machine = {}" "curproc demo_machine = Some 0" "nextpid demo_machine = 2"
  "procs demo_machine = (\<lambda>_. proc_zero)(0 := proc_zero\<lparr>p_state := RUNNING, p_pid := 1, p_sz := 16\<rparr>)"
  by (simp_all add: demo_machine_def demo_user_def cons_start_def pipe_start_def sched_start_def apic_state.defs proc_state.defs
    file_state.defs vm_state.defs fs_state.defs log_state.defs bio_state.defs cons_state.defs hw_state.defs pipe_state.defs
    sched_state.defs proc_zero_def fun_eq_iff)


end
