(* ===== verification/User.thy ===== *)
theory User
  imports Console
begin

text \<open>
  The world of a user program. A program of this repository acts only through the system calls
  that \<open>user.h\<close> declares and \<open>usys.S\<close> issues; \<open>ucall\<close> has one constructor per call. The kernel's
  side is a parameter: the list \<open>answers\<close> holds what it will return, one entry per call, as a
  return value and, for calls that fill a buffer, the bytes put there. A run therefore is a
  function of the answers, its observable part is the sequence \<open>trace\<close> of calls made, and a run
  whose answers are used up is a prefix of a longer one (\<open>UHalt\<close>). Every loop around a system call
  uses up an answer per round, which is its termination measure.

  The second half is \<open>ulib.c\<close> and \<open>printf.c\<close>, the library that every program is linked with. String
  routines on pointers work on the flat memory of \<open>Kstring\<close>; where a program only reads a string,
  it is the list of its bytes without the final NUL.
\<close>

section \<open>System calls and their answers\<close>

datatype ucall =
    Ufork | Uexit | Uwait | Upipe | Uwrite int "u8 list" | Uread int nat | Uclose int | Ukill int
  | Uexec "u8 list" "u8 list list" | Uopen "u8 list" int | Umknod "u8 list" int int
  | Uunlink "u8 list" | Ufstat int | Ulink "u8 list" "u8 list" | Umkdir "u8 list"
  | Uchdir "u8 list" | Udup int | Ugetpid | Usbrk int | Usleep int | Uuptime | Ugetch | Ugreeting
  | Uvideomodevga12 | Uvideomodevga13 | Uvideomodetext | Usetspecificpixel int int int
  | Uclearscreen13h | Uclearscreen12h

record world =
  trace :: "ucall list"
  answers :: "(int \<times> u8 list) list"

datatype 'a ures = URet 'a world | UExit world | UHalt world

definition ubind :: "'a ures \<Rightarrow> ('a \<Rightarrow> world \<Rightarrow> 'b ures) \<Rightarrow> 'b ures" where
  "ubind m f = (case m of URet a w \<Rightarrow> f a w | UExit w \<Rightarrow> UExit w | UHalt w \<Rightarrow> UHalt w)"

lemma ubind_simps [simp]:
  "ubind (URet a w) f = f a w" "ubind (UExit w) f = UExit w" "ubind (UHalt w) f = UHalt w"
  by (simp_all add: ubind_def)

lemma ubind_cong [fundef_cong]:
  "m = m' \<Longrightarrow> (\<And>a w. m' = URet a w \<Longrightarrow> f a w = g a w) \<Longrightarrow> ubind m f = ubind m' g"
  by (cases m') simp_all

lemma ubind_URet: "ubind m f = URet b w \<longleftrightarrow> (\<exists>a v. m = URet a v \<and> f a v = URet b w)"
  by (cases m) simp_all

definition ask :: "ucall \<Rightarrow> world \<Rightarrow> (int \<times> u8 list) ures" where
  "ask c w =
     (let w = w\<lparr>trace := trace w @ [c]\<rparr> in
      case answers w of [] \<Rightarrow> UHalt w | a # as \<Rightarrow> URet a (w\<lparr>answers := as\<rparr>))"

definition usys :: "ucall \<Rightarrow> world \<Rightarrow> int ures" where
  "usys c w = ubind (ask c w) (\<lambda>a. URet (fst a))"

text \<open>\<open>exit\<close> does not return.\<close>

definition uexit :: "world \<Rightarrow> 'a ures" where
  "uexit w = UExit (w\<lparr>trace := trace w @ [Uexit]\<rparr>)"

text \<open>\<open>read\<close> fails (a negative answer), or it stores at most \<open>n\<close> bytes and returns their number.\<close>

definition uread :: "int \<Rightarrow> nat \<Rightarrow> world \<Rightarrow> u8 list option ures" where
  "uread fd n w =
     ubind (ask (Uread fd n) w) (\<lambda>a. URet (if fst a < 0 then None else Some (take n (snd a))))"

text \<open>A structure that the kernel filled in, by offset.\<close>

definition at_offset :: "u8 list \<Rightarrow> bytes" where
  "at_offset bs i = (if i < length bs then bs ! i else 0)"

lemma ask_answers: "ask c w = URet a v \<Longrightarrow> length (answers v) < length (answers w)"
  by (auto simp: ask_def Let_def split: list.splits)

lemma usys_answers: "usys c w = URet r v \<Longrightarrow> length (answers v) < length (answers w)"
  by (auto simp: usys_def ubind_URet dest: ask_answers)

lemma uread_answers: "uread fd n w = URet r v \<Longrightarrow> length (answers v) < length (answers w)"
  by (auto simp: uread_def ubind_URet dest: ask_answers)

definition spends :: "world \<Rightarrow> 'a ures \<Rightarrow> bool" where
  "spends w m = (\<forall>a v. m = URet a v \<longrightarrow> length (answers v) \<le> length (answers w))"

named_theorems spends

lemma spendsD: "spends w m \<Longrightarrow> m = URet a v \<Longrightarrow> length (answers v) \<le> length (answers w)"
  by (simp add: spends_def)

lemma spends_basic [spends]: "spends w (URet a w)" "spends w (uexit v)"
  by (simp_all add: spends_def uexit_def)

lemma spends_calls [spends]: "spends w (ask c w)" "spends w (usys c w)" "spends w (uread fd n w)"
  by (auto simp: spends_def dest: ask_answers usys_answers uread_answers)

lemma spends_ubind [spends]:
  "spends w m \<Longrightarrow> (\<And>a v. m = URet a v \<Longrightarrow> spends v (f a v)) \<Longrightarrow> spends w (ubind m f)"
  unfolding spends_def ubind_URet by (blast intro: order_trans)

section \<open>\<open>printf.c\<close>\<close>

definition uputc :: "int \<Rightarrow> u8 \<Rightarrow> world \<Rightarrow> unit ures" where
  "uputc fd c w = ubind (usys (Uwrite fd [c]) w) (\<lambda>_. URet ())"

fun uputs :: "int \<Rightarrow> u8 list \<Rightarrow> world \<Rightarrow> unit ures" where
  "uputs fd [] w = URet () w"
| "uputs fd (c # cs) w = ubind (uputc fd c w) (\<lambda>_. uputs fd cs)"

definition udigits :: "nat \<Rightarrow> u8" where
  "udigits d = of_nat (if d < 10 then 48 + d else 55 + d)"

text \<open>The digits in the order in which they go into \<open>buf\<close>.\<close>

function ubuf_digits :: "nat \<Rightarrow> nat \<Rightarrow> u8 list" where
  "ubuf_digits base x =
     udigits (x mod base) #
     (if x div base = 0 \<or> base < 2 then [] else ubuf_digits base (x div base))"
  by pat_completeness auto

termination
proof (relation "measure snd")
  fix base x :: nat
  assume "\<not> (x div base = 0 \<or> base < 2)"
  then have "0 < x" "1 < base" by (auto intro: Nat.gr0I)
  then show "((base, x div base), base, x) \<in> measure snd" by simp
qed simp

declare ubuf_digits.simps [simp del]

definition uprintint_buf :: "u32 \<Rightarrow> nat \<Rightarrow> bool \<Rightarrow> u8 list" where
  "uprintint_buf xx base sign =
     (let neg = (sign \<and> sint xx < 0);
          x = (if neg then - xx else xx)
      in ubuf_digits base (unat x) @ (if neg then [45] else []))"

definition uprintint :: "int \<Rightarrow> u32 \<Rightarrow> nat \<Rightarrow> bool \<Rightarrow> world \<Rightarrow> unit ures" where
  "uprintint fd xx base sign = uputs fd (rev (uprintint_buf xx base sign))"

text \<open>The loop of \<open>printf\<close>; \<open>pct\<close> is its \<open>state\<close> (set after a percent sign), \<open>arg i\<close> the \<open>i\<close>-th
  variable argument as a word and \<open>str i\<close> the string it points to if it is used as a pointer.\<close>

fun uprintf_loop :: "int \<Rightarrow> u8 list \<Rightarrow> (nat \<Rightarrow> u32) \<Rightarrow> (nat \<Rightarrow> u8 list option) \<Rightarrow> bool \<Rightarrow> nat \<Rightarrow>
    world \<Rightarrow> unit ures" where
  "uprintf_loop fd [] arg str pct i w = URet () w"
| "uprintf_loop fd (c # cs) arg str pct i w =
     (if \<not> pct then
        (if c = 0x25 then uprintf_loop fd cs arg str True i w
         else ubind (uputc fd c w) (\<lambda>_. uprintf_loop fd cs arg str False i))
      else if c = 0x64 then
        ubind (uprintint fd (arg i) 10 True w) (\<lambda>_. uprintf_loop fd cs arg str False (Suc i))
      else if c = 0x78 \<or> c = 0x70 then
        ubind (uprintint fd (arg i) 16 False w) (\<lambda>_. uprintf_loop fd cs arg str False (Suc i))
      else if c = 0x73 then
        ubind (uputs fd (case str i of None \<Rightarrow> cstr ''(null)'' | Some t \<Rightarrow> t) w)
          (\<lambda>_. uprintf_loop fd cs arg str False (Suc i))
      else if c = 0x63 then
        ubind (uputc fd (ucast (arg i)) w) (\<lambda>_. uprintf_loop fd cs arg str False (Suc i))
      else if c = 0x25 then ubind (uputc fd c w) (\<lambda>_. uprintf_loop fd cs arg str False i)
      else ubind (uputc fd 0x25 w) (\<lambda>_ w.
           ubind (uputc fd c w) (\<lambda>_. uprintf_loop fd cs arg str False i)))"

definition uprintf :: "int \<Rightarrow> u8 list \<Rightarrow> (nat \<Rightarrow> u32) \<Rightarrow> (nat \<Rightarrow> u8 list option) \<Rightarrow> world \<Rightarrow> unit ures" where
  "uprintf fd fmt arg str w = uprintf_loop fd fmt arg str False 0 w"

text \<open>Messages without arguments, ended by a newline.\<close>

abbreviation umsg :: "int \<Rightarrow> string \<Rightarrow> world \<Rightarrow> unit ures" where
  "umsg fd t \<equiv> uprintf fd (cstr t @ [10]) (\<lambda>_. 0) (\<lambda>_. None)"

text \<open>No library routine adds answers; \<open>spends\<close> collects the rules, from which the termination of
  every loop around a system call follows.\<close>

lemma spends_uputc [spends]: "spends w (uputc fd c w)"
  unfolding uputc_def by (rule spends)+

lemma spends_uputs [spends]: "spends w (uputs fd cs w)"
  by (induction cs arbitrary: w) (auto intro!: spends)

lemma spends_uprintf_loop: "spends w (uprintf_loop fd cs arg str pct i w)"
  by (induction cs arbitrary: pct i w) (simp_all add: uprintint_def spends)

lemma spends_uprintf [spends]: "spends w (uprintf fd f arg str w)"
  unfolding uprintf_def by (rule spends_uprintf_loop)

section \<open>\<open>ulib.c\<close>\<close>

text \<open>The loops that stop only at a NUL are partial functions; the library's \<open>strlen\<close> is the
  kernel's (\<open>Kstring.strlen\<close>) on the program's memory, kept as a definition of its own.\<close>

partial_function (option) ustrcpy :: "u32 \<Rightarrow> u32 \<Rightarrow> memory \<Rightarrow> memory option" where
  "ustrcpy s t m =
     (let m' = m(s := m t) in if m t \<noteq> 0 then ustrcpy (s + 1) (t + 1) m' else Some m')"

partial_function (option) ustrcmp :: "u32 \<Rightarrow> u32 \<Rightarrow> memory \<Rightarrow> int option" where
  "ustrcmp p q m =
     (if m p \<noteq> 0 \<and> m p = m q then ustrcmp (p + 1) (q + 1) m
      else Some (uint (m p) - uint (m q)))"

partial_function (option) ustrlen_from :: "u32 \<Rightarrow> memory \<Rightarrow> nat \<Rightarrow> nat option" where
  "ustrlen_from s m n = (if m (s + of_nat n) \<noteq> 0 then ustrlen_from s m (Suc n) else Some n)"

definition ustrlen :: "u32 \<Rightarrow> memory \<Rightarrow> nat option" where
  "ustrlen s m = ustrlen_from s m 0"

definition umemset :: "u32 \<Rightarrow> u32 \<Rightarrow> u32 \<Rightarrow> memory \<Rightarrow> memory" where
  "umemset dst c n m = stosb (unat n) dst (ucast c) m"

partial_function (option) ustrchr :: "u32 \<Rightarrow> u8 \<Rightarrow> memory \<Rightarrow> u32 option" where
  "ustrchr s c m =
     (if m s = 0 then Some 0 else if m s = c then Some s else ustrchr (s + 1) c m)"

definition umemmove :: "u32 \<Rightarrow> u32 \<Rightarrow> int \<Rightarrow> memory \<Rightarrow> memory" where
  "umemmove dst src n m = copy_fwd (nat n) dst src m"

text \<open>\<open>strchr\<close> on a string that is only read: the part from the first \<open>c\<close> on.\<close>

fun strchr :: "u8 list \<Rightarrow> u8 \<Rightarrow> u8 list option" where
  "strchr [] c = None"
| "strchr (d # s) c = (if d = c then Some (d # s) else strchr s c)"

text \<open>\<open>gets\<close>, called with \<open>max = n\<close>: \<open>k = max - 1 - i\<close> places left before the final NUL.\<close>

fun gets_loop :: "nat \<Rightarrow> u8 list \<Rightarrow> world \<Rightarrow> u8 list ures" where
  "gets_loop 0 acc w = URet acc w"
| "gets_loop (Suc k) acc w = ubind (uread 0 1 w) (\<lambda>r w.
     case r of
       Some [c] \<Rightarrow> if c = 10 \<or> c = 13 then URet (acc @ [c]) w else gets_loop k (acc @ [c]) w
     | _ \<Rightarrow> URet acc w)"

definition gets :: "int \<Rightarrow> world \<Rightarrow> u8 list ures" where
  "gets n w = gets_loop (nat (n - 1)) [] w"

text \<open>\<open>stat\<close>; the bytes of the \<open>struct stat\<close> come with the answer to \<open>fstat\<close>.\<close>

definition ustat :: "u8 list \<Rightarrow> world \<Rightarrow> (int \<times> u8 list) ures" where
  "ustat n w =
     ubind (usys (Uopen n 0) w) (\<lambda>fd w.
     if fd < 0 then URet (-1, []) w
     else ubind (ask (Ufstat fd) w) (\<lambda>r w. ubind (usys (Uclose fd) w) (\<lambda>_. URet r)))"

fun atoi_loop :: "u32 \<Rightarrow> u8 list \<Rightarrow> u32" where
  "atoi_loop n [] = n"
| "atoi_loop n (c # s) = (if 48 \<le> c \<and> c \<le> 57 then atoi_loop (n * 10 + ucast c - 48) s else n)"

definition atoi :: "u8 list \<Rightarrow> int" where
  "atoi s = sint (atoi_loop 0 s)"

section \<open>Numbers printed and read back\<close>

lemma ubuf_digits_ten: "ubuf_digits 10 x = map of_nat (buf_digits 10 x)"
proof (induction "10 :: nat" x rule: ubuf_digits.induct)
  case (1 x)
  then show ?case
    by (simp add: ubuf_digits.simps [of 10 x] buf_digits.simps [of 10 x] udigits_def digit_char_def)
qed

lemma buf_digits_decimal: "c \<in> set (buf_digits 10 x) \<Longrightarrow> 48 \<le> c \<and> c \<le> 57"
proof (induction "10 :: nat" x rule: buf_digits.induct)
  case (1 x)
  have "48 \<le> digit_char (x mod 10) \<and> digit_char (x mod 10) \<le> 57" by (simp add: digit_char_def)
  with 1 show ?case by (auto simp: buf_digits.simps [of 10 x] split: if_splits)
qed

lemma atoi_loop_number:
  assumes "\<And>c. c \<in> set ds \<Longrightarrow> 48 \<le> c \<and> c \<le> 57"
  shows "atoi_loop (of_nat n) (map of_nat ds @ rest) =
    atoi_loop (of_nat (foldl (\<lambda>a c. a * 10 + digit_val c) n ds)) rest"
  using assms
proof (induction ds arbitrary: n)
  case (Cons c ds)
  then have c: "48 \<le> c" "c \<le> 57" by auto
  then have "(48 :: u8) \<le> of_nat c \<and> (of_nat c :: u8) \<le> 57"
    by (simp add: word_le_nat_alt unat_of_nat)
  moreover from c have "ucast (of_nat c :: u8) = (of_nat c :: u32)"
    by (simp add: unsigned_of_nat take_bit_nat_eq_self)
  moreover from c have "of_nat n * 10 + of_nat c - 48 = (of_nat (n * 10 + digit_val c) :: u32)"
    by (simp add: digit_val_def of_nat_diff)
  moreover have "atoi_loop (of_nat (n * 10 + digit_val c)) (map of_nat ds @ rest) =
      atoi_loop (of_nat (foldl (\<lambda>a c. a * 10 + digit_val c) (n * 10 + digit_val c) ds)) rest"
    using Cons.prems by (intro Cons.IH) auto
  ultimately show ?case by (simp only: list.map append_Cons atoi_loop.simps foldl.simps if_True simp_thms)
qed simp

text \<open>Where \<open>kill\<close> and the other programs read a number with \<open>atoi\<close>, they read back what
  \<open>printf\<close> printed: for every non-negative \<open>int\<close>, \<open>%d\<close> followed by anything that is not a digit gives
  a string whose \<open>atoi\<close> is that number.\<close>

theorem atoi_printint:
  assumes "sint x \<ge> 0" and "rest = [] \<or> hd rest < 48 \<or> 57 < hd rest"
  shows "atoi (rev (uprintint_buf x 10 True) @ rest) = sint x"
proof -
  have "atoi_loop n rest = n" for n
    using assms(2) by (cases rest) (auto simp: not_le)
  moreover have "rev (uprintint_buf x 10 True) = map of_nat (rev (buf_digits 10 (unat x)))"
    using assms(1) by (simp add: uprintint_buf_def ubuf_digits_ten rev_map)
  moreover have "foldl (\<lambda>a c. a * 10 + digit_val c) 0 (rev (buf_digits 10 (unat x))) = unat x"
    using buf_digits_number [of 10 "unat x"] by (simp add: number_def)
  ultimately show ?thesis
    using atoi_loop_number [of "rev (buf_digits 10 (unat x))" 0 rest] buf_digits_decimal
    by (simp add: atoi_def)
qed

theorem atoi_printint_witness:
  "sint (1983 :: u32) \<ge> 0 \<and> ([0x20] = [] \<or> hd [0x20 :: u8] < 48 \<or> 57 < hd [0x20 :: u8]) \<and>
    atoi (rev (uprintint_buf 1983 10 True) @ [0x20]) = 1983"
  using atoi_printint [of 1983 "[0x20]"] by simp

end
