(* ===== verification/Grep.thy ===== *)
theory Grep
  imports User
begin

text \<open>
  \<open>grep.c\<close>: the pattern matcher of Kernighan and Pike with its two mutually recursive functions,
  the loop that cuts the input into lines, and the program around it. A pattern and a text are
  lists of bytes without their final NUL. The reference is the usual reading of such a pattern: a
  sequence of atoms, each taken once or any number of times, with optional anchors; \<open>match_correct\<close>
  shows that the matcher decides exactly whether the pattern occurs in the text.
\<close>

section \<open>The matcher\<close>

function matchhere :: "u8 list \<Rightarrow> u8 list \<Rightarrow> bool"
  and matchstar :: "u8 \<Rightarrow> u8 list \<Rightarrow> u8 list \<Rightarrow> bool" where
  "matchhere re text =
     (case re of
        [] \<Rightarrow> True
      | c # re' \<Rightarrow>
          if re' \<noteq> [] \<and> hd re' = 0x2a then matchstar c (tl re') text
          else if c = 0x24 \<and> re' = [] then text = []
          else if text \<noteq> [] \<and> (c = 0x2e \<or> c = hd text) then matchhere re' (tl text)
          else False)"
| "matchstar c re text =
     (if matchhere re text then True
      else if text \<noteq> [] \<and> (hd text = c \<or> c = 0x2e) then matchstar c re (tl text)
      else False)"
  by pat_completeness auto

termination
  by (relation "inv_image (less_than <*lex*> less_than <*lex*> less_than)
      (\<lambda>x. case x of Inl (re, t) \<Rightarrow> (length re, length t, 0) | Inr (c, re, t) \<Rightarrow> (length re, length t, 1))")
    (auto simp: neq_Nil_conv)

declare matchhere.simps [simp del] matchstar.simps [simp del]

fun match_scan :: "u8 list \<Rightarrow> u8 list \<Rightarrow> bool" where
  "match_scan re [] = matchhere re []"
| "match_scan re (t # text) = (matchhere re (t # text) \<or> match_scan re text)"

definition match :: "u8 list \<Rightarrow> u8 list \<Rightarrow> bool" where
  "match re text =
     (if re \<noteq> [] \<and> hd re = 0x5e then matchhere (tl re) text else match_scan re text)"

section \<open>The program\<close>

lemma strchr_takeWhile: "strchr (takeWhile P p) c = Some q \<Longrightarrow> p \<noteq> []"
  by auto

text \<open>The inner loop of \<open>grep\<close>: \<open>p\<close> is the part of the buffer from the pointer \<open>p\<close> on. \<open>strchr\<close>
  looks for the newline before the first NUL. The result is what is left when no newline is found.\<close>

function grep_lines :: "u8 list \<Rightarrow> u8 list \<Rightarrow> world \<Rightarrow> u8 list ures" where
  "grep_lines pattern p w =
     (case strchr (takeWhile (\<lambda>c. c \<noteq> 0) p) 10 of
        None \<Rightarrow> URet p w
      | Some q \<Rightarrow>
          let line = takeWhile (\<lambda>c. c \<noteq> 10) p; rest = drop (Suc (length line)) p in
          if match pattern line
          then ubind (usys (Uwrite 1 (line @ [10])) w) (\<lambda>_. grep_lines pattern rest)
          else grep_lines pattern rest w)"
  by pat_completeness auto

termination
  by (relation "measure (\<lambda>(pat, p, w). length p)") (auto dest: strchr_takeWhile)

declare grep_lines.simps [simp del]

lemma spends_grep_lines [spends]: "spends w (grep_lines pattern p w)"
proof (induction pattern p w rule: grep_lines.induct)
  case (1 pattern p w)
  then show ?case
    by (subst grep_lines.simps) (auto simp: Let_def split: option.split intro!: spends)
qed

text \<open>The outer loop; \<open>rest\<close> is \<open>buf[0..m)\<close>.\<close>

function grep :: "u8 list \<Rightarrow> int \<Rightarrow> u8 list \<Rightarrow> world \<Rightarrow> unit ures" where
  "grep pattern fd rest w =
     ubind (uread fd (1024 - length rest - 1) w) (\<lambda>r w.
     case r of
       None \<Rightarrow> URet () w
     | Some bs \<Rightarrow>
         if bs = [] then URet () w
         else ubind (grep_lines pattern (rest @ bs) w) (\<lambda>p w.
              grep pattern fd (if length p = length (rest @ bs) then [] else p) w))"
  by pat_completeness auto

termination
  by (relation "measure (\<lambda>(pat, fd, rest, w). length (answers w))")
    (auto dest!: uread_answers spendsD [OF spends_grep_lines])

declare grep.simps [simp del]

fun grep_files :: "u8 list \<Rightarrow> u8 list list \<Rightarrow> world \<Rightarrow> unit ures" where
  "grep_files pattern [] w = uexit w"
| "grep_files pattern (a # as) w =
     ubind (usys (Uopen a 0) w) (\<lambda>fd w.
     if fd < 0 then
       ubind (uprintf 1 (cstr ''grep: cannot open %s'' @ [10]) (\<lambda>_. 0) (\<lambda>_. Some a) w) (\<lambda>_. uexit)
     else ubind (grep pattern fd [] w) (\<lambda>_ w.
          ubind (usys (Uclose fd) w) (\<lambda>_. grep_files pattern as)))"

definition grep_main :: "u8 list list \<Rightarrow> world \<Rightarrow> unit ures" where
  "grep_main argv w =
     (if length argv \<le> 1 then ubind (umsg 2 ''usage: grep pattern [file ...]'' w) (\<lambda>_. uexit)
      else if length argv \<le> 2 then ubind (grep (argv ! 1) 0 [] w) (\<lambda>_. uexit)
      else grep_files (argv ! 1) (drop 2 argv) w)"

section \<open>What a pattern means\<close>

datatype atom = Any | Chr u8

fun accepts :: "atom \<Rightarrow> u8 \<Rightarrow> bool" where
  "accepts Any x = True"
| "accepts (Chr c) x = (x = c)"

definition atom :: "u8 \<Rightarrow> atom" where
  "atom c = (if c = 0x2e then Any else Chr c)"

text \<open>The items of a pattern, each an atom and whether it is starred, and whether a dollar sign
  ends it.\<close>

fun items :: "u8 list \<Rightarrow> (atom \<times> bool) list \<times> bool" where
  "items [] = ([], False)"
| "items [c] = (if c = 0x24 then ([], True) else ([(atom c, False)], False))"
| "items (c # d # re) =
     (if d = 0x2a then apfst ((#) (atom c, True)) (items re)
      else apfst ((#) (atom c, False)) (items (d # re)))"

fun lang :: "(atom \<times> bool) list \<Rightarrow> u8 list set" where
  "lang [] = {[]}"
| "lang ((a, star) # its) =
     {xs @ ys | xs ys. list_all (accepts a) xs \<and> (star \<or> length xs = 1) \<and> ys \<in> lang its}"

text \<open>The pattern occurs in the text: a part of the text is in the pattern's language, at the start
  if the pattern starts with a caret and at the end if it ends with a dollar sign.\<close>

definition occurs_here :: "(atom \<times> bool) list \<Rightarrow> bool \<Rightarrow> u8 list \<Rightarrow> bool" where
  "occurs_here its e text = (\<exists>mid post. text = mid @ post \<and> mid \<in> lang its \<and> (e \<longrightarrow> post = []))"

definition occurs :: "u8 list \<Rightarrow> u8 list \<Rightarrow> bool" where
  "occurs re text =
     (let caret = (re \<noteq> [] \<and> hd re = 0x5e); (its, e) = items (if caret then tl re else re) in
      \<exists>pre rest. text = pre @ rest \<and> (caret \<longrightarrow> pre = []) \<and> occurs_here its e rest)"

lemma here_Nil: "occurs_here [] e text \<longleftrightarrow> (e \<longrightarrow> text = [])"
  by (auto simp: occurs_here_def)

lemma here_once:
  "occurs_here ((a, False) # its) e text \<longleftrightarrow>
    text \<noteq> [] \<and> accepts a (hd text) \<and> occurs_here its e (tl text)"
proof (cases "text")
  case (Cons x t)
  show ?thesis
  proof
    assume "occurs_here ((a, False) # its) e text"
    then obtain xs ys post where "x # t = (xs @ ys) @ post" "list_all (accepts a) xs" "length xs = 1"
      "ys \<in> lang its" "e \<longrightarrow> post = []"
      unfolding occurs_here_def Cons lang.simps by blast
    then show "text \<noteq> [] \<and> accepts a (hd text) \<and> occurs_here its e (tl text)"
      unfolding occurs_here_def Cons by (cases xs) auto
  next
    assume "text \<noteq> [] \<and> accepts a (hd text) \<and> occurs_here its e (tl text)"
    then obtain ys post where "t = ys @ post" "ys \<in> lang its" "e \<longrightarrow> post = []" "accepts a x"
      unfolding occurs_here_def Cons list.sel by blast
    moreover from this have "list_all (accepts a) [x] \<and> length [x] = 1" by simp
    then have "[x] @ ys \<in> lang ((a, False) # its)"
      using \<open>ys \<in> lang its\<close> unfolding lang.simps by blast
    moreover have "text = ([x] @ ys) @ post" by (simp add: Cons \<open>t = ys @ post\<close>)
    ultimately show "occurs_here ((a, False) # its) e text" unfolding occurs_here_def by blast
  qed
qed (auto simp: occurs_here_def)

lemma here_star:
  "occurs_here ((a, True) # its) e text \<longleftrightarrow>
    occurs_here its e text \<or>
    text \<noteq> [] \<and> accepts a (hd text) \<and> occurs_here ((a, True) # its) e (tl text)"
proof
  assume "occurs_here ((a, True) # its) e text"
  then obtain xs ys post where t: "text = (xs @ ys) @ post" "list_all (accepts a) xs" "ys \<in> lang its"
    "e \<longrightarrow> post = []"
    unfolding occurs_here_def lang.simps by blast
  show "occurs_here its e text \<or>
      text \<noteq> [] \<and> accepts a (hd text) \<and> occurs_here ((a, True) # its) e (tl text)"
  proof (cases xs)
    case Nil
    with t show ?thesis unfolding occurs_here_def by fastforce
  next
    case (Cons x xs')
    with t have "tl text = (xs' @ ys) @ post" "xs' @ ys \<in> lang ((a, True) # its)" by auto
    with t(4) have "occurs_here ((a, True) # its) e (tl text)" unfolding occurs_here_def by blast
    with Cons t show ?thesis by simp
  qed
next
  assume r: "occurs_here its e text \<or>
    text \<noteq> [] \<and> accepts a (hd text) \<and> occurs_here ((a, True) # its) e (tl text)"
  have "\<exists>xs ys post. text = (xs @ ys) @ post \<and> list_all (accepts a) xs \<and> ys \<in> lang its \<and>
      (e \<longrightarrow> post = [])"
    using r
  proof
    assume "occurs_here its e text"
    then obtain ys post where "text = ([] @ ys) @ post" "ys \<in> lang its" "e \<longrightarrow> post = []"
      unfolding occurs_here_def append_Nil by blast
    moreover have "list_all (accepts a) []" by simp
    ultimately show ?thesis by blast
  next
    assume s: "text \<noteq> [] \<and> accepts a (hd text) \<and> occurs_here ((a, True) # its) e (tl text)"
    then obtain xs ys post where "tl text = (xs @ ys) @ post" "list_all (accepts a) xs"
      "ys \<in> lang its" "e \<longrightarrow> post = []"
      unfolding occurs_here_def lang.simps by blast
    moreover from this s have "text = ((hd text # xs) @ ys) @ post" "list_all (accepts a) (hd text # xs)"
      by (auto simp: neq_Nil_conv)
    ultimately show ?thesis by blast
  qed
  then show "occurs_here ((a, True) # its) e text"
    unfolding occurs_here_def lang.simps by blast
qed

lemma accepts_atom: "accepts (atom c) x \<longleftrightarrow> c = 0x2e \<or> x = c"
  by (auto simp: atom_def)

lemma matcher_occurs:
  "matchhere re text = occurs_here (fst (items re)) (snd (items re)) text"
  "matchstar c re text = occurs_here ((atom c, True) # fst (items re)) (snd (items re)) text"
proof (induction re "text" and c re "text" rule: matchhere_matchstar.induct)
  case (1 re t)
  show ?case
  proof (cases re rule: items.cases)
    case (2 c)
    with 1 show ?thesis
      by (subst matchhere.simps) (auto simp: here_once here_Nil accepts_atom)
  next
    case (3 c d re')
    with 1 show ?thesis
      by (subst matchhere.simps) (auto simp: here_once accepts_atom)
  qed (simp add: matchhere.simps here_Nil)
next
  case (2 c re t)
  then show ?case
    by (subst matchstar.simps, subst here_star) (auto simp: accepts_atom)
qed

lemma match_scan_occurs:
  "match_scan re text \<longleftrightarrow>
    (\<exists>pre rest. text = pre @ rest \<and> occurs_here (fst (items re)) (snd (items re)) rest)"
proof (induction "text")
  case (Cons t ts)
  have "(\<exists>pre rest. t # ts = pre @ rest \<and> P rest) \<longleftrightarrow>
      P (t # ts) \<or> (\<exists>pre rest. ts = pre @ rest \<and> P rest)" for P
    by (auto simp: Cons_eq_append_conv)
  with Cons show ?case by (simp add: matcher_occurs)
qed (simp add: matcher_occurs)

text \<open>C14: The pattern matcher of \<open>grep\<close> is correct: \<open>match\<close> answers yes exactly when the pattern,
  read as a sequence of single and starred characters with optional anchors, occurs in the text.\<close>

theorem match_correct: "match re text = occurs re text"
  by (simp add: match_def occurs_def match_scan_occurs matcher_occurs case_prod_beta Let_def)

section \<open>The lines that \<open>grep\<close> prints\<close>

definition text_line :: "u8 list \<Rightarrow> bool" where
  "text_line l = (0 \<notin> set l \<and> 10 \<notin> set l)"

definition unlines :: "u8 list list \<Rightarrow> u8 list" where
  "unlines ls = concat (map (\<lambda>l. l @ [10]) ls)"

lemma strchr_Some: "c \<in> set s \<Longrightarrow> \<exists>q. strchr s c = Some q"
  by (induction s) auto

lemma takeWhile_line: "text_line l \<Longrightarrow> takeWhile (\<lambda>c. c \<noteq> 10) (l @ 10 # r) = l"
  by (subst takeWhile_append2) (auto simp: text_line_def)

lemma grep_lines_one:
  assumes "text_line l"
  shows "grep_lines pattern (l @ 10 # r) w =
    (if match pattern l then ubind (usys (Uwrite 1 (l @ [10])) w) (\<lambda>_. grep_lines pattern r)
     else grep_lines pattern r w)"
proof -
  have "takeWhile (\<lambda>c. c \<noteq> 0) (l @ 10 # r) = l @ 10 # takeWhile (\<lambda>c. c \<noteq> 0) r"
    using assms by (subst takeWhile_append2) (auto simp: text_line_def)
  then obtain q where "strchr (takeWhile (\<lambda>c. c \<noteq> 0) (l @ 10 # r)) 10 = Some q"
    using strchr_Some [of 10 "l @ 10 # takeWhile (\<lambda>c. c \<noteq> 0) r"] by auto
  then show ?thesis
    using takeWhile_line [OF assms, of r] by (subst grep_lines.simps) (simp add: Let_def)
qed

lemma grep_lines_all:
  assumes "list_all text_line ls"
  shows "grep_lines pattern (unlines ls)
      \<lparr>trace = t, answers = map (\<lambda>l. (0, [])) (filter (match pattern) ls) @ as\<rparr> =
    URet [] \<lparr>trace = t @ map (\<lambda>l. Uwrite 1 (l @ [10])) (filter (match pattern) ls), answers = as\<rparr>"
  using assms
proof (induction ls arbitrary: t)
  case Nil
  show ?case by (subst grep_lines.simps) (simp add: unlines_def)
next
  case (Cons l ls)
  then show ?case
    using grep_lines_one [of l pattern "unlines ls"]
    by (simp add: unlines_def usys_def ask_def)
qed

text \<open>The answers to a run of \<open>grep\<close> that reads the blocks of lines \<open>bs\<close>, and its calls.\<close>

definition grep_answers :: "u8 list \<Rightarrow> u8 list list list \<Rightarrow> (int \<times> u8 list) list" where
  "grep_answers pattern bs =
     concat (map (\<lambda>ls. (0, unlines ls) # map (\<lambda>l. (0, [])) (filter (match pattern) ls)) bs)"

definition grep_calls :: "u8 list \<Rightarrow> int \<Rightarrow> u8 list list list \<Rightarrow> ucall list" where
  "grep_calls pattern fd bs =
     concat (map (\<lambda>ls. Uread fd 1023 # map (\<lambda>l. Uwrite 1 (l @ [10])) (filter (match pattern) ls)) bs)"

text \<open>C27: When every \<open>read\<close> hands over whole lines, \<open>grep\<close> reads to the end of the file and
  writes exactly the lines in which the pattern occurs, each once, whole and in their order.\<close>

theorem grep_prints_matches:
  assumes "list_all (\<lambda>ls. ls \<noteq> [] \<and> list_all text_line ls \<and> length (unlines ls) \<le> 1023) bs"
  shows "grep pattern fd [] \<lparr>trace = t, answers = grep_answers pattern bs @ (0, []) # as\<rparr> =
    URet () \<lparr>trace = t @ grep_calls pattern fd bs @ [Uread fd 1023], answers = as\<rparr>"
  using assms
proof (induction bs arbitrary: t)
  case Nil
  show ?case
    by (subst grep.simps) (simp add: grep_answers_def grep_calls_def uread_def ask_def)
next
  case (Cons ls bs)
  let ?rest = "grep_answers pattern bs @ (0, []) # as"
  from Cons.prems have ls: "list_all text_line ls" "length (unlines ls) \<le> 1023" "unlines ls \<noteq> []"
    by (auto simp: unlines_def neq_Nil_conv)
  have "grep_lines pattern (unlines ls) \<lparr>trace = t @ [Uread fd 1023],
      answers = map (\<lambda>l. (0, [])) (filter (match pattern) ls) @ ?rest\<rparr> =
    URet [] \<lparr>trace = (t @ [Uread fd 1023]) @ map (\<lambda>l. Uwrite 1 (l @ [10])) (filter (match pattern) ls),
      answers = ?rest\<rparr>"
    by (rule grep_lines_all [OF ls(1)])
  with ls Cons show ?case
    by (subst grep.simps) (simp add: grep_answers_def grep_calls_def uread_def ask_def)
qed

definition demo_lines :: "u8 list list list" where
  "demo_lines = [[cstr ''hello'', cstr ''world''], [cstr ''yellow'']]"

theorem grep_prints_matches_witness:
  "list_all (\<lambda>ls. ls \<noteq> [] \<and> list_all text_line ls \<and> length (unlines ls) \<le> 1023) demo_lines \<and>
    grep (cstr ''el*o$'') 3 []
      \<lparr>trace = [], answers = grep_answers (cstr ''el*o$'') demo_lines @ [(0, [])]\<rparr> =
    URet () \<lparr>trace = [Uread 3 1023, Uwrite 1 (cstr ''hello'' @ [10]), Uread 3 1023, Uread 3 1023],
      answers = []\<rparr>"
proof -
  have h: "list_all (\<lambda>ls. ls \<noteq> [] \<and> list_all text_line ls \<and> length (unlines ls) \<le> 1023) demo_lines"
    by (simp add: demo_lines_def text_line_def unlines_def cstr_def)
  have "grep_calls (cstr ''el*o$'') 3 demo_lines =
      [Uread 3 1023, Uwrite 1 (cstr ''hello'' @ [10]), Uread 3 1023]"
    by code_simp
  with h grep_prints_matches [OF h, of "cstr ''el*o$''" 3 "[]" "[]"] show ?thesis by simp
qed

end
