(* ===== verification/Draw.thy ===== *)
theory Draw
  imports User "HOL-Library.Signed_Division"
begin

text \<open>
  The drawing programs: \<open>draw.c\<close>, \<open>cutinto4.c\<close> and \<open>cutinto8.c\<close> with the line drawing routine that
  each of them carries. C's \<open>int\<close> and \<open>long\<close> are 32 bits wide; \<open>i32\<close> is the wrap-around of an
  assignment to them. The loop of \<open>DrawLine\<close> has no bound, so it is a partial function; \<open>DrawLine_ends\<close>
  shows that it reaches its end point. The programs ignore what their system calls return, so a
  program is the sequence of its calls, or \<open>None\<close> if a line never ended.
\<close>

section \<open>Definitions\<close>

definition i32 :: "int \<Rightarrow> int" where
  "i32 x = signed_take_bit 31 x"

definition abs_long :: "int \<Rightarrow> int" where
  "abs_long v = (if v < 0 then i32 (0 - v) else v)"

text \<open>The loop of \<open>DrawLine\<close>; the result lists the pixels that it sets.\<close>

partial_function (option) DrawLine_loop ::
  "int \<Rightarrow> int \<Rightarrow> int \<Rightarrow> int \<Rightarrow> int \<Rightarrow> int \<Rightarrow> int \<Rightarrow> int \<Rightarrow> int \<Rightarrow> (int \<times> int) list option" where
  "DrawLine_loop dx sx dy sy x1 y1 x0 y0 err =
     (if x0 = x1 \<and> y0 = y1 then Some [(x0, y0)]
      else
        let e2 = err;
            (err, y) = (if e2 < dy then (i32 (err + dx), i32 (y0 + sy)) else (err, y0));
            (err, x) = (if e2 > i32 (- dx) then (i32 (err - dy), i32 (x0 + sx)) else (err, x0))
        in Option.bind (DrawLine_loop dx sx dy sy x1 y1 x y err) (\<lambda>ps. Some ((x0, y0) # ps)))"

definition DrawLine :: "int \<Rightarrow> int \<Rightarrow> int \<Rightarrow> int \<Rightarrow> (int \<times> int) list option" where
  "DrawLine x0 y0 x1 y1 =
     (let dx = abs_long (i32 (x1 - x0)); sx = (if x0 < x1 then 1 else -1);
          dy = abs_long (i32 (y1 - y0)); sy = (if y0 < y1 then 1 else -1);
          err = (if dx > dy then dx else i32 (- dy)) sdiv 2
      in DrawLine_loop dx sx dy sy x1 y1 x0 y0 err)"

definition line_calls :: "int \<Rightarrow> int \<Rightarrow> int \<Rightarrow> int \<Rightarrow> int \<Rightarrow> ucall list option" where
  "line_calls x0 y0 x1 y1 c = map_option (map (\<lambda>(x, y). Usetspecificpixel x y c)) (DrawLine x0 y0 x1 y1)"

text \<open>\<open>printf\<close> of a constant: one \<open>write\<close> per byte.\<close>

definition say :: "string \<Rightarrow> ucall list" where
  "say t = map (\<lambda>c. Uwrite 1 [c]) (cstr t @ [10])"

fun sequence :: "ucall list option list \<Rightarrow> ucall list option" where
  "sequence [] = Some []"
| "sequence (None # ms) = None"
| "sequence (Some cs # ms) = map_option ((@) cs) (sequence ms)"

definition draw_main :: "ucall list" where
  "draw_main = [Uvideomodevga13, Ugetch, Uvideomodevga12, Ugetch, Uvideomodetext, Uexit]"

definition cutinto4_main :: "ucall list option" where
  "cutinto4_main = sequence
     [Some (say ''Press ENTER to start 12h'' @ [Ugetch, Uvideomodevga12, Uclearscreen12h]),
      line_calls (640 div 2) 0 (640 div 2) 480 20,
      line_calls 0 (480 div 2) 640 (480 div 2) 20,
      Some ([Ugetch, Uvideomodetext] @ say ''Press ENTER to start 13h'' @
        [Ugetch, Uvideomodevga13, Uclearscreen13h]),
      line_calls (320 div 2) 0 (320 div 2) 200 20,
      line_calls 0 (200 div 2) 320 (200 div 2) 20,
      Some ([Ugetch, Uvideomodetext] @ say ''Cut into 4 finished!'' @ [Uexit])]"

definition cutinto8_main :: "ucall list option" where
  "cutinto8_main = sequence
     [Some (say ''Press ENTER to start 12h'' @ [Ugetch, Uvideomodevga12, Uclearscreen12h]),
      line_calls (640 div 2) 0 (640 div 2) 480 20,
      line_calls 0 0 640 480 20,
      line_calls 0 480 640 0 20,
      line_calls 0 (480 div 2) 640 (480 div 2) 20,
      Some ([Ugetch, Uvideomodetext] @ say ''Press ENTER to start 13h'' @
        [Ugetch, Uvideomodevga13, Uclearscreen13h]),
      line_calls (320 div 2) 0 (320 div 2) 480 20,
      line_calls 0 0 320 200 20,
      line_calls 0 200 320 0 20,
      line_calls 0 (200 div 2) 640 (200 div 2) 20,
      Some ([Ugetch, Uvideomodetext] @ say ''Cut into 8 finished!'' @ [Uexit])]"

section \<open>Lines\<close>

definition adjacent :: "int \<times> int \<Rightarrow> int \<times> int \<Rightarrow> bool" where
  "adjacent p q = (p \<noteq> q \<and> \<bar>fst p - fst q\<bar> \<le> 1 \<and> \<bar>snd p - snd q\<bar> \<le> 1)"

definition between :: "int \<Rightarrow> int \<Rightarrow> int \<Rightarrow> bool" where
  "between a b x = (min a b \<le> x \<and> x \<le> max a b)"

text \<open>A line of \<open>n + 1\<close> pixels from one point to another: each pixel touches the next, and none lies
  outside the rectangle that the end points span.\<close>

definition line :: "int \<Rightarrow> int \<Rightarrow> int \<Rightarrow> int \<Rightarrow> nat \<Rightarrow> (int \<times> int) list \<Rightarrow> bool" where
  "line x y x1 y1 n ps =
     (length ps = Suc n \<and> hd ps = (x, y) \<and> last ps = (x1, y1) \<and> successively adjacent ps \<and>
      list_all (\<lambda>p. between x x1 (fst p) \<and> between y y1 (snd p)) ps)"

lemma i32_id: "- 2147483648 \<le> x \<Longrightarrow> x < 2147483648 \<Longrightarrow> i32 x = x"
  by (simp add: i32_def signed_take_bit_int_eq_self)

lemma line_single: "line x y x y 0 [(x, y)]"
  by (simp add: line_def between_def)

lemma line_step:
  assumes "line x' y' x1 y1 n ps" and "adjacent (x, y) (x', y')"
    and "between x x1 x'" and "between y y1 y'"
  shows "line x y x1 y1 (Suc n) ((x, y) # ps)"
proof -
  from assms(1) have ps: "ps \<noteq> []" "hd ps = (x', y')" by (auto simp: line_def)
  have "between x x1 a" if "between x' x1 a" for a
    using that assms(3) by (auto simp: between_def)
  moreover have "between y y1 a" if "between y' y1 a" for a
    using that assms(4) by (auto simp: between_def)
  ultimately have "list_all (\<lambda>p. between x x1 (fst p) \<and> between y y1 (snd p)) ps"
    using assms(1) by (auto simp: line_def list_all_iff)
  with assms(1,2) ps show ?thesis
    by (auto simp: line_def successively_Cons between_def)
qed

text \<open>One round of the loop when no value leaves 32 bits.\<close>

definition small :: "int \<Rightarrow> bool" where
  "small x = (\<bar>x\<bar> \<le> 1073741824)"

lemma loop_step:
  assumes "\<not> (x = x1 \<and> y = y1)" "small x" "small y" "small err" "small dx" "small dy"
    and "\<bar>sx\<bar> = 1" "\<bar>sy\<bar> = 1" "0 \<le> dx" "0 \<le> dy" "err < dy \<longrightarrow> err + dx < 2147483648"
  shows "DrawLine_loop dx sx dy sy x1 y1 x y err =
    Option.bind (DrawLine_loop dx sx dy sy x1 y1
      (if err > - dx then x + sx else x) (if err < dy then y + sy else y)
      (err + (if err < dy then dx else 0) - (if err > - dx then dy else 0))) (\<lambda>ps. Some ((x, y) # ps))"
proof -
  have "i32 (- dx) = - dx" "i32 (x + sx) = x + sx" "i32 (y + sy) = y + sy"
    "i32 (err - dy) = err - dy"
    "err < dy \<Longrightarrow> i32 (err + dx) = err + dx" "err < dy \<Longrightarrow> i32 (err + dx - dy) = err + dx - dy"
    using assms by (auto simp: small_def intro!: i32_id)
  with assms(1) show ?thesis
    by (subst DrawLine_loop.simps) (auto simp: Let_def)
qed

text \<open>The invariants: with \<open>X\<close> and \<open>Y\<close> the distances still to go, the error is \<open>E + X dy - Y dx\<close>
  and stays in a window of the longer side's width; so the longer side advances in every round, and
  both distances reach 0 together.\<close>

definition spans :: "int \<Rightarrow> int \<Rightarrow> int \<Rightarrow> int \<Rightarrow> int \<Rightarrow> bool" where
  "spans s d X a b = (\<bar>s\<bar> = 1 \<and> b - a = s * X \<and> 0 \<le> X \<and> X \<le> d \<and> small a \<and> small b)"

lemma spans_step:
  assumes "spans s d X a b" and "0 < X"
  shows "spans s d (X - 1) (a + s) b \<and> between a b (a + s)"
proof -
  from assms have "s = 1 \<or> s = -1" by (auto simp: spans_def)
  then show ?thesis using assms by (auto simp: spans_def between_def small_def)
qed

lemma between_refl: "between a b a"
  by (simp add: between_def)

lemma loop_wide:
  assumes "spans sx dx X x x1" "spans sy dy Y y y1" "dy < dx" "0 \<le> dy" "small dx"
    and "0 \<le> err" "err < dx" "err = E + X * dy - Y * dx" "0 \<le> E" "E < dx"
  shows "\<exists>ps. DrawLine_loop dx sx dy sy x1 y1 x y err = Some ps \<and> line x y x1 y1 (nat X) ps"
  using assms(1,2,6-8)
proof (induction "nat X" arbitrary: X Y x y err)
  case 0
  then have "X = 0" by (simp add: spans_def)
  then have "Y * dx < 1 * dx" using 0(4,6) assms(10) by simp
  then have "Y < 1" using assms(3,4) by (simp add: mult_less_cancel_right)
  then have "Y = 0" using 0(3) by (simp add: spans_def)
  with \<open>X = 0\<close> 0 have "x = x1" "y = y1" by (auto simp: spans_def)
  then show ?case
    using line_single [of x y] \<open>X = 0\<close> by (simp add: DrawLine_loop.simps)
next
  case (Suc n)
  then have X: "0 < X" "nat (X - 1) = n" by auto
  have Y: "0 < Y" if "err < dy"
  proof (rule ccontr)
    assume "\<not> 0 < Y"
    with Suc.prems(2) have "Y = 0" by (simp add: spans_def)
    moreover have "1 * dy \<le> X * dy" using X assms(4) by (intro mult_right_mono) auto
    ultimately show False using that Suc.prems(5) assms(9) by simp
  qed
  let ?Y = "if err < dy then Y - 1 else Y" and ?y = "if err < dy then y + sy else y"
  let ?err = "err + (if err < dy then dx else 0) - dy"
  have y: "spans sy dy ?Y ?y y1" "between y y1 ?y" "\<bar>y - ?y\<bar> \<le> 1"
    using Suc.prems(2) Y spans_step [of sy dy Y y y1] between_refl by (auto simp: spans_def)
  have x: "spans sx dx (X - 1) (x + sx) x1" "between x x1 (x + sx)"
    using spans_step [OF Suc.prems(1) X(1)] by auto
  have "?err = E + (X - 1) * dy - ?Y * dx" "0 \<le> ?err" "?err < dx"
    using Suc.prems assms(3,4) by (auto simp: algebra_simps)
  from Suc.hyps(1) [OF _ x(1) y(1) this(2,3,1)] X
  obtain ps where ps: "DrawLine_loop dx sx dy sy x1 y1 (x + sx) ?y ?err = Some ps"
    "line (x + sx) ?y x1 y1 n ps" by auto
  have "x \<noteq> x1" using Suc.prems(1) X by (auto simp: spans_def)
  then have "DrawLine_loop dx sx dy sy x1 y1 x y err = Some ((x, y) # ps)"
    using loop_step [of x x1 y y1 err dx dy sx sy] ps(1) Suc.prems assms(3,4,5)
    by (auto simp: spans_def small_def)
  moreover have "adjacent (x, y) (x + sx, ?y)"
    using y(3) Suc.prems(1) by (auto simp: adjacent_def spans_def)
  then have "line x y x1 y1 (Suc n) ((x, y) # ps)"
    by (rule line_step [OF ps(2) _ x(2) y(2)])
  ultimately show ?case using Suc.hyps(2) by metis
qed

lemma loop_tall:
  assumes "spans sx dx X x x1" "spans sy dy Y y y1" "dx \<le> dy" "0 \<le> dx" "0 < dy" "small dy"
    and "- dy < err" "err \<le> 0" "err = X * dy - Y * dx - E" "0 \<le> E" "E < dy"
  shows "\<exists>ps. DrawLine_loop dx sx dy sy x1 y1 x y err = Some ps \<and> line x y x1 y1 (nat Y) ps"
  using assms(1,2,7-9)
proof (induction "nat Y" arbitrary: X Y x y err)
  case 0
  then have "Y = 0" by (simp add: spans_def)
  then have "X * dy < 1 * dy" using 0(5,6) assms(11) by simp
  then have "X < 1" using assms(5) by (simp add: mult_less_cancel_right)
  then have "X = 0" using 0(2) by (simp add: spans_def)
  with \<open>Y = 0\<close> 0 have "x = x1" "y = y1" by (auto simp: spans_def)
  then show ?case
    using line_single [of x y] \<open>Y = 0\<close> by (simp add: DrawLine_loop.simps)
next
  case (Suc n)
  then have Y: "0 < Y" "nat (Y - 1) = n" by auto
  have X: "0 < X" if "- dx < err"
  proof (rule ccontr)
    assume "\<not> 0 < X"
    with Suc.prems(1) have "X = 0" by (simp add: spans_def)
    moreover have "1 * dx \<le> Y * dx" using Y assms(4) by (intro mult_right_mono) auto
    ultimately show False using that Suc.prems(5) assms(10) by simp
  qed
  let ?X = "if - dx < err then X - 1 else X" and ?x = "if - dx < err then x + sx else x"
  let ?err = "err + dx - (if - dx < err then dy else 0)"
  have x: "spans sx dx ?X ?x x1" "between x x1 ?x" "\<bar>x - ?x\<bar> \<le> 1"
    using Suc.prems(1) X spans_step [of sx dx X x x1] between_refl by (auto simp: spans_def)
  have y: "spans sy dy (Y - 1) (y + sy) y1" "between y y1 (y + sy)"
    using spans_step [OF Suc.prems(2) Y(1)] by auto
  have "?err = ?X * dy - (Y - 1) * dx - E" "- dy < ?err" "?err \<le> 0"
    using Suc.prems assms(3,4) by (auto simp: algebra_simps)
  from Suc.hyps(1) [OF _ x(1) y(1) this(2,3,1)] Y
  obtain ps where ps: "DrawLine_loop dx sx dy sy x1 y1 ?x (y + sy) ?err = Some ps"
    "line ?x (y + sy) x1 y1 n ps" by auto
  have "y \<noteq> y1" "err < dy" using Suc.prems(2,4) Y assms(5) by (auto simp: spans_def)
  then have "DrawLine_loop dx sx dy sy x1 y1 x y err = Some ((x, y) # ps)"
    using loop_step [of x x1 y y1 err dx dy sx sy] ps(1) Suc.prems assms(3-6)
    by (auto simp: spans_def small_def)
  moreover have "adjacent (x, y) (?x, y + sy)"
    using x(3) Suc.prems(2) by (auto simp: adjacent_def spans_def)
  then have "line x y x1 y1 (Suc n) ((x, y) # ps)"
    by (rule line_step [OF ps(2) _ x(2) y(2)])
  ultimately show ?case using Suc.hyps(2) by metis
qed

lemma half_bounds: "0 \<le> (d :: int) \<Longrightarrow> d sdiv 2 = d div 2 \<and> (- d) sdiv 2 = - (d div 2)"
  by (simp add: signed_divide_int_def sgn_if)

text \<open>C10: \<open>DrawLine\<close> always ends, and it draws the line: from the first point to the second, with
  one pixel per step along the longer side, each pixel next to the one before and none outside the
  rectangle between the two points. No value leaves 32 bits if the coordinates stay below
  \<open>2^29\<close>.\<close>

theorem DrawLine_ends:
  assumes "list_all (\<lambda>v. \<bar>v\<bar> \<le> 536870912) [x0, y0, x1, y1]"
  shows "\<exists>ps. DrawLine x0 y0 x1 y1 = Some ps \<and>
    line x0 y0 x1 y1 (nat (max \<bar>x1 - x0\<bar> \<bar>y1 - y0\<bar>)) ps"
proof -
  let ?dx = "\<bar>x1 - x0\<bar>" and ?dy = "\<bar>y1 - y0\<bar>"
  let ?sx = "if x0 < x1 then 1 else -1 :: int" and ?sy = "if y0 < y1 then 1 else -1 :: int"
  have a: "abs_long (i32 (x1 - x0)) = ?dx" "abs_long (i32 (y1 - y0)) = ?dy" "i32 (- ?dy) = - ?dy"
    using assms by (auto simp: abs_long_def i32_id)
  have D: "DrawLine x0 y0 x1 y1 = DrawLine_loop ?dx ?sx ?dy ?sy x1 y1 x0 y0
      (if ?dx > ?dy then ?dx div 2 else - (?dy div 2))"
    unfolding DrawLine_def Let_def a using half_bounds [of ?dx] half_bounds [of ?dy] by simp
  have s: "spans ?sx ?dx ?dx x0 x1" "spans ?sy ?dy ?dy y0 y1" "small ?dx" "small ?dy"
    using assms by (auto simp: spans_def small_def)
  consider "?dy < ?dx" | "?dx \<le> ?dy" "0 < ?dy" | "x0 = x1" "y0 = y1" by linarith
  then show ?thesis
  proof cases
    case 1
    then have m: "max ?dx ?dy = ?dx" by simp
    show ?thesis unfolding D if_P [OF 1] m
      by (rule loop_wide [OF s(1,2) 1 _ s(3), where E = "?dx div 2"]) (insert 1, auto)
  next
    case 2
    then have m: "max ?dx ?dy = ?dy" and n: "\<not> ?dy < ?dx" by simp_all
    show ?thesis unfolding D if_not_P [OF n] m
      by (rule loop_tall [OF s(1,2) 2(1) _ 2(2) s(4), where E = "?dy div 2"]) (insert 2(2), auto)
  next
    case 3
    show ?thesis unfolding D
      by (subst DrawLine_loop.simps) (simp add: 3 line_single)
  qed
qed

theorem DrawLine_ends_witness:
  "list_all (\<lambda>v. \<bar>v\<bar> \<le> 536870912) [0, 480, 640, 0 :: int] \<and>
    (\<exists>ps. DrawLine 0 480 640 0 = Some ps \<and> line 0 480 640 0 640 ps)"
  using DrawLine_ends [of 0 480 640 0] by simp

end
