(* ===== verification/Utils.thy ===== *)
theory Utils
  imports User
begin

text \<open>
  The small user programs: \<open>cat\<close>, \<open>wc\<close>, \<open>echo\<close>, \<open>ls\<close>, \<open>kill\<close>, \<open>ln\<close>, \<open>mkdir\<close>, \<open>rm\<close>, \<open>zombie\<close>, \<open>hello\<close>,
  \<open>add\<close> with \<open>adder.c\<close>, \<open>init\<close>, \<open>forktest\<close> and \<open>stressfs\<close>, each as a function on the world of \<open>User\<close>.
  \<open>argv\<close> is the list of argument strings, the program's name first.
\<close>

section \<open>cat\<close>

function cat :: "int \<Rightarrow> world \<Rightarrow> unit ures" where
  "cat fd w =
     ubind (uread fd 512 w) (\<lambda>r w.
     case r of
       None \<Rightarrow> ubind (umsg 1 ''cat: read error'' w) (\<lambda>_. uexit)
     | Some bs \<Rightarrow>
         if bs = [] then URet () w
         else ubind (usys (Uwrite 1 bs) w) (\<lambda>n w.
              if n \<noteq> int (length bs) then ubind (umsg 1 ''cat: write error'' w) (\<lambda>_. uexit)
              else cat fd w))"
  by pat_completeness auto

termination
  by (relation "measure (\<lambda>(fd, w). length (answers w))")
    (auto dest!: uread_answers usys_answers)

declare cat.simps [simp del]

fun cat_files :: "u8 list list \<Rightarrow> world \<Rightarrow> unit ures" where
  "cat_files [] w = uexit w"
| "cat_files (a # as) w =
     ubind (usys (Uopen a 0) w) (\<lambda>fd w.
     if fd < 0 then
       ubind (uprintf 1 (cstr ''cat: cannot open %s'' @ [10]) (\<lambda>_. 0) (\<lambda>_. Some a) w) (\<lambda>_. uexit)
     else ubind (cat fd w) (\<lambda>_ w. ubind (usys (Uclose fd) w) (\<lambda>_. cat_files as)))"

definition cat_main :: "u8 list list \<Rightarrow> world \<Rightarrow> unit ures" where
  "cat_main argv w =
     (if length argv \<le> 1 then ubind (cat 0 w) (\<lambda>_. uexit) else cat_files (tl argv) w)"

section \<open>wc\<close>

record counts =
  c_l :: nat
  c_w :: nat
  c_c :: nat
  c_inword :: bool

text \<open>\<open>strchr(" \r\t\n\v", c)\<close>.\<close>

definition blank :: "u8 \<Rightarrow> bool" where
  "blank c = (strchr [0x20, 0x0d, 0x09, 0x0a, 0x0b] c \<noteq> None)"

definition wc_char :: "u8 \<Rightarrow> counts \<Rightarrow> counts" where
  "wc_char c k =
     (let k = k\<lparr>c_c := Suc (c_c k)\<rparr>;
          k = (if c = 10 then k\<lparr>c_l := Suc (c_l k)\<rparr> else k)
      in if blank c then k\<lparr>c_inword := False\<rparr>
         else if \<not> c_inword k then k\<lparr>c_w := Suc (c_w k), c_inword := True\<rparr>
         else k)"

text \<open>The loop over the reads; the result says whether the last \<open>read\<close> succeeded.\<close>

function wc_loop :: "int \<Rightarrow> counts \<Rightarrow> world \<Rightarrow> (bool \<times> counts) ures" where
  "wc_loop fd k w =
     ubind (uread fd 512 w) (\<lambda>r w.
     case r of
       None \<Rightarrow> URet (False, k) w
     | Some bs \<Rightarrow> if bs = [] then URet (True, k) w else wc_loop fd (fold wc_char bs k) w)"
  by pat_completeness auto

termination
  by (relation "measure (\<lambda>(fd, k, w). length (answers w))") (auto dest!: uread_answers)

declare wc_loop.simps [simp del]

definition no_counts :: counts where
  "no_counts = \<lparr>c_l = 0, c_w = 0, c_c = 0, c_inword = False\<rparr>"

definition wc :: "int \<Rightarrow> u8 list \<Rightarrow> world \<Rightarrow> unit ures" where
  "wc fd name w =
     ubind (wc_loop fd no_counts w) (\<lambda>r w.
     if \<not> fst r then ubind (umsg 1 ''wc: read error'' w) (\<lambda>_. uexit)
     else uprintf 1 (cstr ''%d %d %d %s'' @ [10])
       (\<lambda>i. [of_nat (c_l (snd r)), of_nat (c_w (snd r)), of_nat (c_c (snd r)), 0] ! i)
       (\<lambda>_. Some name) w)"

fun wc_files :: "u8 list list \<Rightarrow> world \<Rightarrow> unit ures" where
  "wc_files [] w = uexit w"
| "wc_files (a # as) w =
     ubind (usys (Uopen a 0) w) (\<lambda>fd w.
     if fd < 0 then
       ubind (uprintf 1 (cstr ''wc: cannot open %s'' @ [10]) (\<lambda>_. 0) (\<lambda>_. Some a) w) (\<lambda>_. uexit)
     else ubind (wc fd a w) (\<lambda>_ w. ubind (usys (Uclose fd) w) (\<lambda>_. wc_files as)))"

definition wc_main :: "u8 list list \<Rightarrow> world \<Rightarrow> unit ures" where
  "wc_main argv w =
     (if length argv \<le> 1 then ubind (wc 0 [] w) (\<lambda>_. uexit) else wc_files (tl argv) w)"

section \<open>echo\<close>

fun echo_args :: "u8 list list \<Rightarrow> world \<Rightarrow> unit ures" where
  "echo_args [] w = uexit w"
| "echo_args (a # as) w =
     ubind (uprintf 1 (cstr ''%s%s'') (\<lambda>_. 0)
       (\<lambda>i. Some (if i = 0 then a else if as \<noteq> [] then [0x20] else [10])) w) (\<lambda>_. echo_args as)"

definition echo_main :: "u8 list list \<Rightarrow> world \<Rightarrow> unit ures" where
  "echo_main argv w = echo_args (tl argv) w"

section \<open>ls\<close>

text \<open>\<open>fmtname\<close>: what follows the last slash, padded with blanks to \<open>DIRSIZ = 14\<close> characters.\<close>

definition fmtname :: "u8 list \<Rightarrow> u8 list" where
  "fmtname path =
     (let p = rev (takeWhile (\<lambda>c. c \<noteq> 0x2f) (rev path)) in
      if length p \<ge> 14 then p else p @ replicate (14 - length p) 0x20)"

text \<open>The fields of \<open>struct stat\<close> that \<open>ls\<close> prints, at the offsets the compiler gives them.\<close>

definition st_type :: "u8 list \<Rightarrow> u16" where
  "st_type bs = ld16 (at_offset bs) 0"

definition ls_line :: "u8 list \<Rightarrow> u8 list \<Rightarrow> world \<Rightarrow> unit ures" where
  "ls_line path st w =
     uprintf 1 (cstr ''%s %d %d %d'' @ [10])
       (\<lambda>i. [0, scast (st_type st), ld32 (at_offset st) 8, ld32 (at_offset st) 16] ! i)
       (\<lambda>_. Some (fmtname path)) w"

lemma spends_ustat [spends]: "spends w (ustat n w)"
  unfolding ustat_def by (auto intro!: spends)

lemma spends_ls_line [spends]: "spends w (ls_line path st w)"
  unfolding ls_line_def by (rule spends)

text \<open>The loop over the directory entries: two bytes of inode number, then the name. It ends at the
  first \<open>read\<close> that does not give 16 bytes.\<close>

function ls_dir :: "int \<Rightarrow> u8 list \<Rightarrow> world \<Rightarrow> unit ures" where
  "ls_dir fd path w =
     ubind (uread fd 16 w) (\<lambda>r w.
     case r of
       None \<Rightarrow> URet () w
     | Some de \<Rightarrow>
         if length de \<noteq> 16 then URet () w
         else if ld16 (at_offset de) 0 = 0 then ls_dir fd path w
         else
           let buf = path @ [0x2f] @ takeWhile (\<lambda>c. c \<noteq> 0) (drop 2 de) in
           ubind (ustat buf w) (\<lambda>st w.
           if fst st < 0 then
             ubind (uprintf 1 (cstr ''ls: cannot stat %s'' @ [10]) (\<lambda>_. 0) (\<lambda>_. Some buf) w)
               (\<lambda>_. ls_dir fd path)
           else ubind (ls_line buf (snd st) w) (\<lambda>_. ls_dir fd path)))"
  by pat_completeness auto

termination
  by (relation "measure (\<lambda>(fd, path, w). length (answers w))")
    (auto dest!: uread_answers spendsD [OF spends_ustat] spendsD [OF spends_ls_line]
      spendsD [OF spends_uprintf])

declare ls_dir.simps [simp del]

definition ls :: "u8 list \<Rightarrow> world \<Rightarrow> unit ures" where
  "ls path w =
     ubind (usys (Uopen path 0) w) (\<lambda>fd w.
     if fd < 0 then uprintf 2 (cstr ''ls: cannot open %s'' @ [10]) (\<lambda>_. 0) (\<lambda>_. Some path) w
     else ubind (ask (Ufstat fd) w) (\<lambda>st w.
       if fst st < 0 then
         ubind (uprintf 2 (cstr ''ls: cannot stat %s'' @ [10]) (\<lambda>_. 0) (\<lambda>_. Some path) w) (\<lambda>_ w.
         ubind (usys (Uclose fd) w) (\<lambda>_. URet ()))
       else
         ubind (if st_type (snd st) = 2 then ls_line path (snd st) w
                else if st_type (snd st) = 1 then
                  (if length path + 1 + 14 + 1 > 512 then umsg 1 ''ls: path too long'' w
                   else ls_dir fd path w)
                else URet () w) (\<lambda>_ w.
         ubind (usys (Uclose fd) w) (\<lambda>_. URet ()))))"

fun ls_args :: "u8 list list \<Rightarrow> world \<Rightarrow> unit ures" where
  "ls_args [] w = uexit w"
| "ls_args (a # as) w = ubind (ls a w) (\<lambda>_. ls_args as)"

definition ls_main :: "u8 list list \<Rightarrow> world \<Rightarrow> unit ures" where
  "ls_main argv w =
     (if length argv < 2 then ubind (ls (cstr ''.'') w) (\<lambda>_. uexit) else ls_args (tl argv) w)"

section \<open>kill, ln, mkdir, rm\<close>

fun kill_args :: "u8 list list \<Rightarrow> world \<Rightarrow> unit ures" where
  "kill_args [] w = uexit w"
| "kill_args (a # as) w = ubind (usys (Ukill (atoi a)) w) (\<lambda>_. kill_args as)"

definition kill_main :: "u8 list list \<Rightarrow> world \<Rightarrow> unit ures" where
  "kill_main argv w =
     (if length argv < 2 then ubind (umsg 2 ''usage: kill pid...'' w) (\<lambda>_. uexit)
      else kill_args (tl argv) w)"

definition ln_main :: "u8 list list \<Rightarrow> world \<Rightarrow> unit ures" where
  "ln_main argv w =
     (if length argv \<noteq> 3 then ubind (umsg 2 ''Usage: ln old new'' w) (\<lambda>_. uexit)
      else ubind (usys (Ulink (argv ! 1) (argv ! 2)) w) (\<lambda>r w.
        ubind (if r < 0 then uprintf 2 (cstr ''link %s %s: failed'' @ [10]) (\<lambda>_. 0)
                 (\<lambda>i. Some (argv ! Suc i)) w
               else URet () w) (\<lambda>_. uexit)))"

fun mkdir_args :: "u8 list list \<Rightarrow> world \<Rightarrow> unit ures" where
  "mkdir_args [] w = uexit w"
| "mkdir_args (a # as) w =
     ubind (usys (Umkdir a) w) (\<lambda>r w.
     if r < 0 then
       ubind (uprintf 2 (cstr ''mkdir: %s failed to create'' @ [10]) (\<lambda>_. 0) (\<lambda>_. Some a) w) (\<lambda>_. uexit)
     else mkdir_args as w)"

definition mkdir_main :: "u8 list list \<Rightarrow> world \<Rightarrow> unit ures" where
  "mkdir_main argv w =
     (if length argv < 2 then ubind (umsg 2 ''Usage: mkdir files...'' w) (\<lambda>_. uexit)
      else mkdir_args (tl argv) w)"

fun rm_args :: "u8 list list \<Rightarrow> world \<Rightarrow> unit ures" where
  "rm_args [] w = uexit w"
| "rm_args (a # as) w =
     ubind (usys (Uunlink a) w) (\<lambda>r w.
     if r < 0 then
       ubind (uprintf 2 (cstr ''rm: %s failed to delete'' @ [10]) (\<lambda>_. 0) (\<lambda>_. Some a) w) (\<lambda>_. uexit)
     else rm_args as w)"

definition rm_main :: "u8 list list \<Rightarrow> world \<Rightarrow> unit ures" where
  "rm_main argv w =
     (if length argv < 2 then ubind (umsg 2 ''Usage: rm files...'' w) (\<lambda>_. uexit)
      else rm_args (tl argv) w)"

section \<open>zombie, hello, add\<close>

definition zombie_main :: "world \<Rightarrow> unit ures" where
  "zombie_main w =
     ubind (usys Ufork w) (\<lambda>pid w.
     ubind (if pid > 0 then usys (Usleep 5) w else URet 0 w) (\<lambda>_. uexit))"

definition hello_main :: "world \<Rightarrow> unit ures" where
  "hello_main w = ubind (usys Ugreeting w) (\<lambda>_. uexit)"

text \<open>\<open>adder.c\<close>: addition of two \<open>int\<close>s, as words.\<close>

definition add :: "u32 \<Rightarrow> u32 \<Rightarrow> u32" where
  "add a b = a + b"

definition adder_test :: "world \<Rightarrow> int ures" where
  "adder_test w = ubind (uprintf 1 (cstr ''Tested!'') (\<lambda>_. 0) (\<lambda>_. None) w) (\<lambda>_. URet 0)"

definition add_main :: "world \<Rightarrow> unit ures" where
  "add_main w = ubind (uprintf 1 (cstr ''%d'' @ [10]) (\<lambda>_. add 1 3) (\<lambda>_. None) w) (\<lambda>_. uexit)"

section \<open>init\<close>

function init_wait :: "int \<Rightarrow> world \<Rightarrow> unit ures" where
  "init_wait pid w =
     ubind (usys Uwait w) (\<lambda>wpid w.
     if wpid \<ge> 0 \<and> wpid \<noteq> pid then ubind (umsg 1 ''zombie!'' w) (\<lambda>_. init_wait pid)
     else URet () w)"
  by pat_completeness auto

termination
  by (relation "measure (\<lambda>(pid, w). length (answers w))")
    (auto dest!: usys_answers spendsD [OF spends_uprintf])

declare init_wait.simps [simp del]

lemma spends_init_wait [spends]: "spends w (init_wait pid w)"
proof (induction pid w rule: init_wait.induct)
  case (1 pid w)
  then show ?case by (subst init_wait.simps) (auto intro!: spends)
qed

function init_loop :: "world \<Rightarrow> unit ures" where
  "init_loop w =
     ubind (umsg 1 ''init: starting sh'' w) (\<lambda>_ w.
     ubind (usys Ufork w) (\<lambda>pid w.
     if pid < 0 then ubind (umsg 1 ''init: fork failed'' w) (\<lambda>_. uexit)
     else if pid = 0 then
       ubind (usys (Uexec (cstr ''sh'') [cstr ''sh'']) w) (\<lambda>_ w.
       ubind (umsg 1 ''init: exec sh failed'' w) (\<lambda>_. uexit))
     else ubind (init_wait pid w) (\<lambda>_. init_loop)))"
  by pat_completeness auto

termination
  by (relation "measure (\<lambda>w. length (answers w))")
    (auto dest!: usys_answers spendsD [OF spends_uprintf] spendsD [OF spends_init_wait])

declare init_loop.simps [simp del]

definition init_main :: "world \<Rightarrow> unit ures" where
  "init_main w =
     ubind (usys (Uopen (cstr ''console'') 2) w) (\<lambda>fd w.
     ubind (if fd < 0 then
              ubind (usys (Umknod (cstr ''console'') 1 1) w) (\<lambda>_. usys (Uopen (cstr ''console'') 2))
            else URet fd w) (\<lambda>_ w.
     ubind (usys (Udup 0) w) (\<lambda>_ w.
     ubind (usys (Udup 0) w) (\<lambda>_. init_loop))))"

section \<open>forktest\<close>

text \<open>Its own \<open>printf\<close> writes the format in one call.\<close>

definition ft_printf :: "int \<Rightarrow> string \<Rightarrow> world \<Rightarrow> unit ures" where
  "ft_printf fd t w = ubind (usys (Uwrite fd (cstr t @ [10])) w) (\<lambda>_. URet ())"

text \<open>The first loop, with \<open>k\<close> rounds left, gives the final value of \<open>n\<close>.\<close>

fun ft_forks :: "nat \<Rightarrow> nat \<Rightarrow> world \<Rightarrow> nat ures" where
  "ft_forks 0 n w = URet n w"
| "ft_forks (Suc k) n w =
     ubind (usys Ufork w) (\<lambda>pid w.
     if pid < 0 then URet n w else if pid = 0 then uexit w else ft_forks k (Suc n) w)"

fun ft_waits :: "nat \<Rightarrow> world \<Rightarrow> unit ures" where
  "ft_waits 0 w = URet () w"
| "ft_waits (Suc n) w =
     ubind (usys Uwait w) (\<lambda>r w.
     if r < 0 then ubind (ft_printf 1 ''wait stopped early'' w) (\<lambda>_. uexit) else ft_waits n w)"

definition forktest :: "world \<Rightarrow> unit ures" where
  "forktest w =
     ubind (ft_printf 1 ''fork test'' w) (\<lambda>_ w.
     ubind (ft_forks 1000 0 w) (\<lambda>n w.
     if n = 1000 then ubind (ft_printf 1 ''fork claimed to work N times!'' w) (\<lambda>_. uexit)
     else
       ubind (ft_waits n w) (\<lambda>_ w.
       ubind (usys Uwait w) (\<lambda>r w.
       if r \<noteq> -1 then ubind (ft_printf 1 ''wait got too many'' w) (\<lambda>_. uexit)
       else ft_printf 1 ''fork test OK'' w))))"

definition forktest_main :: "world \<Rightarrow> unit ures" where
  "forktest_main w = ubind (forktest w) (\<lambda>_. uexit)"

section \<open>stressfs\<close>

fun sf_forks :: "nat \<Rightarrow> nat \<Rightarrow> world \<Rightarrow> nat ures" where
  "sf_forks 0 i w = URet i w"
| "sf_forks (Suc k) i w = ubind (usys Ufork w) (\<lambda>pid w. if pid > 0 then URet i w else sf_forks k (Suc i) w)"

fun sf_times :: "nat \<Rightarrow> ucall \<Rightarrow> world \<Rightarrow> unit ures" where
  "sf_times 0 c w = URet () w"
| "sf_times (Suc k) c w = ubind (usys c w) (\<lambda>_. sf_times k c)"

definition stressfs_main :: "world \<Rightarrow> unit ures" where
  "stressfs_main w =
     ubind (umsg 1 ''stressfs starting'' w) (\<lambda>_ w.
     ubind (sf_forks 4 0 w) (\<lambda>i w.
     ubind (uprintf 1 (cstr ''write %d'' @ [10]) (\<lambda>_. of_nat i) (\<lambda>_. None) w) (\<lambda>_ w.
     let path = cstr ''stressfs'' @ [0x30 + of_nat i] in
     ubind (usys (Uopen path 0x202) w) (\<lambda>fd w.
     ubind (sf_times 20 (Uwrite fd (replicate 512 0x61)) w) (\<lambda>_ w.
     ubind (usys (Uclose fd) w) (\<lambda>_ w.
     ubind (umsg 1 ''read'' w) (\<lambda>_ w.
     ubind (usys (Uopen path 0) w) (\<lambda>fd w.
     ubind (sf_times 20 (Uread fd 512) w) (\<lambda>_ w.
     ubind (usys (Uclose fd) w) (\<lambda>_ w.
     ubind (usys Uwait w) (\<lambda>_. uexit)))))))))))"

section \<open>What \<open>wc\<close> counts\<close>

text \<open>The places where a word starts: a character that is not blank, at the beginning or after a
  blank.\<close>

definition word_starts :: "u8 list \<Rightarrow> nat set" where
  "word_starts s = {i. i < length s \<and> \<not> blank (s ! i) \<and> (i = 0 \<or> blank (s ! (i - 1)))}"

definition counts_of :: "u8 list \<Rightarrow> counts \<Rightarrow> bool" where
  "counts_of s k =
     (c_l k = count_list s 10 \<and> c_w k = card (word_starts s) \<and> c_c k = length s \<and>
      c_inword k = (s \<noteq> [] \<and> \<not> blank (last s)))"

lemma word_starts_snoc:
  "word_starts (s @ [c]) =
    word_starts s \<union> (if \<not> blank c \<and> (s = [] \<or> blank (last s)) then {length s} else {})"
proof (cases "s = []")
  case True
  then show ?thesis by (auto simp: word_starts_def)
next
  case False
  then have "last s = s ! (length s - 1)" "length s - 1 < length s" by (simp_all add: last_conv_nth)
  with False show ?thesis by (auto simp: word_starts_def nth_append less_Suc_eq)
qed

lemma finite_word_starts: "finite (word_starts s)"
  by (rule finite_subset [of _ "{..< length s}"]) (auto simp: word_starts_def)

lemma wc_char_counts:
  assumes "counts_of s k"
  shows "counts_of (s @ [c]) (wc_char c k)"
proof -
  have "length s \<notin> word_starts s" by (simp add: word_starts_def)
  then show ?thesis
    using assms finite_word_starts [of s]
    by (auto simp: counts_of_def wc_char_def Let_def word_starts_snoc)
qed

lemma fold_wc_counts: "counts_of s k \<Longrightarrow> counts_of (s @ bs) (fold wc_char bs k)"
proof (induction bs arbitrary: s k)
  case (Cons b bs)
  from Cons.IH [OF wc_char_counts [OF Cons.prems]] show ?case by simp
qed simp

lemma wc_loop_counts:
  assumes "list_all (\<lambda>b. b \<noteq> [] \<and> length b \<le> 512) bs" and "counts_of s k"
  shows "\<exists>k'. counts_of (s @ concat bs) k' \<and>
    wc_loop fd k \<lparr>trace = t, answers = map (Pair 0) bs @ (0, []) # as\<rparr> =
      URet (True, k') \<lparr>trace = t @ replicate (Suc (length bs)) (Uread fd 512), answers = as\<rparr>"
  using assms
proof (induction bs arbitrary: s k t)
  case Nil
  then show ?case
    by (subst wc_loop.simps) (auto simp: uread_def ask_def)
next
  case (Cons b bs)
  from Cons.IH [OF _ fold_wc_counts [OF Cons.prems(2), of b], of "t @ [Uread fd 512]"] Cons.prems
  show ?case by (subst wc_loop.simps) (auto simp: uread_def ask_def)
qed

text \<open>C28: \<open>wc\<close> counts the lines, words and characters of the whole file, however the kernel cuts it
  into reads: also a word that spans two reads is counted once.\<close>

theorem wc_counts_file:
  assumes "list_all (\<lambda>b. b \<noteq> [] \<and> length b \<le> 512) bs"
  shows "\<exists>k. c_l k = count_list (concat bs) 10 \<and> c_w k = card (word_starts (concat bs)) \<and>
    c_c k = length (concat bs) \<and>
    wc_loop fd no_counts \<lparr>trace = t, answers = map (Pair 0) bs @ (0, []) # as\<rparr> =
      URet (True, k) \<lparr>trace = t @ replicate (Suc (length bs)) (Uread fd 512), answers = as\<rparr>"
proof -
  have "counts_of [] no_counts" by (simp add: counts_of_def no_counts_def word_starts_def)
  from wc_loop_counts [OF assms this, of fd t as] show ?thesis
    unfolding counts_of_def append_Nil by blast
qed

theorem wc_counts_file_witness:
  "list_all (\<lambda>b. b \<noteq> [] \<and> length b \<le> 512) [cstr ''one tw'', cstr ''o'' @ [10]] \<and>
    (\<exists>k. c_l k = count_list (cstr ''one two'' @ [10]) 10 \<and>
      c_w k = card (word_starts (cstr ''one two'' @ [10])) \<and> c_c k = 8 \<and>
      wc_loop 3 no_counts
        \<lparr>trace = [], answers = [(0, cstr ''one tw''), (0, cstr ''o'' @ [10]), (0, [])]\<rparr> =
      URet (True, k) \<lparr>trace = [Uread 3 512, Uread 3 512, Uread 3 512], answers = []\<rparr>)"
  using wc_counts_file [of "[cstr ''one tw'', cstr ''o'' @ [10]]" 3 "[]" "[]"]
  by (simp add: cstr_def numeral_eq_Suc)

end
