(* ===== verification/Sh.thy ===== *)
theory Sh
  imports User
begin

text \<open>
  \<open>sh.c\<close>, the shell: the tokenizer, the recursive descent parser, \<open>nulterminate\<close>, \<open>runcmd\<close> and the main
  loop. A command line is the list of its bytes without the final NUL, a pointer into it an offset,
  and \<open>es\<close> its length; a word of the line is kept as the two offsets \<open>q\<close> and \<open>eq\<close>, as in the source, and
  \<open>nulterminate\<close> writes its NULs into the line. The tree of a command is polymorphic in what stands
  for a word: offsets while parsing, strings when it runs. \<open>malloc\<close> is taken to succeed: its result
  is not checked in the source.

  The parser functions call each other with a nesting depth that depends on the line; they take
  fuel, and \<open>parsecmd\<close> gives them \<open>4 * (length + 1)\<close>, which \<open>sh_parser_total\<close> shows to be enough for
  every line.
\<close>

section \<open>Commands and the tokenizer\<close>

abbreviation MAXARGS :: nat where "MAXARGS \<equiv> 10"

datatype 'w cmd =
    EXEC "'w list"
  | REDIR "'w cmd" 'w int int
  | PIPE "'w cmd" "'w cmd"
  | LIST "'w cmd" "'w cmd"
  | BACK "'w cmd"

definition whitespace :: "u8 list" where
  "whitespace = [0x20, 0x09, 0x0d, 0x0a, 0x0b]"

definition symbols :: "u8 list" where
  "symbols = [0x3c, 0x7c, 0x3e, 0x26, 0x3b, 0x28, 0x29]"

definition ws :: "u8 \<Rightarrow> bool" where
  "ws c = (c \<in> set whitespace)"

definition wordchar :: "u8 \<Rightarrow> bool" where
  "wordchar c = (c \<notin> set whitespace \<and> c \<notin> set symbols)"

text \<open>\<open>*s\<close>, and the loops that advance \<open>s\<close> while a condition holds and \<open>s < es\<close>.\<close>

definition char_at :: "u8 list \<Rightarrow> nat \<Rightarrow> u8" where
  "char_at buf s = (if s < length buf then buf ! s else 0)"

definition skip :: "(u8 \<Rightarrow> bool) \<Rightarrow> u8 list \<Rightarrow> nat \<Rightarrow> nat" where
  "skip P buf s = s + length (takeWhile P (drop s buf))"

text \<open>\<open>gettoken\<close> gives the token, \<open>q\<close>, \<open>eq\<close> and the new position.\<close>

definition gettoken :: "u8 list \<Rightarrow> nat \<Rightarrow> u8 \<times> nat \<times> nat \<times> nat" where
  "gettoken buf s =
     (let q = skip ws buf s;
          c = char_at buf q;
          (ret, eq) =
            (if c = 0 then (c, q)
             else if c \<in> {0x7c, 0x28, 0x29, 0x3b, 0x26, 0x3c} then (c, Suc q)
             else if c = 0x3e then
               (if char_at buf (Suc q) = 0x3e then (0x2b, Suc (Suc q)) else (c, Suc q))
             else (0x61, skip wordchar buf q))
      in (ret, q, eq, skip ws buf eq))"

definition next_pos :: "u8 list \<Rightarrow> nat \<Rightarrow> nat" where
  "next_pos buf s = snd (snd (snd (gettoken buf s)))"

definition peek :: "u8 list \<Rightarrow> nat \<Rightarrow> u8 list \<Rightarrow> bool \<times> nat" where
  "peek buf s toks =
     (let s = skip ws buf s in (char_at buf s \<noteq> 0 \<and> char_at buf s \<in> set toks, s))"

section \<open>Positions advance\<close>

lemma skip_le: "s \<le> skip P buf s"
  by (simp add: skip_def)

lemma skip_less: "s < length buf \<Longrightarrow> P (buf ! s) \<Longrightarrow> s < skip P buf s"
  by (simp add: skip_def Cons_nth_drop_Suc [symmetric])

lemma char_at_nonzero: "char_at buf s \<noteq> 0 \<Longrightarrow> s < length buf"
  by (simp add: char_at_def split: if_splits)

lemma gettoken_le: "gettoken buf s = (t, q, eq, s') \<Longrightarrow> s \<le> s'"
  using skip_le [of s ws buf] skip_le [of "skip ws buf s" wordchar buf]
  by (auto simp: gettoken_def Let_def split: if_splits intro: order_trans skip_le)
    (metis Suc_leD order_trans skip_le)+

lemma gettoken_less:
  assumes "gettoken buf s = (t, q, eq, s')" and "t \<noteq> 0"
  shows "s < s' \<and> s < length buf"
proof -
  let ?q = "skip ws buf s"
  have c: "char_at buf ?q \<noteq> 0"
    using assms by (auto simp: gettoken_def Let_def split: if_splits)
  then have q: "?q < length buf" by (rule char_at_nonzero)
  have "\<not> ws (buf ! ?q)"
  proof -
    have "length (takeWhile ws (drop s buf)) < length (drop s buf)"
      using q by (simp add: skip_def)
    from nth_length_takeWhile [OF this] show ?thesis using q by (simp add: skip_def)
  qed
  then have w: "?q < skip wordchar buf ?q" if "char_at buf ?q \<notin> {0x7c, 0x28, 0x29, 0x3b, 0x26, 0x3c, 0x3e}"
    using that q by (intro skip_less) (auto simp: wordchar_def ws_def symbols_def char_at_def)
  have "?q < eq"
    using assms(1) c w by (auto simp: gettoken_def Let_def split: if_splits)
  moreover have "s' = skip ws buf eq"
    using assms(1) by (auto simp: gettoken_def Let_def split: if_splits)
  ultimately show ?thesis using skip_le [of s ws buf] skip_le [of eq ws buf] q by linarith
qed

lemma gettoken_word: "gettoken buf s = (0x61, q, eq, s') \<Longrightarrow> s < s' \<and> s < length buf"
  using gettoken_less [of buf s "0x61" q eq s'] by simp

lemma peek_le: "peek buf s toks = (b, s') \<Longrightarrow> s \<le> s'"
  using skip_le by (auto simp: peek_def Let_def)

lemma skip_twice: "skip P buf (skip P buf s) = skip P buf s"
proof -
  have "takeWhile P (drop (length (takeWhile P xs)) xs) = []" for xs :: "u8 list"
    by (simp add: dropWhile_eq_drop [symmetric]) (metis hd_dropWhile takeWhile_eq_Nil_iff)
  from this [of "drop s buf"] show ?thesis by (simp add: skip_def add.commute)
qed

lemma peek_less:
  assumes "peek buf s toks = (True, s')"
  shows "s' < length buf \<and> s' < next_pos buf s'"
proof -
  from assms have s': "s' = skip ws buf s" "char_at buf s' \<noteq> 0" by (auto simp: peek_def Let_def)
  obtain t q eq s'' where g: "gettoken buf s' = (t, q, eq, s'')" by (metis prod_cases4)
  then have "q = s'" "t \<noteq> 0"
    using s' skip_twice [of ws buf s] by (auto simp: gettoken_def Let_def split: if_splits)
  with gettoken_less [OF g] g show ?thesis by (simp add: next_pos_def)
qed

lemma peek_progress:
  "peek buf s toks = (True, s') \<Longrightarrow> s < length buf \<and> s < next_pos buf s' \<and> s \<le> s'"
  using peek_less [of buf s toks s'] peek_le [of buf s toks True s'] by auto

section \<open>The parser\<close>

text \<open>A parse ends with a command and the new position, with a call of \<open>panic\<close>, or, at the end of
  \<open>parsecmd\<close>, with the message about what is left over.\<close>

datatype 'a pres = Parsed 'a nat | Ppanic string | Leftovers nat | NoFuel

definition pbind :: "'a pres \<Rightarrow> ('a \<Rightarrow> nat \<Rightarrow> 'b pres) \<Rightarrow> 'b pres" where
  "pbind m f =
     (case m of Parsed a s \<Rightarrow> f a s | Ppanic e \<Rightarrow> Ppanic e | Leftovers s \<Rightarrow> Leftovers s | NoFuel \<Rightarrow> NoFuel)"

lemma pbind_simps [simp]:
  "pbind (Parsed a s) f = f a s" "pbind (Ppanic e) f = Ppanic e"
  "pbind (Leftovers s) f = Leftovers s" "pbind NoFuel f = NoFuel"
  by (simp_all add: pbind_def)

lemma pbind_cong [fundef_cong]:
  "m = m' \<Longrightarrow> (\<And>a s. m' = Parsed a s \<Longrightarrow> f a s = g a s) \<Longrightarrow> pbind m f = pbind m' g"
  by (cases m') simp_all

lemma pbind_Parsed: "pbind m f = Parsed b s \<longleftrightarrow> (\<exists>a t. m = Parsed a t \<and> f a t = Parsed b s)"
  by (cases m) simp_all

type_synonym pcmd = "(nat \<times> nat) cmd"

definition redir_tok :: "u8 \<Rightarrow> nat \<times> nat \<Rightarrow> pcmd \<Rightarrow> pcmd" where
  "redir_tok tok f c =
     (if tok = 0x3c then REDIR c f 0 0
      else if tok = 0x3e then REDIR c f 0x201 1
      else if tok = 0x2b then REDIR c f 0x201 1
      else c)"

function parseredirs :: "u8 list \<Rightarrow> pcmd \<Rightarrow> nat \<Rightarrow> pcmd pres" where
  "parseredirs buf c s =
     (case peek buf s [0x3c, 0x3e] of (b, s0) \<Rightarrow>
      if \<not> b then Parsed c s0
      else case gettoken buf s0 of (tok, _, _, s1) \<Rightarrow>
           case gettoken buf s1 of (t, q, eq, s2) \<Rightarrow>
           if t \<noteq> 0x61 then Ppanic ''missing file for redirection''
           else parseredirs buf (redir_tok tok (q, eq) c) s2)"
  by pat_completeness auto

termination
  by (relation "measure (\<lambda>(buf, c, s). length buf - s)")
    (auto dest!: gettoken_word [OF sym], auto dest!: peek_le [OF sym] gettoken_le [OF sym])

declare parseredirs.simps [simp del]

lemma parseredirs_Parsed [consumes 1, case_names stop more]:
  assumes "parseredirs buf c s = Parsed c' s'"
  obtains "peek buf s [0x3c, 0x3e] = (False, s')" "c' = c"
  | s0 tok q0 e0 s1 q eq s2 where "peek buf s [0x3c, 0x3e] = (True, s0)"
    "gettoken buf s0 = (tok, q0, e0, s1)" "gettoken buf s1 = (0x61, q, eq, s2)"
    "parseredirs buf (redir_tok tok (q, eq) c) s2 = Parsed c' s'"
  using assms by (subst (asm) parseredirs.simps) (auto split: prod.splits if_splits)

lemma redir_progress:
  assumes "peek buf s [0x3c, 0x3e] = (True, s0)" "gettoken buf s0 = (tok, q0, e0, s1)"
    "gettoken buf s1 = (0x61, q, eq, s2)"
  shows "s < s2 \<and> length buf - s2 < length buf - s"
  using peek_le [OF assms(1)] gettoken_le [OF assms(2)] gettoken_word [OF assms(3)] by linarith

lemma parseredirs_le: "parseredirs buf c s = Parsed c' s' \<Longrightarrow> s \<le> s'"
proof (induction "length buf - s" arbitrary: c s rule: less_induct)
  case less
  from less.prems show ?case
  proof (cases rule: parseredirs_Parsed)
    case stop
    then show ?thesis by (auto dest: peek_le)
  next
    case (more s0 tok q0 e0 s1 q eq s2)
    note p = redir_progress [OF more(1-3)]
    from less.hyps [OF _ more(4)] p show ?thesis by simp
  qed
qed

text \<open>\<open>parseexec\<close> keeps a pointer to the \<open>execcmd\<close> that its result wraps in redirections; a new
  argument goes there.\<close>

fun add_arg :: "'w \<Rightarrow> 'w cmd \<Rightarrow> 'w cmd" where
  "add_arg a (EXEC as) = EXEC (as @ [a])"
| "add_arg a (REDIR c f mode fd) = REDIR (add_arg a c) f mode fd"
| "add_arg a c = c"

function parseargs :: "u8 list \<Rightarrow> pcmd \<Rightarrow> nat \<Rightarrow> nat \<Rightarrow> pcmd pres" where
  "parseargs buf ret argc s =
     (case peek buf s [0x7c, 0x29, 0x26, 0x3b] of (b, s0) \<Rightarrow>
      if b then Parsed ret s0
      else case gettoken buf s0 of (tok, q, eq, s1) \<Rightarrow>
           if tok = 0 then Parsed ret s1
           else if tok \<noteq> 0x61 then Ppanic ''syntax''
           else if Suc argc \<ge> MAXARGS then Ppanic ''too many args''
           else pbind (parseredirs buf (add_arg (q, eq) ret) s1) (\<lambda>ret s. parseargs buf ret (Suc argc) s))"
  by pat_completeness auto

termination
  by (relation "measure (\<lambda>(buf, ret, argc, s). length buf - s)")
    (auto dest!: peek_le [OF sym] parseredirs_le gettoken_word [OF sym])

declare parseargs.simps [simp del]

text \<open>The loop over \<open>&\<close> of \<open>parseline\<close>.\<close>

function parsebacks :: "u8 list \<Rightarrow> pcmd \<Rightarrow> nat \<Rightarrow> pcmd \<times> nat" where
  "parsebacks buf c s =
     (case peek buf s [0x26] of (b, s0) \<Rightarrow>
      if b then parsebacks buf (BACK c) (next_pos buf s0) else (c, s0))"
  by pat_completeness auto

termination
  by (relation "measure (\<lambda>(buf, c, s). length buf - s)") 
    (auto dest!: peek_progress [OF sym])

declare parsebacks.simps [simp del]

fun parseline :: "nat \<Rightarrow> u8 list \<Rightarrow> nat \<Rightarrow> pcmd pres"
  and parsepipe :: "nat \<Rightarrow> u8 list \<Rightarrow> nat \<Rightarrow> pcmd pres"
  and parseblock :: "nat \<Rightarrow> u8 list \<Rightarrow> nat \<Rightarrow> pcmd pres"
  and parseexec :: "nat \<Rightarrow> u8 list \<Rightarrow> nat \<Rightarrow> pcmd pres" where
  "parseline 0 buf s = NoFuel"
| "parseline (Suc n) buf s =
     pbind (parsepipe n buf s) (\<lambda>c s.
     case parsebacks buf c s of (c, s) \<Rightarrow>
     case peek buf s [0x3b] of (b, s) \<Rightarrow>
     if b then pbind (parseline n buf (next_pos buf s)) (\<lambda>r s. Parsed (LIST c r) s)
     else Parsed c s)"
| "parsepipe 0 buf s = NoFuel"
| "parsepipe (Suc n) buf s =
     pbind (parseexec n buf s) (\<lambda>c s.
     case peek buf s [0x7c] of (b, s) \<Rightarrow>
     if b then pbind (parsepipe n buf (next_pos buf s)) (\<lambda>r s. Parsed (PIPE c r) s)
     else Parsed c s)"
| "parseblock 0 buf s = NoFuel"
| "parseblock (Suc n) buf s =
     (case peek buf s [0x28] of (b, s) \<Rightarrow>
      if \<not> b then Ppanic ''parseblock''
      else pbind (parseline n buf (next_pos buf s)) (\<lambda>c s.
           case peek buf s [0x29] of (b, s) \<Rightarrow>
           if \<not> b then Ppanic ''syntax - missing )''
           else parseredirs buf c (next_pos buf s)))"
| "parseexec 0 buf s = NoFuel"
| "parseexec (Suc n) buf s =
     (case peek buf s [0x28] of (b, s) \<Rightarrow>
      if b then parseblock n buf s
      else pbind (parseredirs buf (EXEC []) s) (\<lambda>ret s. parseargs buf ret 0 s))"

text \<open>\<open>nulterminate\<close> on the memory of the line, its final NUL included.\<close>

fun nulterminate :: "pcmd \<Rightarrow> u8 list \<Rightarrow> u8 list" where
  "nulterminate (EXEC as) m = fold (\<lambda>(q, eq) m. m[eq := 0]) as m"
| "nulterminate (REDIR c f mode fd) m = (nulterminate c m)[snd f := 0]"
| "nulterminate (PIPE l r) m = nulterminate r (nulterminate l m)"
| "nulterminate (LIST l r) m = nulterminate r (nulterminate l m)"
| "nulterminate (BACK c) m = nulterminate c m"

definition string_at :: "u8 list \<Rightarrow> nat \<Rightarrow> u8 list" where
  "string_at m q = takeWhile (\<lambda>c. c \<noteq> 0) (drop q m)"

text \<open>\<open>parsecmd\<close>; the result is the command with its strings as the program then finds them.\<close>

definition parsecmd :: "u8 list \<Rightarrow> u8 list cmd pres" where
  "parsecmd buf =
     pbind (parseline (4 * (length buf + 1)) buf 0) (\<lambda>c s.
     case peek buf s [] of (_, s) \<Rightarrow>
     if s \<noteq> length buf then Leftovers s
     else Parsed (map_cmd (\<lambda>w. string_at (nulterminate c (buf @ [0])) (fst w)) c) s)"

section \<open>Running commands\<close>

definition sh_panic :: "string \<Rightarrow> world \<Rightarrow> 'a ures" where
  "sh_panic t w = ubind (uprintf 2 (cstr ''%s'' @ [10]) (\<lambda>_. 0) (\<lambda>_. Some (cstr t)) w) (\<lambda>_. uexit)"

definition fork1 :: "world \<Rightarrow> int ures" where
  "fork1 w = ubind (usys Ufork w) (\<lambda>pid w. if pid = -1 then sh_panic ''fork'' w else URet pid w)"

definition pipe_end :: "nat \<Rightarrow> u8 list \<Rightarrow> int" where
  "pipe_end i bs = sint (ld32 (at_offset bs) (4 * i))"

fun usyss :: "ucall list \<Rightarrow> world \<Rightarrow> unit ures" where
  "usyss [] w = URet () w"
| "usyss (c # cs) w = ubind (usys c w) (\<lambda>_. usyss cs)"

text \<open>\<open>runcmd\<close> never returns.\<close>

fun runcmd :: "u8 list cmd \<Rightarrow> world \<Rightarrow> unit ures" where
  "runcmd (EXEC as) w =
     (case as of
        [] \<Rightarrow> uexit w
      | a # _ \<Rightarrow>
          ubind (usys (Uexec a as) w) (\<lambda>_ w.
          ubind (uprintf 2 (cstr ''exec %s failed'' @ [10]) (\<lambda>_. 0) (\<lambda>_. Some a) w) (\<lambda>_. uexit)))"
| "runcmd (REDIR c f mode fd) w =
     ubind (usys (Uclose fd) w) (\<lambda>_ w.
     ubind (usys (Uopen f mode) w) (\<lambda>r w.
     if r < 0 then
       ubind (uprintf 2 (cstr ''open %s failed'' @ [10]) (\<lambda>_. 0) (\<lambda>_. Some f) w) (\<lambda>_. uexit)
     else ubind (runcmd c w) (\<lambda>_. uexit)))"
| "runcmd (LIST l r) w =
     ubind (fork1 w) (\<lambda>pid w.
     ubind (if pid = 0 then runcmd l w else URet () w) (\<lambda>_ w.
     ubind (usys Uwait w) (\<lambda>_ w.
     ubind (runcmd r w) (\<lambda>_. uexit))))"
| "runcmd (PIPE l r) w =
     ubind (ask Upipe w) (\<lambda>p w.
     if fst p < 0 then sh_panic ''pipe'' w
     else
       let p0 = pipe_end 0 (snd p); p1 = pipe_end 1 (snd p) in
       ubind (fork1 w) (\<lambda>pid w.
       ubind (if pid = 0 then
                ubind (usyss [Uclose 1, Udup p1, Uclose p0, Uclose p1] w) (\<lambda>_. runcmd l)
              else URet () w) (\<lambda>_ w.
       ubind (fork1 w) (\<lambda>pid w.
       ubind (if pid = 0 then
                ubind (usyss [Uclose 0, Udup p0, Uclose p0, Uclose p1] w) (\<lambda>_. runcmd r)
              else URet () w) (\<lambda>_ w.
       ubind (usyss [Uclose p0, Uclose p1, Uwait, Uwait] w) (\<lambda>_. uexit))))))"
| "runcmd (BACK c) w =
     ubind (fork1 w) (\<lambda>pid w.
     ubind (if pid = 0 then runcmd c w else URet () w) (\<lambda>_. uexit))"

definition getcmd :: "world \<Rightarrow> u8 list option ures" where
  "getcmd w =
     ubind (uprintf 2 (cstr ''$ '') (\<lambda>_. 0) (\<lambda>_. None) w) (\<lambda>_ w.
     ubind (gets 100 w) (\<lambda>l.
     let buf = takeWhile (\<lambda>c. c \<noteq> 0) l in URet (if buf = [] then None else Some buf)))"

text \<open>What the child does with a line: \<open>runcmd(parsecmd(buf))\<close>.\<close>

definition sh_child :: "u8 list \<Rightarrow> world \<Rightarrow> unit ures" where
  "sh_child buf w =
     (case parsecmd buf of
        Parsed c _ \<Rightarrow> runcmd c w
      | Ppanic e \<Rightarrow> sh_panic e w
      | Leftovers s \<Rightarrow>
          ubind (uprintf 2 (cstr ''leftovers: %s'' @ [10]) (\<lambda>_. 0) (\<lambda>_. Some (drop s buf)) w)
            (\<lambda>_. sh_panic ''syntax'')
      | NoFuel \<Rightarrow> UHalt w)"

definition sh_line :: "u8 list \<Rightarrow> world \<Rightarrow> unit ures" where
  "sh_line buf w =
     (if take 3 buf = cstr ''cd '' then
        (let dir = drop 3 (butlast buf) in
         ubind (usys (Uchdir dir) w) (\<lambda>r w.
         if r < 0 then uprintf 2 (cstr ''cannot cd %s'' @ [10]) (\<lambda>_. 0) (\<lambda>_. Some dir) w
         else URet () w))
      else
        ubind (fork1 w) (\<lambda>pid w.
        ubind (if pid = 0 then sh_child buf w else URet () w) (\<lambda>_ w.
        ubind (usys Uwait w) (\<lambda>_. URet ()))))"

function sh_open :: "world \<Rightarrow> unit ures" where
  "sh_open w =
     ubind (usys (Uopen (cstr ''console'') 2) w) (\<lambda>fd w.
     if fd \<ge> 0 then
       (if fd \<ge> 3 then ubind (usys (Uclose fd) w) (\<lambda>_. URet ()) else sh_open w)
     else URet () w)"
  by pat_completeness auto

termination
  by (relation "measure (\<lambda>w. length (answers w))") (auto dest!: usys_answers)

declare sh_open.simps [simp del]

lemma runcmd_no_return: "runcmd c w \<noteq> URet u v"
  by (induction c w arbitrary: u v rule: runcmd.induct)
    (auto simp: ubind_URet uexit_def sh_panic_def Let_def split: list.splits if_splits)

lemma sh_child_no_return: "sh_child buf w \<noteq> URet u v"
  by (simp add: sh_child_def runcmd_no_return sh_panic_def uexit_def ubind_URet split: pres.split)

lemma getcmd_answers: "getcmd w = URet r v \<Longrightarrow> length (answers v) < length (answers w)"
proof -
  have g: "spends w (gets_loop k acc w)" for k acc w
    by (induction k acc w rule: gets_loop.induct) (auto intro!: spends split: option.split list.split)
  assume "getcmd w = URet r v"
  then obtain w1 l where p: "uprintf 2 (cstr ''$ '') (\<lambda>_. 0) (\<lambda>_. None) w = URet () w1"
    and l: "gets_loop (Suc 98) [] w1 = URet l v"
    by (auto simp: getcmd_def gets_def ubind_URet Let_def numeral_eq_Suc)
  from l [unfolded gets_loop.simps ubind_URet] obtain a w2 where u: "uread 0 1 w1 = URet a w2" and
    "(case a of Some [c] \<Rightarrow> if c = 10 \<or> c = 13 then URet ([] @ [c]) w2 else gets_loop 98 ([] @ [c]) w2
      | _ \<Rightarrow> URet [] w2) = URet l v" by blast
  from this(2) have "length (answers v) \<le> length (answers w2)"
    by (auto split: option.splits list.splits if_splits dest!: spendsD [OF g])
  with u spendsD [OF spends_uprintf p] show "length (answers v) < length (answers w)"
    by (auto dest!: uread_answers)
qed

lemma spends_fork1 [spends]: "spends w (fork1 w)"
  unfolding fork1_def sh_panic_def by (auto intro!: spends)

lemma spends_sh_child [spends]: "spends w (sh_child buf w)"
  by (simp add: spends_def sh_child_no_return)

lemma spends_sh_line: "spends w (sh_line buf w)"
  unfolding sh_line_def Let_def by (auto intro!: spends)

function sh_loop :: "world \<Rightarrow> unit ures" where
  "sh_loop w =
     ubind (getcmd w) (\<lambda>r w.
     case r of None \<Rightarrow> uexit w | Some buf \<Rightarrow> ubind (sh_line buf w) (\<lambda>_. sh_loop))"
  by pat_completeness auto

termination
  by (relation "measure (\<lambda>w. length (answers w))")
    (auto dest!: getcmd_answers spendsD [OF spends_sh_line])

declare sh_loop.simps [simp del]

definition sh_main :: "world \<Rightarrow> unit ures" where
  "sh_main w = ubind (sh_open w) (\<lambda>_. sh_loop)"

section \<open>The parser always answers\<close>

lemma parseargs_le: "parseargs buf c argc s = Parsed c' s' \<Longrightarrow> s \<le> s'"
proof (induction "length buf - s" arbitrary: c argc s rule: less_induct)
  case less
  obtain b s0 where p: "peek buf s [0x7c, 0x29, 0x26, 0x3b] = (b, s0)" by (metis surj_pair)
  obtain tok q eq s1 where g: "gettoken buf s0 = (tok, q, eq, s1)" by (metis prod_cases4)
  note le = peek_le [OF p] gettoken_le [OF g]
  show ?case
  proof (cases "\<not> b \<and> tok \<noteq> 0")
    case True
    with less.prems p g obtain c1 s2 where
      r: "parseredirs buf (add_arg (q, eq) c) s1 = Parsed c1 s2" "parseargs buf c1 (Suc argc) s2 = Parsed c' s'"
      by (subst (asm) parseargs.simps) (auto simp: pbind_Parsed split: if_splits)
    have "s < s2 \<and> s < length buf"
      using gettoken_less [OF g] True le(1) parseredirs_le [OF r(1)] by auto
    then show ?thesis using less.hyps [OF _ r(2)] by (auto simp: diff_less_mono2)
  next
    case False
    with less.prems p g le show ?thesis by (subst (asm) parseargs.simps) (auto split: if_splits)
  qed
qed

lemma parsebacks_le: "parsebacks buf c s = (c', s') \<Longrightarrow> s \<le> s'"
proof (induction "length buf - s" arbitrary: c s rule: less_induct)
  case less
  obtain b s0 where p: "peek buf s [0x26] = (b, s0)" by (metis surj_pair)
  show ?case
  proof (cases b)
    case True
    with p have q: "s < length buf \<and> s < next_pos buf s0" using peek_progress [of buf s _ s0] by simp
    from less.prems p True have "parsebacks buf (BACK c) (next_pos buf s0) = (c', s')"
      by (subst (asm) parsebacks.simps) simp
    from less.hyps [OF _ this] q show ?thesis by (simp add: diff_less_mono2)
  next
    case False
    with less.prems p peek_le [OF p] show ?thesis by (subst (asm) parsebacks.simps) simp
  qed
qed

text \<open>Inversion of the parser functions where they succeed.\<close>

lemma parseline_Parsed:
  assumes "parseline (Suc n) buf s = Parsed c s'"
  obtains c1 s1 c2 s2 b s3 where "parsepipe n buf s = Parsed c1 s1" "parsebacks buf c1 s1 = (c2, s2)"
    "peek buf s2 [0x3b] = (b, s3)" "\<not> b \<longrightarrow> c = c2 \<and> s' = s3"
    "b \<longrightarrow> (\<exists>r. parseline n buf (next_pos buf s3) = Parsed r s' \<and> c = LIST c2 r)"
proof -
  from assms obtain c1 s1 where p: "parsepipe n buf s = Parsed c1 s1"
    by (cases "parsepipe n buf s") auto
  obtain c2 s2 b s3 where q: "parsebacks buf c1 s1 = (c2, s2)" "peek buf s2 [0x3b] = (b, s3)"
    by (metis surj_pair)
  show thesis
    by (rule that [OF p q]) (use assms p q in \<open>auto simp: pbind_Parsed\<close>)
qed

lemma parsepipe_Parsed:
  assumes "parsepipe (Suc n) buf s = Parsed c s'"
  obtains c1 s1 b s2 where "parseexec n buf s = Parsed c1 s1" "peek buf s1 [0x7c] = (b, s2)"
    "\<not> b \<longrightarrow> c = c1 \<and> s' = s2"
    "b \<longrightarrow> (\<exists>r. parsepipe n buf (next_pos buf s2) = Parsed r s' \<and> c = PIPE c1 r)"
proof -
  from assms obtain c1 s1 where p: "parseexec n buf s = Parsed c1 s1"
    by (cases "parseexec n buf s") auto
  obtain b s2 where q: "peek buf s1 [0x7c] = (b, s2)" by (metis surj_pair)
  show thesis
    by (rule that [OF p q]) (use assms p q in \<open>auto simp: pbind_Parsed\<close>)
qed

lemma parseblock_Parsed:
  assumes "parseblock (Suc n) buf s = Parsed c s'"
  obtains s1 c1 s2 s3 where "peek buf s [0x28] = (True, s1)"
    "parseline n buf (next_pos buf s1) = Parsed c1 s2" "peek buf s2 [0x29] = (True, s3)"
    "parseredirs buf c1 (next_pos buf s3) = Parsed c s'"
proof -
  obtain b s1 where p: "peek buf s [0x28] = (b, s1)" by (metis surj_pair)
  from assms p obtain c1 s2 where q: "b" "parseline n buf (next_pos buf s1) = Parsed c1 s2"
    by (cases "parseline n buf (next_pos buf s1)") (auto split: if_splits)
  obtain b' s3 where r: "peek buf s2 [0x29] = (b', s3)" by (metis surj_pair)
  from assms p q r have "b'" "parseredirs buf c1 (next_pos buf s3) = Parsed c s'"
    by (auto split: if_splits)
  with p q r that show thesis by simp
qed

lemma parseexec_Parsed:
  assumes "parseexec (Suc n) buf s = Parsed c s'"
  obtains s1 where "peek buf s [0x28] = (True, s1)" "parseblock n buf s1 = Parsed c s'"
  | s1 c1 s2 where "peek buf s [0x28] = (False, s1)" "parseredirs buf (EXEC []) s1 = Parsed c1 s2"
    "parseargs buf c1 0 s2 = Parsed c s'"
proof -
  obtain b s1 where "peek buf s [0x28] = (b, s1)" by (metis surj_pair)
  with assms that show thesis by (cases b) (auto simp: pbind_Parsed)
qed

lemma parser_le:
  "parseline n buf s = Parsed c s' \<Longrightarrow> s \<le> s'"
  "parsepipe n buf s = Parsed c s' \<Longrightarrow> s \<le> s'"
  "parseblock n buf s = Parsed c s' \<Longrightarrow> s \<le> s'"
  "parseexec n buf s = Parsed c s' \<Longrightarrow> s \<le> s'"
proof (induction n arbitrary: s c s')
  case (Suc n)
  {
    case 1
    then obtain c1 s1 c2 s2 b s3 where p: "parsepipe n buf s = Parsed c1 s1"
      "parsebacks buf c1 s1 = (c2, s2)" "peek buf s2 [0x3b] = (b, s3)"
      and f: "\<not> b \<longrightarrow> c = c2 \<and> s' = s3"
      and t: "b \<longrightarrow> (\<exists>r. parseline n buf (next_pos buf s3) = Parsed r s' \<and> c = LIST c2 r)"
      by (rule parseline_Parsed)
    have "s \<le> s3" using Suc(2) [OF p(1)] parsebacks_le [OF p(2)] peek_le [OF p(3)] by simp
    with f t p(3) show ?case
      using peek_less [of buf s2 "[0x3b]" s3] by (cases b) (auto dest!: Suc(1))
  next
    case 2
    then obtain c1 s1 b s2 where p: "parseexec n buf s = Parsed c1 s1" "peek buf s1 [0x7c] = (b, s2)"
      and f: "\<not> b \<longrightarrow> c = c1 \<and> s' = s2"
      and t: "b \<longrightarrow> (\<exists>r. parsepipe n buf (next_pos buf s2) = Parsed r s' \<and> c = PIPE c1 r)"
      by (rule parsepipe_Parsed)
    have "s \<le> s2" using Suc(4) [OF p(1)] peek_le [OF p(2)] by simp
    with f t p(2) show ?case
      using peek_less [of buf s1 "[0x7c]" s2] by (cases b) (auto dest!: Suc(2))
  next
    case 3
    then obtain s1 c1 s2 s3 where p: "peek buf s [0x28] = (True, s1)"
      "parseline n buf (next_pos buf s1) = Parsed c1 s2" "peek buf s2 [0x29] = (True, s3)"
      "parseredirs buf c1 (next_pos buf s3) = Parsed c s'" by (rule parseblock_Parsed)
    then show ?case
      using Suc(1) [OF p(2)] peek_progress [OF p(1)] peek_progress [OF p(3)] parseredirs_le [OF p(4)]
      by linarith
  next
    case 4
    then show ?case
    proof (rule parseexec_Parsed)
      fix s1 assume "peek buf s [0x28] = (True, s1)" "parseblock n buf s1 = Parsed c s'"
      then show ?thesis using Suc(3) peek_le by (blast intro: order_trans)
    next
      fix s1 c1 s2 assume "peek buf s [0x28] = (False, s1)" "parseredirs buf (EXEC []) s1 = Parsed c1 s2"
        "parseargs buf c1 0 s2 = Parsed c s'"
      then show ?thesis using peek_le parseredirs_le parseargs_le by (blast intro: order_trans)
    qed
  }
qed simp_all

lemma loops_answer:
  "parseredirs buf c s \<noteq> NoFuel \<and> parseredirs buf c s \<noteq> Leftovers t"
  "parseargs buf c argc s \<noteq> NoFuel \<and> parseargs buf c argc s \<noteq> Leftovers t"
proof -
  show r: "parseredirs buf c s \<noteq> NoFuel \<and> parseredirs buf c s \<noteq> Leftovers t" for c s t
  proof (induction "length buf - s" arbitrary: c s rule: less_induct)
    case less
    show ?case
      by (subst (1 2) parseredirs.simps)
        (auto split: prod.split dest!: redir_progress less.hyps)
  qed
  show "parseargs buf c argc s \<noteq> NoFuel \<and> parseargs buf c argc s \<noteq> Leftovers t"
  proof (induction "length buf - s" arbitrary: c argc s rule: less_induct)
    case less
    obtain b s0 where p: "peek buf s [0x7c, 0x29, 0x26, 0x3b] = (b, s0)" by (metis surj_pair)
    obtain tok q eq s1 where g: "gettoken buf s0 = (tok, q, eq, s1)" by (metis prod_cases4)
    show ?case
    proof (cases "\<not> b \<and> tok \<noteq> 0")
      case True
      have s: "s < s1 \<and> s < length buf" using gettoken_less [OF g] peek_le [OF p] True by simp
      show ?thesis
      proof (cases "parseredirs buf (add_arg (q, eq) c) s1")
        case (Parsed c1 s2)
        then have "length buf - s2 < length buf - s" using s parseredirs_le [OF Parsed] by auto
        from less.hyps [OF this] Parsed p g show ?thesis by (subst (1 2) parseargs.simps) simp
      qed (insert r [of "add_arg (q, eq) c" s1] p g, (subst (1 2) parseargs.simps, simp)+)
    qed (insert p g, subst (1 2) parseargs.simps, auto)
  qed
qed

lemma parser_answers:
  "4 * (length buf - s) + 4 \<le> n \<Longrightarrow> parseline n buf s \<noteq> NoFuel"
  "4 * (length buf - s) + 3 \<le> n \<Longrightarrow> parsepipe n buf s \<noteq> NoFuel"
  "4 * (length buf - s) + 1 \<le> n \<Longrightarrow> s < length buf \<Longrightarrow> parseblock n buf s \<noteq> NoFuel"
  "4 * (length buf - s) + 2 \<le> n \<Longrightarrow> parseexec n buf s \<noteq> NoFuel"
proof (induction n arbitrary: s)
  case (Suc n)
  {
    case 1
    show ?case
    proof (cases "parsepipe n buf s")
      case (Parsed c1 s1)
      obtain c2 s2 b s3 where q: "parsebacks buf c1 s1 = (c2, s2)" "peek buf s2 [0x3b] = (b, s3)"
        by (metis surj_pair)
      have "s \<le> s2" using parser_le(2) [OF Parsed] parsebacks_le [OF q(1)] by simp
      then have "parseline n buf (next_pos buf s3) \<noteq> NoFuel" if b
        using that 1 peek_progress [of buf s2 "[0x3b]" s3] q(2) by (intro Suc(1)) auto
      with Parsed q show ?thesis by (cases "parseline n buf (next_pos buf s3)") auto
    qed (use Suc(2) [of s] 1 in auto)
  next
    case 2
    show ?case
    proof (cases "parseexec n buf s")
      case (Parsed c1 s1)
      obtain b s2 where q: "peek buf s1 [0x7c] = (b, s2)" by (metis surj_pair)
      have "s \<le> s1" using parser_le(4) [OF Parsed] by simp
      then have "parsepipe n buf (next_pos buf s2) \<noteq> NoFuel" if b
        using that 2 peek_progress [of buf s1 "[0x7c]" s2] q by (intro Suc(2)) auto
      with Parsed q show ?thesis by (cases "parsepipe n buf (next_pos buf s2)") auto
    qed (use Suc(4) [of s] 2 in auto)
  next
    case 3
    obtain b s1 where p: "peek buf s [0x28] = (b, s1)" by (metis surj_pair)
    have "parseline n buf (next_pos buf s1) \<noteq> NoFuel" if b
      using that 3 peek_progress [of buf s "[0x28]" s1] p by (intro Suc(1)) auto
    then show ?case
      using p loops_answer(1) by (cases "parseline n buf (next_pos buf s1)") (auto split: prod.split)
  next
    case 4
    obtain b s1 where p: "peek buf s [0x28] = (b, s1)" by (metis surj_pair)
    have "parseblock n buf s1 \<noteq> NoFuel" if b
      using that 4 peek_le [OF p] peek_less [of buf s "[0x28]" s1] p by (intro Suc(3)) auto
    then show ?case
      using p loops_answer by (cases "parseredirs buf (EXEC []) s1") auto
  }
qed simp_all

text \<open>C12: The shell's parser answers for every command line: the fuel that \<open>parsecmd\<close> gives to its
  mutually recursive functions is never used up, so it comes to a command, a syntax error or left-over
  text.\<close>

theorem sh_parser_total: "parsecmd buf \<noteq> NoFuel"
proof -
  have "parseline (4 * (length buf + 1)) buf 0 \<noteq> NoFuel" by (rule parser_answers) simp
  then show ?thesis
    unfolding parsecmd_def
    by (cases "parseline (4 * (length buf + 1)) buf 0") (auto split: prod.split)
qed

section \<open>The words of a command\<close>

text \<open>\<open>(q, eq)\<close> is a whole word of the line: it consists of word characters and ends at the end of the
  line or before a character that cannot be in a word.\<close>

definition good_word :: "u8 list \<Rightarrow> nat \<times> nat \<Rightarrow> bool" where
  "good_word buf w =
     (fst w \<le> snd w \<and> snd w \<le> length buf \<and> (\<forall>i \<in> {fst w..< snd w}. wordchar (buf ! i)) \<and>
      (snd w < length buf \<longrightarrow> \<not> wordchar (buf ! snd w)))"

definition word_of :: "u8 list \<Rightarrow> nat \<times> nat \<Rightarrow> u8 list" where
  "word_of buf w = take (snd w - fst w) (drop (fst w) buf)"

lemma skip_good: "q \<le> length buf \<Longrightarrow> good_word buf (q, skip wordchar buf q)"
proof -
  assume q: "q \<le> length buf"
  let ?n = "length (takeWhile wordchar (drop q buf))"
  have n: "q + ?n \<le> length buf" using length_takeWhile_le [of wordchar "drop q buf"] q by simp
  have "wordchar (buf ! i)" if "q \<le> i" "i < q + ?n" for i
  proof -
    from that have "takeWhile wordchar (drop q buf) ! (i - q) = buf ! i"
      using n by (subst takeWhile_nth) auto
    with that show ?thesis using nth_mem [of "i - q" "takeWhile wordchar (drop q buf)"] set_takeWhileD
      by fastforce
  qed
  moreover have "\<not> wordchar (buf ! (q + ?n))" if "q + ?n < length buf"
    using nth_length_takeWhile [of wordchar "drop q buf"] that by simp
  ultimately show ?thesis using n by (simp add: good_word_def skip_def)
qed

lemma gettoken_good:
  assumes "gettoken buf s = (0x61, q, eq, s')"
  shows "good_word buf (q, eq)"
proof -
  from assms have "char_at buf q \<noteq> 0" "eq = skip wordchar buf q"
    by (auto simp: gettoken_def Let_def split: if_splits)
  then show ?thesis using char_at_nonzero [of buf q] by (simp add: skip_good)
qed

lemma set_add_arg: "set_cmd (add_arg a c) \<subseteq> insert a (set_cmd c)"
  by (induction a c rule: add_arg.induct) auto

lemma set_redir_tok: "set_cmd (redir_tok tok f c) \<subseteq> insert f (set_cmd c)"
  by (auto simp: redir_tok_def)

definition good :: "u8 list \<Rightarrow> pcmd \<Rightarrow> bool" where
  "good buf c = (\<forall>w \<in> set_cmd c. good_word buf w)"

lemma good_simps [simp]:
  "good buf (EXEC [])" "good buf (BACK c) = good buf c"
  "good buf (LIST c d) \<longleftrightarrow> good buf c \<and> good buf d" "good buf (PIPE c d) \<longleftrightarrow> good buf c \<and> good buf d"
  by (auto simp: good_def)

lemma good_add: "good buf c \<Longrightarrow> good_word buf w \<Longrightarrow> good buf (add_arg w c)"
  "good buf c \<Longrightarrow> good_word buf w \<Longrightarrow> good buf (redir_tok tok w c)"
  using set_add_arg [of w c] set_redir_tok [of tok w c] by (auto simp: good_def)

lemma parseredirs_good: "parseredirs buf c s = Parsed c' s' \<Longrightarrow> good buf c \<Longrightarrow> good buf c'"
proof (induction "length buf - s" arbitrary: c s rule: less_induct)
  case less
  from less.prems(1) show ?case
  proof (cases rule: parseredirs_Parsed)
    case stop
    with less.prems show ?thesis by simp
  next
    case (more s0 tok q0 e0 s1 q eq s2)
    from less.hyps [OF _ more(4)] show ?thesis
      using redir_progress [OF more(1-3)] less.prems(2) gettoken_good [OF more(3)]
      by (simp add: good_add)
  qed
qed

lemma parseargs_good: "parseargs buf c argc s = Parsed c' s' \<Longrightarrow> good buf c \<Longrightarrow> good buf c'"
proof (induction "length buf - s" arbitrary: c argc s rule: less_induct)
  case less
  obtain b s0 where p: "peek buf s [0x7c, 0x29, 0x26, 0x3b] = (b, s0)" by (metis surj_pair)
  obtain tok q eq s1 where g: "gettoken buf s0 = (tok, q, eq, s1)" by (metis prod_cases4)
  show ?case
  proof (cases "\<not> b \<and> tok \<noteq> 0")
    case True
    with less.prems(1) p g obtain c1 s2 where tok: "tok = 0x61" and
      r: "parseredirs buf (add_arg (q, eq) c) s1 = Parsed c1 s2" "parseargs buf c1 (Suc argc) s2 = Parsed c' s'"
      by (subst (asm) parseargs.simps) (auto simp: pbind_Parsed split: if_splits)
    have "s < s2 \<and> s < length buf"
      using gettoken_less [OF g] True peek_le [OF p] parseredirs_le [OF r(1)] by auto
    moreover have "good buf c1"
      using r(1) by (rule parseredirs_good) (use less.prems(2) gettoken_good g tok in \<open>simp add: good_add\<close>)
    ultimately show ?thesis using less.hyps [OF _ r(2)] by (simp add: diff_less_mono2)
  next
    case False
    with less.prems p g show ?thesis by (subst (asm) parseargs.simps) (auto split: if_splits)
  qed
qed

lemma parsebacks_good: "parsebacks buf c s = (c', s') \<Longrightarrow> good buf c' = good buf c"
proof (induction buf c s rule: parsebacks.induct)
  case (1 buf c s)
  obtain b s0 where p: "peek buf s [0x26] = (b, s0)" by (metis surj_pair)
  from 1(2) p have "(if b then parsebacks buf (BACK c) (next_pos buf s0) else (c, s0)) = (c', s')"
    by (subst (asm) parsebacks.simps) simp
  with 1(1) [OF p [symmetric]] show ?case by (auto split: if_splits)
qed

lemma parser_good:
  "parseline n buf s = Parsed c s' \<Longrightarrow> good buf c"
  "parsepipe n buf s = Parsed c s' \<Longrightarrow> good buf c"
  "parseblock n buf s = Parsed c s' \<Longrightarrow> good buf c"
  "parseexec n buf s = Parsed c s' \<Longrightarrow> good buf c"
proof (induction n arbitrary: s c s')
  case (Suc n)
  {
    case 1
    then show ?case
      by (rule parseline_Parsed) (use Suc(1,2) parsebacks_good in \<open>metis good_simps(3)\<close>)
  next
    case 2
    then show ?case
      by (rule parsepipe_Parsed) (use Suc(2,4) in \<open>metis good_simps(4)\<close>)
  next
    case 3
    then show ?case by (rule parseblock_Parsed) (use Suc(1) parseredirs_good in blast)
  next
    case 4
    then show ?case
      by (rule parseexec_Parsed) (use Suc(3) parseredirs_good parseargs_good good_simps(1) in blast)+
  }
qed simp_all

lemma nulterminate_nth:
  "length (nulterminate c m) = length m"
  "i < length m \<Longrightarrow> nulterminate c m ! i = (if i \<in> snd ` set_cmd c then 0 else m ! i)"
proof -
  have u: "i < length xs \<Longrightarrow> xs[b := 0] ! i = (if b = i then 0 else xs ! i)" for xs :: "u8 list" and b i
    by auto
  have e: "length (fold (\<lambda>(q, eq) m. m[eq := 0]) as m) = length m \<and>
      (i < length m \<longrightarrow> fold (\<lambda>(q, eq) m. m[eq := 0]) as m ! i = (if i \<in> snd ` set as then 0 else m ! i))"
    for as :: "(nat \<times> nat) list" and m :: "u8 list" and i
    by (induction as arbitrary: m) (auto simp: u rev_image_eqI)
  have "length (nulterminate c m) = length m \<and>
      (i < length m \<longrightarrow> nulterminate c m ! i = (if i \<in> snd ` set_cmd c then 0 else m ! i))" for i m
    by (induction c m rule: nulterminate.induct) (auto simp: e u rev_image_eqI)
  then show "length (nulterminate c m) = length m"
    "i < length m \<Longrightarrow> nulterminate c m ! i = (if i \<in> snd ` set_cmd c then 0 else m ! i)" by blast+
qed

lemma string_at_word:
  assumes "good buf c" and w: "w \<in> set_cmd c" and "0 \<notin> set buf"
  shows "string_at (nulterminate c (buf @ [0])) (fst w) = word_of buf w"
proof -
  let ?m = "nulterminate c (buf @ [0])" and ?n = "snd w - fst w"
  from assms have g: "good_word buf w" by (simp add: good_def)
  have ends: "snd v < length buf \<Longrightarrow> \<not> wordchar (buf ! snd v)" if "v \<in> set_cmd c" for v
    using assms(1) that by (auto simp: good_def good_word_def)
  have m: "?m ! i = buf ! i \<and> buf ! i \<noteq> 0" if "fst w \<le> i" "i < snd w" for i
  proof -
    from that g have i: "i < length buf" "wordchar (buf ! i)" by (auto simp: good_word_def)
    then have "i \<notin> snd ` set_cmd c" using ends by auto
    with i assms(3) show ?thesis by (auto simp: nulterminate_nth nth_append in_set_conv_nth)
  qed
  have "takeWhile (\<lambda>c. c \<noteq> 0) (drop (fst w) ?m) = take ?n (drop (fst w) ?m)"
    using g m w by (intro takeWhile_eq_take_P_nth) (auto simp: nulterminate_nth good_word_def)
  also have "\<dots> = take ?n (drop (fst w) buf)"
    using g m by (intro nth_equalityI) (auto simp: nulterminate_nth good_word_def)
  finally show ?thesis by (simp add: string_at_def word_of_def)
qed



end
