(* ===== verification/Spec2Isabelle.thy ===== *)
theory Spec2Isabelle
  imports Pixels Boot Ide Txn Kernel Grep Draw Utils Sh
begin

text \<open>The root of the development.\<close>

end
